(* ===== verification/Agent_Prelude.thy ===== *)
theory Agent_Prelude
  imports Complex_Main "HOL-Library.AList" "HOL-Library.List_Lexorder"
begin

text \<open>
  What the components share: Python strings as lists of code points, insertion-ordered
  dictionaries as association lists with distinct keys, results of calls that may raise as
  sums (\<open>Inl\<close> the exception), and the facts about lists and association lists that several
  component proofs need. Collections: \<open>py_str\<close> (text operations), \<open>py_dict\<close>
  (dictionaries).
\<close>

named_theorems py_str \<open>facts about the Python string operations\<close>
named_theorems py_dict \<open>facts about insertion-ordered dictionaries\<close>

section \<open>Strings\<close>

text \<open>
  A Python \<open>str\<close> is a sequence of Unicode code points, so \<open>len\<close> counts code points and
  comparison is lexicographic on them (the order of \<open>HOL-Library.List_Lexorder\<close>).
  Isabelle's \<open>char\<close> is a byte, hence the list of the integers that \<open>ord\<close> returns;
  \<open>lit ''...''\<close> writes an ASCII literal of the source, \<open>len\<close> is Python's \<open>len\<close>.
\<close>

type_synonym pystr = "int list"

abbreviation len :: "'a list \<Rightarrow> int" where
  "len xs \<equiv> int (length xs)"

definition lit :: "string \<Rightarrow> pystr" where
  "lit s = map of_char s"

lemma lit_eq_iff [simp]: "lit a = lit b \<longleftrightarrow> a = b"
  by (simp add: lit_def inj_map_eq_map inj_def)

lemma lit_Nil [simp]: "lit [] = []"
  by (simp add: lit_def)

lemma lit_eq_Nil [simp]: "lit a = [] \<longleftrightarrow> a = []" "[] = lit a \<longleftrightarrow> a = []"
  by (auto simp: lit_def)

lemma length_lit [simp]: "length (lit a) = length a"
  by (simp add: lit_def)

text \<open>The code points \<open>str.isspace\<close> accepts, which \<open>str.strip()\<close> removes.\<close>

definition py_isspace :: "int \<Rightarrow> bool" where
  "py_isspace c \<longleftrightarrow>
     9 \<le> c \<and> c \<le> 13 \<or> 28 \<le> c \<and> c \<le> 32 \<or> c = 133 \<or> c = 160 \<or> c = 5760 \<or>
     8192 \<le> c \<and> c \<le> 8202 \<or> c = 8232 \<or> c = 8233 \<or> c = 8239 \<or> c = 8287 \<or> c = 12288"

definition py_strip :: "pystr \<Rightarrow> pystr" where
  "py_strip s = rev (dropWhile py_isspace (rev (dropWhile py_isspace s)))"

lemma length_py_strip_le [py_str]: "length (py_strip s) \<le> length s"
  unfolding py_strip_def
  by (metis (no_types, lifting) le_trans length_dropWhile_le length_rev)

lemma dropWhile_idem_hd:
  "dropWhile P xs = [] \<or> \<not> P (hd (dropWhile P xs))"
  using hd_dropWhile by blast

lemma py_strip_no_outer_space [py_str]:
  "py_strip s = [] \<or> \<not> py_isspace (last (py_strip s))"
proof -
  define t where "t = dropWhile py_isspace (rev (dropWhile py_isspace s))"
  have "t = [] \<or> \<not> py_isspace (hd t)"
    unfolding t_def by (rule dropWhile_idem_hd)
  then show ?thesis
    by (simp add: py_strip_def t_def [symmetric] last_rev)
qed

lemma py_strip_no_leading_space [py_str]:
  "py_strip s = [] \<or> \<not> py_isspace (hd (py_strip s))"
proof -
  define u where "u = dropWhile py_isspace s"
  have u: "u = [] \<or> \<not> py_isspace (hd u)"
    unfolding u_def by (rule dropWhile_idem_hd)
  obtain w where w: "rev u = w @ dropWhile py_isspace (rev u)"
    by (metis takeWhile_dropWhile_id)
  then have split: "u = rev (dropWhile py_isspace (rev u)) @ rev w"
    by (metis rev_append rev_rev_ident)
  show ?thesis
  proof (cases "rev (dropWhile py_isspace (rev u)) = []")
    case True
    then show ?thesis by (simp add: py_strip_def u_def)
  next
    case False
    then have "hd u = hd (rev (dropWhile py_isspace (rev u)))" and "u \<noteq> []"
      by (metis split hd_append2, metis split append_is_Nil_conv)
    with u show ?thesis unfolding py_strip_def u_def [symmetric] by metis
  qed
qed

lemma py_strip_fixed:
  assumes "s = [] \<or> \<not> py_isspace (hd s) \<and> \<not> py_isspace (last s)"
  shows "py_strip s = s"
proof (cases "s = []")
  case True
  then show ?thesis by (simp add: py_strip_def)
next
  case False
  with assms have "\<not> py_isspace (hd s)" "\<not> py_isspace (last s)" by auto
  with False have "dropWhile py_isspace s = s" "dropWhile py_isspace (rev s) = rev s"
    by (simp_all add: dropWhile_eq_self_iff hd_rev)
  then show ?thesis by (simp add: py_strip_def)
qed

lemma py_strip_idem [simp, py_str]: "py_strip (py_strip s) = py_strip s"
  by (rule py_strip_fixed)
    (use py_strip_no_leading_space py_strip_no_outer_space in blast)

text \<open>\<open>str.join\<close>.\<close>

fun py_join :: "pystr \<Rightarrow> pystr list \<Rightarrow> pystr" where
  "py_join sep [] = []"
| "py_join sep [s] = s"
| "py_join sep (s # ss) = s @ sep @ py_join sep ss"

text \<open>
  A Python \<open>float\<close> that is compared and printed: its value (none for infinities and NaN) and
  the text \<open>repr\<close> gives.
\<close>

record py_float =
  pf_value :: "rat option"
  pf_text :: pystr

section \<open>Dictionaries\<close>

text \<open>
  A Python \<open>dict\<close> keeps insertion order: assigning an existing key replaces its value in
  place, a new key goes to the end. That is \<open>AList.update\<close>; \<open>pop(k, None)\<close> is
  \<open>AList.delete\<close>; lookup is \<open>map_of\<close>.
\<close>

type_synonym ('k, 'v) dict = "('k \<times> 'v) list"

abbreviation dict_get :: "('k, 'v) dict \<Rightarrow> 'k \<Rightarrow> 'v option" where
  "dict_get \<equiv> map_of"

abbreviation dict_set :: "'k \<Rightarrow> 'v \<Rightarrow> ('k, 'v) dict \<Rightarrow> ('k, 'v) dict" where
  "dict_set \<equiv> AList.update"

abbreviation dict_pop :: "'k \<Rightarrow> ('k, 'v) dict \<Rightarrow> ('k, 'v) dict" where
  "dict_pop \<equiv> AList.delete"

definition dict_keys :: "('k, 'v) dict \<Rightarrow> 'k list" where
  "dict_keys d = map fst d"

definition dict_wf :: "('k, 'v) dict \<Rightarrow> bool" where
  "dict_wf d = distinct (map fst d)"

definition dict_has :: "('k, 'v) dict \<Rightarrow> 'k \<Rightarrow> bool" where
  "dict_has d k = (map_of d k \<noteq> None)"

lemma dict_has_iff [py_dict]: "dict_has d k \<longleftrightarrow> k \<in> fst ` set d"
  by (auto simp: dict_has_def map_of_eq_None_iff)

lemma dict_get_set [simp, py_dict]:
  "dict_get (dict_set k v d) k' = (if k' = k then Some v else dict_get d k')"
  by (simp add: AList.update_conv)

lemma dict_get_pop [simp, py_dict]:
  "dict_get (dict_pop k d) k' = (if k' = k then None else dict_get d k')"
  by (simp add: AList.delete_conv)

lemma dict_wf_Nil [simp, py_dict]: "dict_wf []"
  by (simp add: dict_wf_def)

lemma dict_wf_set [simp, py_dict]: "dict_wf d \<Longrightarrow> dict_wf (dict_set k v d)"
  by (simp add: dict_wf_def AList.distinct_update)

lemma dict_wf_pop [simp, py_dict]: "dict_wf d \<Longrightarrow> dict_wf (dict_pop k d)"
  by (simp add: dict_wf_def AList.distinct_delete)

lemma dict_keys_set [py_dict]:
  "dict_keys (dict_set k v d) =
     (if k \<in> set (dict_keys d) then dict_keys d else dict_keys d @ [k])"
  by (simp add: dict_keys_def AList.update_keys)

section \<open>Results\<close>

text \<open>A call returns \<open>Inr v\<close> or raises \<open>Inl e\<close>; \<open>rmap\<close> post-processes a returned value.\<close>

definition rmap :: "('a \<Rightarrow> 'b) \<Rightarrow> 'e + 'a \<Rightarrow> 'e + 'b" where
  "rmap f r = (case r of Inl e \<Rightarrow> Inl e | Inr v \<Rightarrow> Inr (f v))"

lemma rmap_simps [simp]: "rmap f (Inl e) = Inl e" "rmap f (Inr v) = Inr (f v)"
  by (simp_all add: rmap_def)

lemma rmap_Inr_iff [simp]: "rmap f r = Inr y \<longleftrightarrow> (\<exists>x. r = Inr x \<and> y = f x)"
  by (cases r) auto

lemma rmap_Inl_iff [simp]: "rmap f r = Inl e \<longleftrightarrow> r = Inl e"
  by (cases r) auto

definition rbind :: "'e + 'a \<Rightarrow> ('a \<Rightarrow> 'e + 'b) \<Rightarrow> 'e + 'b" where
  "rbind r f = (case r of Inl e \<Rightarrow> Inl e | Inr v \<Rightarrow> f v)"

lemma rbind_simps [simp]: "rbind (Inl e) f = Inl e" "rbind (Inr v) f = f v"
  by (simp_all add: rbind_def)

lemma rbind_Inr_iff [simp]: "rbind r f = Inr y \<longleftrightarrow> (\<exists>x. r = Inr x \<and> f x = Inr y)"
  by (cases r) auto

lemma rbind_Inl_iff [simp]:
  "rbind r f = Inl e \<longleftrightarrow> r = Inl e \<or> (\<exists>x. r = Inr x \<and> f x = Inl e)"
  by (cases r) auto

text \<open>A list comprehension whose elements may raise.\<close>

fun rmap_list :: "('a \<Rightarrow> 'e + 'b) \<Rightarrow> 'a list \<Rightarrow> 'e + 'b list" where
  "rmap_list f [] = Inr []"
| "rmap_list f (x # xs) = rbind (f x) (\<lambda>y. rmap (\<lambda>ys. y # ys) (rmap_list f xs))"

lemma rmap_list_Inr: "rmap_list f xs = Inr ys \<longleftrightarrow> list_all2 (\<lambda>x y. f x = Inr y) xs ys"
  by (induction xs arbitrary: ys) (auto simp: list_all2_Cons1)

lemma rmap_list_length: "rmap_list f xs = Inr ys \<Longrightarrow> length ys = length xs"
  by (auto simp: rmap_list_Inr list_all2_lengthD)

lemma rmap_list_error: "rmap_list f xs = Inl e \<Longrightarrow> \<exists>x\<in>set xs. f x = Inl e"
  by (induction xs) auto

section \<open>Lists\<close>

lemma takeWhile_append_if:
  "takeWhile P (xs @ ys) = (if \<forall>x\<in>set xs. P x then xs @ takeWhile P ys else takeWhile P xs)"
  by (induction xs) auto

text \<open>The last \<open>n\<close> elements: the slice \<open>xs[-n:]\<close> for \<open>0 < n\<close>.\<close>

definition take_last :: "nat \<Rightarrow> 'a list \<Rightarrow> 'a list" where
  "take_last n xs = drop (length xs - n) xs"

lemma length_take_last [simp]: "length (take_last n xs) = min n (length xs)"
  by (auto simp: take_last_def)

lemma take_last_append: "take_last n xs = ys \<Longrightarrow> xs = take (length xs - n) xs @ ys"
  by (auto simp: take_last_def)

end
