(* ===== verification/Py_Json.thy ===== *)
theory Py_Json
  imports Agent_Prelude "HOL-Library.Multiset"
begin

text \<open>
  The part of Python's \<open>json\<close> module the program uses: \<open>json.loads\<close> with its string,
  number and container grammar, its \<open>parse_constant\<close> and \<open>object_pairs_hook\<close> hooks as
  \<open>rag/embedding_worker_protocol.py\<close> sets them, and \<open>json.dumps\<close> with
  \<open>ensure_ascii=False\<close>. A float is kept as the text \<open>json\<close> prints for it; which text a
  literal denotes (\<open>repr(float(s))\<close>) is the parameter \<open>jc_float\<close>. Python refuses to
  convert a decimal integer of more than 4300 digits with a plain \<open>ValueError\<close>, which is
  not a \<open>JSONDecodeError\<close>; the model keeps the difference. The interpreter's recursion
  limit is not modelled.
\<close>

section \<open>Values\<close>

datatype json =
    JNull
  | JBool bool
  | JInt int
  | JFloat pystr
  | JStr pystr
  | JArr "json list"
  | JObj "(pystr, json) dict"

datatype json_error = JSONDecodeError | JSONValueError

text \<open>
  The texts Python makes that no branch of the program depends on, as parameters: what a float
  literal prints as, the message of the \<open>JSONDecodeError\<close> for a text that is not JSON and its
  \<open>str\<close> (they differ between Python versions), \<open>repr\<close> of a string and \<open>str\<close> of a JSON value.
\<close>

record py_text =
  pt_float :: "pystr \<Rightarrow> pystr"
  pt_json_msg :: "pystr \<Rightarrow> pystr"
  pt_json_str :: "pystr \<Rightarrow> pystr"
  pt_repr :: "pystr \<Rightarrow> pystr"
  pt_str :: "json \<Rightarrow> pystr"

definition sample_text :: py_text where
  "sample_text =
     \<lparr>pt_float = (\<lambda>s. s), pt_json_msg = (\<lambda>_. lit ''Expecting value''),
      pt_json_str = (\<lambda>_. lit ''Expecting value: line 1 column 1 (char 0)''),
      pt_repr = (\<lambda>s. 39 # s @ [39]), pt_str = (\<lambda>_. [])\<rparr>"

record json_cfg =
  jc_float :: "pystr \<Rightarrow> pystr"
  jc_reject_constants :: bool
  jc_reject_duplicates :: bool

text \<open>\<open>json.loads(s)\<close> without hooks.\<close>

definition plain_cfg :: "py_text \<Rightarrow> json_cfg" where
  "plain_cfg fl = \<lparr>jc_float = pt_float fl, jc_reject_constants = False, jc_reject_duplicates = False\<rparr>"

section \<open>Scanning\<close>

definition json_ws :: "int \<Rightarrow> bool" where
  "json_ws c \<longleftrightarrow> c = 32 \<or> c = 9 \<or> c = 10 \<or> c = 13"

definition skip_ws :: "pystr \<Rightarrow> pystr" where
  "skip_ws s = dropWhile json_ws s"

lemma length_skip_ws [simp]: "length (skip_ws s) \<le> length s"
  by (simp add: skip_ws_def length_dropWhile_le)

definition is_digit :: "int \<Rightarrow> bool" where
  "is_digit c \<longleftrightarrow> 48 \<le> c \<and> c \<le> 57"

definition hexval :: "int \<Rightarrow> int option" where
  "hexval c =
     (if is_digit c then Some (c - 48)
      else if 65 \<le> c \<and> c \<le> 70 then Some (c - 55)
      else if 97 \<le> c \<and> c \<le> 102 then Some (c - 87) else None)"

fun hex4 :: "pystr \<Rightarrow> (int \<times> pystr) option" where
  "hex4 (a # b # c # d # r) =
     (case (hexval a, hexval b, hexval c, hexval d) of
        (Some i, Some j, Some k, Some l) \<Rightarrow> Some (((i * 16 + j) * 16 + k) * 16 + l, r)
      | _ \<Rightarrow> None)"
| "hex4 _ = None"

text \<open>What follows a backslash and a \<open>u\<close>: four hex digits, a surrogate pair joined.\<close>

definition unescape_u :: "pystr \<Rightarrow> (int \<times> pystr) option" where
  "unescape_u s =
     (case hex4 s of
        None \<Rightarrow> None
      | Some (u, r) \<Rightarrow>
          if 55296 \<le> u \<and> u \<le> 56319 \<and> take 2 r = [92, 117] then
            (case hex4 (drop 2 r) of
               None \<Rightarrow> None
             | Some (v, r') \<Rightarrow>
                 if 56320 \<le> v \<and> v \<le> 57343
                 then Some (65536 + (u - 55296) * 1024 + (v - 56320), r')
                 else Some (u, r))
          else Some (u, r))"

lemma hex4_length: "hex4 s = Some (u, r) \<Longrightarrow> length r < length s"
  by (cases s rule: hex4.cases) (auto split: option.splits)

lemma unescape_u_length: "unescape_u s = Some (u, r) \<Longrightarrow> length r < length s"
  by (auto simp: unescape_u_def split: option.splits prod.splits if_splits
      dest!: hex4_length)

definition simple_escape :: "int \<Rightarrow> int option" where
  "simple_escape =
     map_of [(34, 34), (92, 92), (47, 47), (98, 8), (102, 12), (110, 10), (114, 13), (116, 9)]"

text \<open>
  The body of a string literal, after its opening quote, in strict mode: an unescaped control
  character, an unknown escape and a missing closing quote are errors.
\<close>

function scan_string :: "pystr \<Rightarrow> pystr \<Rightarrow> (pystr \<times> pystr) option" where
  "scan_string acc [] = None"
| "scan_string acc (c # cs) =
     (if c = 34 then Some (rev acc, cs)
      else if c = 92 then
        (case cs of
           [] \<Rightarrow> None
         | e # r \<Rightarrow>
             if e = 117 then
               (case unescape_u r of None \<Rightarrow> None | Some (u, r') \<Rightarrow> scan_string (u # acc) r')
             else
               (case simple_escape e of None \<Rightarrow> None | Some x \<Rightarrow> scan_string (x # acc) r))
      else if c < 32 then None
      else scan_string (c # acc) cs)"
  by pat_completeness auto
termination
  by (relation "measure (length \<circ> snd)") (auto dest: unescape_u_length)

declare scan_string.simps [simp del]

lemma scan_string_length: "scan_string acc s = Some (t, r) \<Longrightarrow> length r < length s"
proof (induction acc s rule: scan_string.induct)
  case (1 acc)
  then show ?case by (simp add: scan_string.simps)
next
  case (2 acc c cs)
  show ?case
  proof (cases "c = 92")
    case True
    with "2.prems" obtain e rest where cs: "cs = e # rest"
      by (subst (asm) scan_string.simps) (auto split: list.splits)
    show ?thesis
    proof (cases "e = 117")
      case e: True
      with "2.prems" True cs obtain u r' where u: "unescape_u rest = Some (u, r')"
        by (subst (asm) scan_string.simps) (auto split: option.splits)
      with "2.prems" True cs e have "scan_string (u # acc) r' = Some (t, r)"
        by (subst (asm) scan_string.simps) auto
      with "2.IH"(1) True cs e u have "length r < length r'" by simp
      with unescape_u_length [OF u] cs show ?thesis by simp
    next
      case e: False
      with "2.prems" True cs obtain x where x: "simple_escape e = Some x"
        by (subst (asm) scan_string.simps) (auto split: option.splits)
      with "2.prems" True cs e have "scan_string (x # acc) rest = Some (t, r)"
        by (subst (asm) scan_string.simps) auto
      moreover from True have "c \<noteq> 34" by simp
      ultimately have "length r < length rest"
        using "2.IH"(2) [OF _ True cs e x] by blast
      with cs show ?thesis by simp
    qed
  next
    case False
    with "2.prems" "2.IH"(3) show ?thesis
      by (subst (asm) scan_string.simps) (auto split: if_splits)
  qed
qed

text \<open>Decimal digits as a number, and \<open>sys.int_info.default_max_str_digits\<close>.\<close>

definition digits_value :: "pystr \<Rightarrow> int" where
  "digits_value ds = foldl (\<lambda>n d. n * 10 + (d - 48)) 0 ds"

definition max_str_digits :: int where
  "max_str_digits = 4300"

text \<open>
  The number pattern \<open>(-?(?:0|[1-9][0-9]*))(\.[0-9]+)?([eE][-+]?[0-9]+)?\<close>: integer part,
  then fraction and exponent where they are complete.
\<close>

definition scan_sign :: "pystr \<Rightarrow> pystr \<times> pystr" where
  "scan_sign s = (if take 1 s = [45] then ([45], drop 1 s) else ([], s))"

definition scan_int_part :: "pystr \<Rightarrow> (pystr \<times> pystr) option" where
  "scan_int_part s =
     (if take 1 s = [48] then Some ([48], drop 1 s)
      else if takeWhile is_digit s = [] then None
      else Some (takeWhile is_digit s, dropWhile is_digit s))"

definition scan_frac :: "pystr \<Rightarrow> pystr \<times> pystr" where
  "scan_frac s =
     (if take 1 s = [46] \<and> takeWhile is_digit (drop 1 s) \<noteq> []
      then (46 # takeWhile is_digit (drop 1 s), dropWhile is_digit (drop 1 s)) else ([], s))"

definition scan_exp :: "pystr \<Rightarrow> pystr \<times> pystr" where
  "scan_exp s =
     (if take 1 s = [101] \<or> take 1 s = [69] then
        (let sg = (if take 1 (drop 1 s) = [43] \<or> take 1 (drop 1 s) = [45]
                   then take 1 (drop 1 s) else []);
             r = drop (length sg) (drop 1 s)
         in if takeWhile is_digit r = [] then ([], s)
            else (take 1 s @ sg @ takeWhile is_digit r, dropWhile is_digit r))
      else ([], s))"

definition scan_number :: "json_cfg \<Rightarrow> pystr \<Rightarrow> json_error + (json \<times> pystr)" where
  "scan_number cfg s =
     (let (sg, s1) = scan_sign s in
      case scan_int_part s1 of
        None \<Rightarrow> Inl JSONDecodeError
      | Some (ds, s2) \<Rightarrow>
          (let (fr, s3) = scan_frac s2; (ex, s4) = scan_exp s3 in
           if fr \<noteq> [] \<or> ex \<noteq> [] then Inr (JFloat (jc_float cfg (sg @ ds @ fr @ ex)), s4)
           else if max_str_digits < len ds then Inl JSONValueError
           else Inr (JInt (if sg = [] then digits_value ds else - digits_value ds),
                     s4)))"

lemma length_takeWhile_dropWhile:
  "length (dropWhile P s) + length (takeWhile P s) = length s"
  by (metis add.commute length_append takeWhile_dropWhile_id)

lemma scan_frac_length: "length (snd (scan_frac s)) \<le> length s"
  using length_takeWhile_dropWhile [of is_digit "drop 1 s"]
  by (auto simp: scan_frac_def)

lemma scan_exp_length: "length (snd (scan_exp s)) \<le> length s"
  by (auto simp: scan_exp_def Let_def
      intro: order_trans [OF length_dropWhile_le])

lemma scan_int_part_length: "scan_int_part s = Some (ds, r) \<Longrightarrow> length r < length s"
  using length_takeWhile_dropWhile [of is_digit s]
  by (cases s) (auto simp: scan_int_part_def split: if_splits)

lemma scan_number_length: "scan_number cfg s = Inr (v, r) \<Longrightarrow> length r < length s"
proof -
  assume h: "scan_number cfg s = Inr (v, r)"
  obtain sg s1 where sg: "scan_sign s = (sg, s1)" by (metis surj_pair)
  then have "length s1 \<le> length s" by (auto simp: scan_sign_def split: if_splits)
  moreover obtain ds s2 where ds: "scan_int_part s1 = Some (ds, s2)"
    using h sg by (auto simp: scan_number_def split: option.splits)
  ultimately have "length s2 < length s"
    using scan_int_part_length by fastforce
  moreover have "r = snd (scan_exp (snd (scan_frac s2)))"
    using h sg ds by (auto simp: scan_number_def Let_def split: prod.splits if_splits)
  ultimately show ?thesis
    using scan_exp_length [of "snd (scan_frac s2)"] scan_frac_length [of s2] by simp
qed

section \<open>Values: \<open>json.loads\<close>\<close>

definition is_prefix :: "pystr \<Rightarrow> pystr \<Rightarrow> bool" where
  "is_prefix p s = (take (length p) s = p)"

text \<open>
  The atoms: \<open>null\<close>, \<open>true\<close>, \<open>false\<close>, the non-standard constants, strings and numbers.
  \<open>parse_constant\<close> of the protocol module raises on the constants.
\<close>

definition scan_constant :: "json_cfg \<Rightarrow> string \<Rightarrow> pystr \<Rightarrow> json_error + (json \<times> pystr)" where
  "scan_constant cfg name s =
     (if jc_reject_constants cfg then Inl JSONValueError
      else Inr (JFloat (lit name), drop (length name) s))"

definition scan_atom :: "json_cfg \<Rightarrow> pystr \<Rightarrow> json_error + (json \<times> pystr)" where
  "scan_atom cfg s =
     (if take 1 s = [34] then
        (case scan_string [] (drop 1 s) of
           None \<Rightarrow> Inl JSONDecodeError
         | Some (t, r) \<Rightarrow> Inr (JStr t, r))
      else if is_prefix (lit ''null'') s then Inr (JNull, drop 4 s)
      else if is_prefix (lit ''true'') s then Inr (JBool True, drop 4 s)
      else if is_prefix (lit ''false'') s then Inr (JBool False, drop 5 s)
      else if is_prefix (lit ''NaN'') s then scan_constant cfg ''NaN'' s
      else if is_prefix (lit ''Infinity'') s then scan_constant cfg ''Infinity'' s
      else if is_prefix (lit ''-Infinity'') s then scan_constant cfg ''-Infinity'' s
      else scan_number cfg s)"

text \<open>
  Containers. \<open>scan_elems\<close> starts at the first element of a non-empty array,
  \<open>scan_members\<close> at the first key of a non-empty object; the pairs of an object are collected
  in order and turned into a dictionary by the hook. Every call consumes a character, so
  fuel beyond the length of the text is never used up (\<open>scan_value_fuel\<close>).
\<close>

definition pairs_hook ::
  "json_cfg \<Rightarrow> (pystr \<times> json) list \<Rightarrow> json_error + json" where
  "pairs_hook cfg kvs =
     (if jc_reject_duplicates cfg \<and> \<not> distinct (map fst kvs) then Inl JSONValueError
      else Inr (JObj (foldl (\<lambda>d (k, v). dict_set k v d) [] kvs)))"

datatype fuel_error = Fuel | Err json_error

fun scan_value :: "json_cfg \<Rightarrow> nat \<Rightarrow> pystr \<Rightarrow> fuel_error + (json \<times> pystr)"
and scan_elems :: "json_cfg \<Rightarrow> nat \<Rightarrow> pystr \<Rightarrow> fuel_error + (json list \<times> pystr)"
and scan_members :: "json_cfg \<Rightarrow> nat \<Rightarrow> pystr \<Rightarrow> fuel_error + ((pystr \<times> json) list \<times> pystr)"
where
  "scan_value cfg 0 s = Inl Fuel"
| "scan_value cfg (Suc n) s =
     (if take 1 s = [91] then
        (let r = skip_ws (drop 1 s) in
         if take 1 r = [93] then Inr (JArr [], drop 1 r)
         else case scan_elems cfg n r of
                Inl e \<Rightarrow> Inl e
              | Inr (vs, r') \<Rightarrow> Inr (JArr vs, r'))
      else if take 1 s = [123] then
        (let r = skip_ws (drop 1 s) in
         if take 1 r = [125] then Inr (JObj [], drop 1 r)
         else case scan_members cfg n r of
                Inl e \<Rightarrow> Inl e
              | Inr (kvs, r') \<Rightarrow>
                  (case pairs_hook cfg kvs of Inl e \<Rightarrow> Inl (Err e) | Inr v \<Rightarrow> Inr (v, r')))
      else (case scan_atom cfg s of Inl e \<Rightarrow> Inl (Err e) | Inr p \<Rightarrow> Inr p))"
| "scan_elems cfg 0 s = Inl Fuel"
| "scan_elems cfg (Suc n) s =
     (case scan_value cfg n s of
        Inl e \<Rightarrow> Inl e
      | Inr (v, r) \<Rightarrow>
          (let r1 = skip_ws r in
           if take 1 r1 = [93] then Inr ([v], drop 1 r1)
           else if take 1 r1 = [44] then
             (case scan_elems cfg n (skip_ws (drop 1 r1)) of
                Inl e \<Rightarrow> Inl e
              | Inr (vs, r2) \<Rightarrow> Inr (v # vs, r2))
           else Inl (Err JSONDecodeError)))"
| "scan_members cfg 0 s = Inl Fuel"
| "scan_members cfg (Suc n) s =
     (if take 1 s \<noteq> [34] then Inl (Err JSONDecodeError)
      else case scan_string [] (drop 1 s) of
        None \<Rightarrow> Inl (Err JSONDecodeError)
      | Some (k, r) \<Rightarrow>
          (let r1 = skip_ws r in
           if take 1 r1 \<noteq> [58] then Inl (Err JSONDecodeError)
           else case scan_value cfg n (skip_ws (drop 1 r1)) of
                  Inl e \<Rightarrow> Inl e
                | Inr (v, r2) \<Rightarrow>
                    (let r3 = skip_ws r2 in
                     if take 1 r3 = [125] then Inr ([(k, v)], drop 1 r3)
                     else if take 1 r3 = [44] then
                       (case scan_members cfg n (skip_ws (drop 1 r3)) of
                          Inl e \<Rightarrow> Inl e
                        | Inr (kvs, r4) \<Rightarrow> Inr ((k, v) # kvs, r4))
                     else Inl (Err JSONDecodeError))))"

text \<open>Every successful scan consumes input, so the fuel of a scan is never used up.\<close>

lemma scan_constant_length:
  "name \<noteq> [] \<Longrightarrow> is_prefix (lit name) s \<Longrightarrow> scan_constant cfg name s = Inr (v, r) \<Longrightarrow> length r < length s"
  by (cases s; cases name) (auto simp: scan_constant_def is_prefix_def split: if_splits)

lemma is_prefix_nonempty: "p \<noteq> [] \<Longrightarrow> is_prefix p s \<Longrightarrow> 0 < length s"
  by (cases s) (auto simp: is_prefix_def)

lemma scan_atom_length:
  assumes "scan_atom cfg s = Inr (v, r)"
  shows "length r < length s"
proof (cases "take 1 s = [34]")
  case True
  then have "length (drop 1 s) < length s" by (cases s) auto
  with True assms show ?thesis
    by (auto simp: scan_atom_def split: option.splits dest!: scan_string_length)
next
  case False
  note pre = is_prefix_nonempty [of "lit _" s]
  from False assms show ?thesis
    using pre [of "''null''"] pre [of "''true''"] pre [of "''false''"]
    by (auto simp: scan_atom_def intro: scan_constant_length dest: scan_number_length
        split: if_splits)
qed

lemma take1_D: "take 1 s = [c] \<Longrightarrow> Suc (length (drop 1 s)) = length s"
  by (cases s) auto

lemma length_skip_ws_drop1: "take 1 s = [c] \<Longrightarrow> length (skip_ws (drop 1 s)) < length s"
  using length_skip_ws [of "drop 1 s"] take1_D [of s c] by linarith

lemma length_drop1_skip_ws: "length (drop 1 (skip_ws s)) \<le> length s"
  using length_skip_ws [of s] by (metis diff_le_self le_trans length_drop)

lemma length_skip_drop_skip: "length (skip_ws (drop 1 (skip_ws s))) \<le> length s"
  using length_skip_ws [of "drop 1 (skip_ws s)"] length_drop1_skip_ws [of s] by linarith

lemmas scan_lengths = length_skip_ws length_drop1_skip_ws length_skip_drop_skip

lemma le_less_via: "a < b \<Longrightarrow> b \<le> c \<Longrightarrow> a < (c::nat)" "a \<le> b \<Longrightarrow> b < c \<Longrightarrow> a < (c::nat)"
  by auto

lemma scan_shrinks:
  "scan_value cfg n s = Inr (v, r) \<Longrightarrow> length r < length s"
  "scan_elems cfg n s = Inr (vs, r) \<Longrightarrow> length r < length s"
  "scan_members cfg n s = Inr (kvs, r) \<Longrightarrow> length r < length s"
proof (induction cfg n s and cfg n s and cfg n s arbitrary: v r and vs r and kvs r
    rule: scan_value_scan_elems_scan_members.induct)
  case (2 cfg n s)
  let ?r = "skip_ws (drop 1 s)"
  consider (arr) "take 1 s = [91]" | (obj) "take 1 s = [123]"
    | (atom) "take 1 s \<noteq> [91]" "take 1 s \<noteq> [123]" by blast
  then show ?case
  proof cases
    case arr
    with "2.prems" consider "r = drop 1 ?r" | ws where "scan_elems cfg n ?r = Inr (ws, r)"
      "take 1 ?r \<noteq> [93]"
      by (auto simp: Let_def split: if_splits sum.splits)
    then show ?thesis
    proof cases
      case 1
      then have "length r \<le> length ?r" by simp
      then show ?thesis using length_skip_ws_drop1 [OF arr] by linarith
    next
      case 2
      with "2.IH"(1) [OF arr refl] length_skip_ws_drop1 [OF arr] show ?thesis by fastforce
    qed
  next
    case obj
    then have "take 1 s \<noteq> [91]" by simp
    with obj "2.prems" consider "r = drop 1 ?r" | ws where "scan_members cfg n ?r = Inr (ws, r)"
      "take 1 ?r \<noteq> [125]"
      by (auto simp: Let_def split: if_splits sum.splits)
    then show ?thesis
    proof cases
      case 1
      then have "length r \<le> length ?r" by simp
      then show ?thesis using length_skip_ws_drop1 [OF obj] by linarith
    next
      case 2
      with "2.IH"(2) [OF \<open>take 1 s \<noteq> [91]\<close> obj refl] length_skip_ws_drop1 [OF obj]
      show ?thesis by fastforce
    qed
  next
    case atom
    with "2.prems" have "scan_atom cfg s = Inr (v, r)" by (simp split: sum.splits)
    then show ?thesis by (rule scan_atom_length)
  qed
next
  case (4 cfg n s)
  then obtain w r0 where v: "scan_value cfg n s = Inr (w, r0)"
    by (auto split: sum.splits)
  have r0: "length r0 < length s" by (rule "4.IH"(1) [OF v])
  let ?r1 = "skip_ws r0"
  from "4.prems" v consider "r = drop 1 ?r1"
    | us where "take 1 ?r1 \<noteq> [93]" "take 1 ?r1 = [44]"
        "scan_elems cfg n (skip_ws (drop 1 ?r1)) = Inr (us, r)"
    by (auto simp: Let_def split: if_splits sum.splits)
  then show ?case
  proof cases
    case 1
    show ?thesis unfolding 1 using r0 length_drop1_skip_ws [of r0] by linarith
  next
    case 2
    have "length r < length (skip_ws (drop 1 ?r1))"
      by (rule "4.IH"(2) [OF v refl refl 2])
    then show ?thesis using r0 length_skip_drop_skip [of r0] by linarith
  qed
next
  case (6 cfg n s)
  from "6.prems" have q: "take 1 s = [34]" by (auto split: if_splits)
  with "6.prems" obtain k r0 where k: "scan_string [] (drop 1 s) = Some (k, r0)"
    by (auto split: option.splits)
  let ?r1 = "skip_ws r0"
  from "6.prems" q k have c: "take 1 ?r1 = [58]" by (auto simp: Let_def split: if_splits)
  with "6.prems" q k obtain w r2 where
    v: "scan_value cfg n (skip_ws (drop 1 ?r1)) = Inr (w, r2)"
    by (auto simp: Let_def split: sum.splits)
  have r2: "length r2 < length s"
  proof -
    have "length r2 < length (skip_ws (drop 1 ?r1))"
      by (rule "6.IH"(1) [OF _ k refl refl _ v]) (use q c in simp_all)
    then show ?thesis
      using scan_string_length [OF k] length_skip_drop_skip [of r0] take1_D [OF q] by linarith
  qed
  let ?r3 = "skip_ws r2"
  from "6.prems" q k c v consider "r = drop 1 ?r3"
    | us where "take 1 ?r3 \<noteq> [125]" "take 1 ?r3 = [44]"
        "scan_members cfg n (skip_ws (drop 1 ?r3)) = Inr (us, r)"
    by (auto simp: Let_def split: if_splits sum.splits)
  then show ?case
  proof cases
    case 1
    show ?thesis unfolding 1 using r2 length_drop1_skip_ws [of r2] by linarith
  next
    case 2
    have "length r < length (skip_ws (drop 1 ?r3))"
      by (rule "6.IH"(2) [OF _ k refl refl _ v refl refl 2]) (use q c in simp_all)
    then show ?thesis using r2 length_skip_drop_skip [of r2] by linarith
  qed
qed auto

lemma scan_fuel_enough:
  "2 * length s < n \<Longrightarrow> scan_value cfg n s \<noteq> Inl Fuel"
  "2 * length s + 1 < n \<Longrightarrow> scan_elems cfg n s \<noteq> Inl Fuel"
  "2 * length s < n \<Longrightarrow> scan_members cfg n s \<noteq> Inl Fuel"
proof (induction cfg n s and cfg n s and cfg n s
    rule: scan_value_scan_elems_scan_members.induct)
  case (2 cfg n s)
  let ?r = "skip_ws (drop 1 s)"
  consider (arr) "take 1 s = [91]" | (obj) "take 1 s = [123]"
    | (atom) "take 1 s \<noteq> [91]" "take 1 s \<noteq> [123]" by blast
  then show ?case
  proof cases
    case arr
    then have "2 * length ?r + 1 < n"
      using length_skip_ws_drop1 [OF arr] "2.prems" by linarith
    with arr "2.IH"(1) [OF arr refl] show ?thesis
      by (auto simp: Let_def split: sum.splits)
  next
    case obj
    then have "2 * length ?r < n"
      using length_skip_ws_drop1 [OF obj] "2.prems" by linarith
    with obj "2.IH"(2) [OF _ obj refl] show ?thesis
      by (auto simp: Let_def split: sum.splits)
  next
    case atom
    then show ?thesis by (auto split: sum.splits)
  qed
next
  case (4 cfg n s)
  then have v: "scan_value cfg n s \<noteq> Inl Fuel" by simp
  show ?case
  proof (cases "scan_value cfg n s")
    case (Inl e)
    with v show ?thesis by simp
  next
    case (Inr p)
    then obtain w r0 where p: "scan_value cfg n s = Inr (w, r0)" by (cases p) auto
    let ?r1 = "skip_ws r0"
    have "2 * length (skip_ws (drop 1 ?r1)) + 1 < n"
      using scan_shrinks(1) [OF p] length_skip_drop_skip [of r0] "4.prems" by linarith
    with "4.IH"(2) [OF p refl refl] p show ?thesis
      by (auto simp: Let_def split: sum.splits)
  qed
next
  case (6 cfg n s)
  show ?case
  proof (cases "take 1 s = [34] \<and> scan_string [] (drop 1 s) \<noteq> None")
    case False
    then show ?thesis
      by (cases "scan_string [] (drop 1 s)"; cases "take 1 s = [34]") auto
  next
    case True
    then obtain k r0 where q: "take 1 s = [34]" and k: "scan_string [] (drop 1 s) = Some (k, r0)"
      by auto
    let ?s1 = "skip_ws (drop 1 (skip_ws r0))"
    have s1: "2 * length ?s1 < n"
      using scan_string_length [OF k] take1_D [OF q] length_skip_drop_skip [of r0] "6.prems"
      by linarith
    show ?thesis
    proof (cases "scan_value cfg n ?s1")
      case (Inl e)
      with "6.IH"(1) [OF _ k refl refl] s1 q k show ?thesis
        by (auto simp: Let_def)
    next
      case (Inr p)
      then obtain w r2 where p: "scan_value cfg n ?s1 = Inr (w, r2)" by (cases p) auto
      have "2 * length (skip_ws (drop 1 (skip_ws r2))) < n"
        using scan_shrinks(1) [OF p] length_skip_drop_skip [of r2] s1 by linarith
      with "6.IH"(2) [OF _ k refl refl _ p refl refl] p q k show ?thesis
        by (auto simp: Let_def split: sum.splits)
    qed
  qed
qed auto

text \<open>
  \<open>json.loads(s)\<close>: no byte-order mark, surrounding white space, nothing after the value.
\<close>

definition json_loads :: "json_cfg \<Rightarrow> pystr \<Rightarrow> json_error + json" where
  "json_loads cfg s =
     (if take 1 s = [65279] then Inl JSONDecodeError
      else case scan_value cfg (Suc (2 * length s)) (skip_ws s) of
        Inl (Err e) \<Rightarrow> Inl e
      | Inl Fuel \<Rightarrow> Inl JSONDecodeError
      | Inr (v, r) \<Rightarrow> if skip_ws r = [] then Inr v else Inl JSONDecodeError)"

lemma json_loads_no_fuel:
  "scan_value cfg (Suc (2 * length s)) (skip_ws s) \<noteq> Inl Fuel"
  by (intro scan_fuel_enough(1) le_imp_less_Suc mult_le_mono2 length_skip_ws)

section \<open>Printing: \<open>json.dumps\<close>\<close>

function nat_digits :: "int \<Rightarrow> pystr" where
  "nat_digits n = (if n < 10 then [48 + n] else nat_digits (n div 10) @ [48 + n mod 10])"
  by pat_completeness auto
termination
  by (relation "measure nat") auto

declare nat_digits.simps [simp del]

definition int_text :: "int \<Rightarrow> pystr" where
  "int_text i = (if i < 0 then 45 # nat_digits (- i) else nat_digits i)"

definition hex_digit :: "int \<Rightarrow> int" where
  "hex_digit n = (if n < 10 then 48 + n else 87 + n)"

text \<open>The escapes of \<open>ensure_ascii=False\<close>: quote, backslash and control characters.\<close>

definition escape_char :: "int \<Rightarrow> pystr" where
  "escape_char c =
     (if c = 34 then [92, 34]
      else if c = 92 then [92, 92]
      else if c = 10 then [92, 110]
      else if c = 13 then [92, 114]
      else if c = 9 then [92, 116]
      else if c = 12 then [92, 102]
      else if c = 8 then [92, 98]
      else if c < 32 then [92, 117, 48, 48, hex_digit (c div 16), hex_digit (c mod 16)]
      else [c])"

definition quote_str :: "pystr \<Rightarrow> pystr" where
  "quote_str s = 34 # concat (map escape_char s) @ [34]"

text \<open>\<open>separators\<close> and \<open>sort_keys\<close>.\<close>

record dump_cfg =
  dc_item_sep :: pystr
  dc_key_sep :: pystr
  dc_sort_keys :: bool

definition compact_sorted :: dump_cfg where
  "compact_sorted =
     \<lparr>dc_item_sep = lit '','', dc_key_sep = lit '':'', dc_sort_keys = True\<rparr>"

definition compact_plain :: dump_cfg where
  "compact_plain =
     \<lparr>dc_item_sep = lit '','', dc_key_sep = lit '':'', dc_sort_keys = False\<rparr>"

definition default_dump :: dump_cfg where
  "default_dump =
     \<lparr>dc_item_sep = lit '', '', dc_key_sep = lit '': '', dc_sort_keys = False\<rparr>"

definition sort_pairs :: "(pystr \<times> 'a) list \<Rightarrow> (pystr \<times> 'a) list" where
  "sort_pairs kvs = sort_key fst kvs"

fun json_dumps :: "dump_cfg \<Rightarrow> json \<Rightarrow> pystr" where
  "json_dumps dc JNull = lit ''null''"
| "json_dumps dc (JBool b) = (if b then lit ''true'' else lit ''false'')"
| "json_dumps dc (JInt i) = int_text i"
| "json_dumps dc (JFloat t) = t"
| "json_dumps dc (JStr s) = quote_str s"
| "json_dumps dc (JArr vs) =
     lit ''['' @ py_join (dc_item_sep dc) (map (json_dumps dc) vs) @ lit '']''"
| "json_dumps dc (JObj kvs) =
     (let texts = map (\<lambda>(k, v). (k, json_dumps dc v)) kvs;
          ordered = (if dc_sort_keys dc then sort_pairs texts else texts)
      in lit ''{'' @
         py_join (dc_item_sep dc) (map (\<lambda>(k, t). quote_str k @ dc_key_sep dc @ t) ordered) @
         lit ''}'')"

section \<open>Key order\<close>

text \<open>
  Two values that differ only in the order of the keys of their objects, at any depth. A
  dictionary never holds a key twice.
\<close>

inductive json_perm :: "json \<Rightarrow> json \<Rightarrow> bool" where
  json_perm_refl: "json_perm v v"
| json_perm_arr: "list_all2 json_perm vs ws \<Longrightarrow> json_perm (JArr vs) (JArr ws)"
| json_perm_obj:
    "list_all2 (rel_prod (=) json_perm) kvs mid \<Longrightarrow> distinct (map fst mid) \<Longrightarrow>
     mset mid = mset kvs' \<Longrightarrow> json_perm (JObj kvs) (JObj kvs')"
monos list_all2_mono prod.rel_mono

lemma filter_key_singleton:
  assumes "distinct (map fst kvs)" "kv \<in> set kvs"
  shows "filter (\<lambda>x. fst kv = fst x) kvs = [kv]"
  using assms
proof (induction kvs)
  case (Cons x kvs)
  show ?case
  proof (cases "x = kv")
    case True
    with Cons.prems(1) have "\<forall>y\<in>set kvs. fst kv \<noteq> fst y" by auto
    with True show ?thesis by (simp add: filter_empty_conv)
  next
    case False
    with Cons.prems have "kv \<in> set kvs" by simp
    moreover from this Cons.prems(1) have "fst kv \<noteq> fst x" by (auto simp: image_iff)
    ultimately show ?thesis using Cons.IH Cons.prems(1) by simp
  qed
qed simp

lemma sort_pairs_perm:
  assumes "mset kvs = mset kvs'" "distinct (map fst kvs)"
  shows "sort_pairs kvs = sort_pairs kvs'"
  unfolding sort_pairs_def
proof (rule properties_for_sort_key)
  show "mset (sort_key fst kvs') = mset kvs" using assms(1) by simp
  show "sorted (map fst (sort_key fst kvs'))" by simp
next
  fix kv
  assume kv: "kv \<in> set (sort_key fst kvs')"
  have d: "distinct (map fst (sort_key fst kvs'))"
    using assms by (metis mset_eq_imp_distinct_iff mset_map mset_sort)
  have "kv \<in> set kvs" using kv assms(1) by (metis mset_eq_setD set_sort)
  then show "filter (\<lambda>x. fst kv = fst x) (sort_key fst kvs') = filter (\<lambda>x. fst kv = fst x) kvs"
    by (simp only: filter_key_singleton [OF d kv] filter_key_singleton [OF assms(2)])
qed

lemma json_dumps_perm:
  assumes "json_perm v w" "dc_sort_keys dc"
  shows "json_dumps dc v = json_dumps dc w"
  using assms(1)
proof (induction rule: json_perm.induct)
  case (json_perm_arr vs ws)
  then have "map (json_dumps dc) vs = map (json_dumps dc) ws"
    by (induction rule: list_all2_induct) auto
  then show ?case by simp
next
  case (json_perm_obj kvs mid kvs')
  let ?texts = "map (\<lambda>(k, v). (k, json_dumps dc v))"
  from json_perm_obj(1) have eq: "?texts kvs = ?texts mid"
    by (induction rule: list_all2_induct) auto
  have "mset (?texts mid) = mset (?texts kvs')"
    using json_perm_obj(3) by (simp only: mset_map)
  moreover have "distinct (map fst (?texts mid))"
    using json_perm_obj(2) by (simp add: comp_def case_prod_unfold)
  ultimately have "sort_pairs (?texts mid) = sort_pairs (?texts kvs')"
    by (rule sort_pairs_perm)
  with eq assms(2) show ?case by (simp add: Let_def)
qed simp

end
