(* ===== verification/Agent_Errors.thy ===== *)
theory Agent_Errors
  imports Py_Json
begin

text \<open>
  The exception hierarchy of \<open>errors/exceptions.py\<close>, with the built-in exceptions the
  program distinguishes. \<open>except AgentError\<close> is \<open>is_agent_error\<close>; \<open>except Exception\<close> is
  \<open>is_exception\<close>, which \<open>asyncio.CancelledError\<close> is not.
\<close>

datatype exc_class =
    AgentError
  | LLMError
  | ToolError
  | ConfigError
  | MemoryError
  | SessionBusyError
  | ToolRoutingError
  | EmbeddingWorkerError
  | EmbeddingWorkerProtocolError
  | EmbeddingWorkerTimeoutError
  | PlannerError
  | ReflectionError
  | PyValueError
  | PyTypeError
  | PyKeyError
  | PyAttributeError
  | PyIndexError
  | PyTimeoutError
  | PyCancelledError
  | PyException pystr

text \<open>The direct base class, inside the framework's own hierarchy.\<close>

fun base_class :: "exc_class \<Rightarrow> exc_class option" where
  "base_class LLMError = Some AgentError"
| "base_class ToolError = Some AgentError"
| "base_class ConfigError = Some AgentError"
| "base_class MemoryError = Some AgentError"
| "base_class SessionBusyError = Some AgentError"
| "base_class ToolRoutingError = Some AgentError"
| "base_class EmbeddingWorkerError = Some AgentError"
| "base_class EmbeddingWorkerProtocolError = Some EmbeddingWorkerError"
| "base_class EmbeddingWorkerTimeoutError = Some EmbeddingWorkerError"
| "base_class PlannerError = Some AgentError"
| "base_class ReflectionError = Some AgentError"
| "base_class _ = None"

inductive derives_from :: "exc_class \<Rightarrow> exc_class \<Rightarrow> bool" where
  derives_refl: "derives_from c c"
| derives_step: "base_class c = Some b \<Longrightarrow> derives_from b d \<Longrightarrow> derives_from c d"

definition is_agent_error :: "exc_class \<Rightarrow> bool" where
  "is_agent_error c =
     (c = AgentError \<or> base_class c = Some AgentError \<or>
      base_class c = Some EmbeddingWorkerError)"

definition is_exception :: "exc_class \<Rightarrow> bool" where
  "is_exception c = (c \<noteq> PyCancelledError)"

inductive_cases derives_fromE: "derives_from c d"

lemma is_agent_error_derives: "is_agent_error c \<longleftrightarrow> derives_from c AgentError"
proof
  assume "is_agent_error c"
  then show "derives_from c AgentError"
    by (auto simp: is_agent_error_def
        intro: derives_refl derives_step [OF _ derives_refl]
          derives_step [OF _ derives_step [OF _ derives_refl]])
next
  assume "derives_from c AgentError"
  then show "is_agent_error c"
  proof (induction c "AgentError" rule: derives_from.induct)
    case derives_refl
    then show ?case by (simp add: is_agent_error_def)
  next
    case (derives_step c b)
    then show ?case by (cases c) (auto simp: is_agent_error_def)
  qed
qed

lemma is_agent_error_simps [simp]:
  "is_agent_error AgentError" "is_agent_error LLMError" "is_agent_error ToolError"
  "is_agent_error ConfigError" "is_agent_error MemoryError" "is_agent_error SessionBusyError"
  "is_agent_error ToolRoutingError" "is_agent_error EmbeddingWorkerError"
  "is_agent_error EmbeddingWorkerProtocolError" "is_agent_error EmbeddingWorkerTimeoutError"
  "is_agent_error PlannerError" "is_agent_error ReflectionError"
  "\<not> is_agent_error PyValueError" "\<not> is_agent_error PyTypeError" "\<not> is_agent_error PyKeyError"
  "\<not> is_agent_error PyAttributeError" "\<not> is_agent_error PyIndexError" "\<not> is_agent_error PyTimeoutError"
  "\<not> is_agent_error PyCancelledError" "\<not> is_agent_error (PyException n)"
  by (simp_all add: is_agent_error_def)

text \<open>\<open>type(e).__name__\<close>.\<close>

fun class_name :: "exc_class \<Rightarrow> pystr" where
  "class_name AgentError = lit ''AgentError''"
| "class_name LLMError = lit ''LLMError''"
| "class_name ToolError = lit ''ToolError''"
| "class_name ConfigError = lit ''ConfigError''"
| "class_name MemoryError = lit ''MemoryError''"
| "class_name SessionBusyError = lit ''SessionBusyError''"
| "class_name ToolRoutingError = lit ''ToolRoutingError''"
| "class_name EmbeddingWorkerError = lit ''EmbeddingWorkerError''"
| "class_name EmbeddingWorkerProtocolError = lit ''EmbeddingWorkerProtocolError''"
| "class_name EmbeddingWorkerTimeoutError = lit ''EmbeddingWorkerTimeoutError''"
| "class_name PlannerError = lit ''PlannerError''"
| "class_name ReflectionError = lit ''ReflectionError''"
| "class_name PyValueError = lit ''ValueError''"
| "class_name PyTypeError = lit ''TypeError''"
| "class_name PyKeyError = lit ''KeyError''"
| "class_name PyAttributeError = lit ''AttributeError''"
| "class_name PyIndexError = lit ''IndexError''"
| "class_name PyTimeoutError = lit ''TimeoutError''"
| "class_name PyCancelledError = lit ''CancelledError''"
| "class_name (PyException n) = n"

section \<open>Exception values\<close>

text \<open>
  An exception carries its class, its message, the context dictionary of \<open>AgentError\<close> (empty
  for other classes) and the \<open>__cause__\<close> that \<open>raise ... from\<close> sets.
\<close>

datatype exn =
  Exn (exn_class: exc_class) (exn_message: pystr) (exn_context: "(pystr, json) dict")
    (exn_cause: "exn option")

definition exn_of :: "exc_class \<Rightarrow> string \<Rightarrow> exn" where
  "exn_of c m = Exn c (lit m) [] None"

definition exn_ctx :: "exc_class \<Rightarrow> string \<Rightarrow> (pystr, json) dict \<Rightarrow> exn" where
  "exn_ctx c m ctx = Exn c (lit m) ctx None"

definition raise_from :: "exn \<Rightarrow> exn \<Rightarrow> exn" where
  "raise_from e cause = Exn (exn_class e) (exn_message e) (exn_context e) (Some cause)"

lemma exn_class_simps [simp]:
  "exn_class (exn_of c m) = c" "exn_class (exn_ctx c m ctx) = c"
  "exn_class (raise_from e cause) = exn_class e"
  by (simp_all add: exn_of_def exn_ctx_def raise_from_def)

text \<open>
  \<open>AgentError.__str__\<close>; for the other classes \<open>str(e)\<close> is the message. Python's \<open>repr\<close> of
  the context dictionary is the parameter.
\<close>

fun exn_str :: "((pystr, json) dict \<Rightarrow> pystr) \<Rightarrow> exn \<Rightarrow> pystr" where
  "exn_str dict_repr (Exn c m ctx cause) =
     (if is_agent_error c then
        py_join (lit '' | '')
          ([m] @
           (if ctx = [] then [] else [lit ''context='' @ dict_repr ctx]) @
           (case cause of
              None \<Rightarrow> []
            | Some e \<Rightarrow>
                [lit ''cause='' @ class_name (exn_class e) @ lit '': '' @ exn_str dict_repr e]))
      else m)"

text \<open>\<open>AgentError.to_dict\<close>.\<close>

record error_info =
  ei_type :: pystr
  ei_message :: pystr
  ei_context :: "(pystr, json) dict option"
  ei_cause :: "pystr option"

definition exn_to_dict :: "((pystr, json) dict \<Rightarrow> pystr) \<Rightarrow> exn \<Rightarrow> error_info" where
  "exn_to_dict dict_repr e =
     \<lparr>ei_type = class_name (exn_class e),
      ei_message = exn_message e,
      ei_context = Some (exn_context e),
      ei_cause = map_option (exn_str dict_repr) (exn_cause e)\<rparr>"

text \<open>The \<open>JSONDecodeError\<close> of a text, as the cause of an error raised from it.\<close>

definition json_decode_error :: "py_text \<Rightarrow> pystr \<Rightarrow> exn" where
  "json_decode_error fl s = Exn (PyException (lit ''JSONDecodeError'')) (pt_json_str fl s) [] None"

text \<open>The two constructors with fixed messages.\<close>

definition session_busy_error :: "pystr \<Rightarrow> int option \<Rightarrow> exn" where
  "session_busy_error sid retry_after_ms =
     Exn SessionBusyError (lit ''Session '' @ sid @ lit '' already has an active run'')
       ((lit ''session_id'', JStr sid) #
        (case retry_after_ms of
           None \<Rightarrow> []
         | Some ms \<Rightarrow> [(lit ''retry_after_ms'', JInt ms)]))
       None"

definition worker_timeout_error :: "string \<Rightarrow> pystr \<Rightarrow> exn" where
  "worker_timeout_error phase timeout_s =
     Exn EmbeddingWorkerTimeoutError (lit ''embedding worker '' @ lit phase @ lit '' timed out'')
       [(lit ''phase'', JStr (lit phase)), (lit ''timeout_s'', JFloat timeout_s)] None"

lemma session_busy_class [simp]: "exn_class (session_busy_error sid r) = SessionBusyError"
  by (simp add: session_busy_error_def)

section \<open>Awaited calls\<close>

text \<open>What an awaited call to a collaborator gives: a value or an exception.\<close>

datatype 'a outcome = Returned 'a | Raised exn

text \<open>
  A chat completion as the planner and the critic read it: the \<open>content\<close> at
  \<open>response.choices[0].message\<close>, or the exception that path raises on another shape.
\<close>

datatype llm_response = Response json | Malformed exn

definition shape_error :: "exc_class \<Rightarrow> bool" where
  "shape_error c = (c = PyAttributeError \<or> c = PyIndexError \<or> c = PyTypeError \<or> c = PyKeyError)"

end
