(* ===== verification/Session_Coordinator.thy ===== *)
theory Session_Coordinator
  imports Agent_Errors
begin

text \<open>
  \<open>runtime/session_coordinator.py\<close>: runs that share a session take turns. Tasks interleave only
  at suspension points; \<open>_reserve\<close> and \<open>_release_reference\<close> have none inside \<open>_entries_lock\<close>, so
  each is one step here, as are taking and releasing the session's lock. A waiting task may give
  up at any time (its timeout or a cancellation). \<open>asyncio.Lock\<close> serves its waiters in order.
\<close>

section \<open>State\<close>

text \<open>\<open>_SessionEntry\<close> objects live in a heap, since a task keeps its entry while it waits.\<close>

record session_entry =
  se_locked :: bool
  se_waiters :: "nat list"
  se_references :: int

datatype conflict_mode = Reject | Wait

datatype task_phase = Idle | Waiting pystr nat | Holding pystr nat

record coordinator =
  co_mode :: conflict_mode
  co_entries :: "(pystr, nat) dict"
  co_heap :: "nat \<Rightarrow> session_entry"
  co_next :: nat
  co_tasks :: "nat \<Rightarrow> task_phase"

definition fresh_entry :: session_entry where
  "fresh_entry = \<lparr>se_locked = False, se_waiters = [], se_references = 0\<rparr>"

text \<open>\<open>__init__\<close>: the mode is a known one by its type; a timeout must be positive.\<close>

definition coordinator_init :: "conflict_mode \<Rightarrow> py_float option \<Rightarrow> exn + coordinator" where
  "coordinator_init mode acquire_timeout =
     (if (case acquire_timeout of
            None \<Rightarrow> False
          | Some f \<Rightarrow> (case pf_value f of None \<Rightarrow> False | Some v \<Rightarrow> v \<le> 0))
      then Inl (exn_of PyValueError ''acquire_timeout must be greater than 0'')
      else Inr \<lparr>co_mode = mode, co_entries = [], co_heap = (\<lambda>_. fresh_entry), co_next = 0,
                co_tasks = (\<lambda>_. Idle)\<rparr>)"

definition tracked_session_count :: "coordinator \<Rightarrow> int" where
  "tracked_session_count c = len (co_entries c)"

section \<open>Operations\<close>

abbreviation on_entry :: "nat \<Rightarrow> (session_entry \<Rightarrow> session_entry) \<Rightarrow> coordinator \<Rightarrow> coordinator" where
  "on_entry e f c \<equiv> c\<lparr>co_heap := (co_heap c)(e := f (co_heap c e))\<rparr>"

abbreviation set_phase :: "nat \<Rightarrow> task_phase \<Rightarrow> coordinator \<Rightarrow> coordinator" where
  "set_phase t p c \<equiv> c\<lparr>co_tasks := (co_tasks c)(t := p)\<rparr>"

text \<open>The entry of a session, created when there is none.\<close>

definition entry_for :: "pystr \<Rightarrow> coordinator \<Rightarrow> nat \<times> coordinator" where
  "entry_for sid c =
     (case dict_get (co_entries c) sid of
        Some e \<Rightarrow> (e, c)
      | None \<Rightarrow>
          (co_next c,
           c\<lparr>co_entries := dict_set sid (co_next c) (co_entries c),
             co_heap := (co_heap c)(co_next c := fresh_entry), co_next := Suc (co_next c)\<rparr>))"

text \<open>\<open>lease\<close> up to the point where the task waits for the lock of its entry.\<close>

definition reserve :: "nat \<Rightarrow> pystr \<Rightarrow> coordinator \<Rightarrow> exn + coordinator" where
  "reserve t sid c =
     (if sid = [] then Inl (exn_of PyValueError ''session_id must be a non-empty string'')
      else
        (case entry_for sid c of
           (e, c1) \<Rightarrow>
             if co_mode c = Reject \<and> 0 < se_references (co_heap c1 e)
             then Inl (session_busy_error sid None)
             else Inr (set_phase t (Waiting sid e)
                    (on_entry e (\<lambda>s. s\<lparr>se_references := se_references s + 1,
                                      se_waiters := se_waiters s @ [t]\<rparr>) c1))))"

text \<open>\<open>entry.lock.acquire()\<close> of the first waiter when the lock is free.\<close>

definition acquire :: "nat \<Rightarrow> coordinator \<Rightarrow> coordinator option" where
  "acquire t c =
     (case co_tasks c t of
        Waiting sid e \<Rightarrow>
          (case se_waiters (co_heap c e) of
             t' # ws \<Rightarrow>
               if t' = t \<and> \<not> se_locked (co_heap c e)
               then Some (set_phase t (Holding sid e)
                      (on_entry e (\<lambda>s. s\<lparr>se_locked := True, se_waiters := ws\<rparr>) c))
               else None
           | [] \<Rightarrow> None)
      | _ \<Rightarrow> None)"

definition release_reference :: "pystr \<Rightarrow> nat \<Rightarrow> coordinator \<Rightarrow> coordinator" where
  "release_reference sid e c =
     (let c1 = on_entry e (\<lambda>s. s\<lparr>se_references := se_references s - 1\<rparr>) c in
      if se_references (co_heap c1 e) = 0 \<and> \<not> se_locked (co_heap c1 e)
      then c1\<lparr>co_entries := dict_pop sid (co_entries c1)\<rparr> else c1)"

text \<open>The \<open>finally\<close> of a task that never got the lock, and of one that held it.\<close>

definition give_up :: "nat \<Rightarrow> coordinator \<Rightarrow> coordinator option" where
  "give_up t c =
     (case co_tasks c t of
        Waiting sid e \<Rightarrow>
          Some (release_reference sid e (set_phase t Idle
                 (on_entry e (\<lambda>s. s\<lparr>se_waiters := removeAll t (se_waiters s)\<rparr>) c)))
      | _ \<Rightarrow> None)"

definition release :: "nat \<Rightarrow> coordinator \<Rightarrow> coordinator option" where
  "release t c =
     (case co_tasks c t of
        Holding sid e \<Rightarrow>
          Some (release_reference sid e (set_phase t Idle
                 (on_entry e (\<lambda>s. s\<lparr>se_locked := False\<rparr>) c)))
      | _ \<Rightarrow> None)"

text \<open>What a task that gave up raises after a timeout.\<close>

definition timed_out_error :: "pystr \<Rightarrow> int \<Rightarrow> exn" where
  "timed_out_error sid timeout_ms = session_busy_error sid (Some timeout_ms)"

inductive co_step :: "coordinator \<Rightarrow> coordinator \<Rightarrow> bool" where
  reserve: "co_tasks c t = Idle \<Longrightarrow> reserve t sid c = Inr c' \<Longrightarrow> co_step c c'"
| acquire: "acquire t c = Some c' \<Longrightarrow> co_step c c'"
| give_up: "give_up t c = Some c' \<Longrightarrow> co_step c c'"
| release: "release t c = Some c' \<Longrightarrow> co_step c c'"

inductive_cases co_stepE: "co_step c c'"

inductive co_reachable :: "coordinator \<Rightarrow> bool" where
  init: "coordinator_init mode timeout = Inr c \<Longrightarrow> co_reachable c"
| step: "co_reachable c \<Longrightarrow> co_step c c' \<Longrightarrow> co_reachable c'"

section \<open>Invariant\<close>

fun phase_entry :: "task_phase \<Rightarrow> (pystr \<times> nat) option" where
  "phase_entry Idle = None"
| "phase_entry (Waiting sid e) = Some (sid, e)"
| "phase_entry (Holding sid e) = Some (sid, e)"

definition users :: "(nat \<Rightarrow> task_phase) \<Rightarrow> nat \<Rightarrow> nat set" where
  "users ts e = {t. \<exists>sid. phase_entry (ts t) = Some (sid, e)}"

definition holders :: "(nat \<Rightarrow> task_phase) \<Rightarrow> nat \<Rightarrow> nat set" where
  "holders ts e = {t. \<exists>sid. ts t = Holding sid e}"

definition waiters :: "(nat \<Rightarrow> task_phase) \<Rightarrow> nat \<Rightarrow> nat set" where
  "waiters ts e = {t. \<exists>sid. ts t = Waiting sid e}"

definition table_wf :: "coordinator \<Rightarrow> bool" where
  "table_wf c \<longleftrightarrow>
     dict_wf (co_entries c) \<and>
     (\<forall>sid e. dict_get (co_entries c) sid = Some e \<longrightarrow> e < co_next c) \<and>
     (\<forall>t sid e. phase_entry (co_tasks c t) = Some (sid, e) \<longrightarrow>
        dict_get (co_entries c) sid = Some e) \<and>
     (\<forall>sid sid' e. dict_get (co_entries c) sid = Some e \<longrightarrow>
        dict_get (co_entries c) sid' = Some e \<longrightarrow> sid = sid')"

text \<open>Every entry of the table has a user, except perhaps those in \<open>X\<close>.\<close>

definition table_used :: "nat set \<Rightarrow> coordinator \<Rightarrow> bool" where
  "table_used X c \<longleftrightarrow>
     (\<forall>sid e. dict_get (co_entries c) sid = Some e \<longrightarrow> e \<in> X \<or> users (co_tasks c) e \<noteq> {})"

definition entry_ok :: "coordinator \<Rightarrow> nat \<Rightarrow> bool" where
  "entry_ok c e \<longleftrightarrow>
     finite (users (co_tasks c) e) \<and> se_references (co_heap c e) = int (card (users (co_tasks c) e)) \<and>
     (se_locked (co_heap c e) \<longrightarrow> (\<exists>t. holders (co_tasks c) e = {t})) \<and>
     (\<not> se_locked (co_heap c e) \<longrightarrow> holders (co_tasks c) e = {}) \<and>
     distinct (se_waiters (co_heap c e)) \<and> set (se_waiters (co_heap c e)) = waiters (co_tasks c) e"

definition co_inv :: "coordinator \<Rightarrow> bool" where
  "co_inv c \<longleftrightarrow> table_wf c \<and> table_used {} c \<and> (\<forall>e. entry_ok c e)"

lemma users_update [simp]:
  "users (ts(t := p)) e =
     (if \<exists>sid. phase_entry p = Some (sid, e) then insert t (users ts e) else users ts e - {t})"
  by (auto simp: users_def)

lemma holders_update [simp]:
  "holders (ts(t := p)) e =
     (if \<exists>sid. p = Holding sid e then insert t (holders ts e) else holders ts e - {t})"
  by (auto simp: holders_def)

lemma waiters_update [simp]:
  "waiters (ts(t := p)) e =
     (if \<exists>sid. p = Waiting sid e then insert t (waiters ts e) else waiters ts e - {t})"
  by (auto simp: waiters_def)

lemma users_split: "users ts e = waiters ts e \<union> holders ts e"
proof -
  have "phase_entry p = Some (sid, e) \<longleftrightarrow> p = Waiting sid e \<or> p = Holding sid e" for p sid
    by (cases p) auto
  then show ?thesis by (auto simp: users_def waiters_def holders_def)
qed

lemma disjoint_phases: "waiters ts e \<inter> holders ts e = {}"
  by (auto simp: waiters_def holders_def)

lemma co_inv_init: "coordinator_init mode timeout = Inr c \<Longrightarrow> co_inv c"
  by (auto simp: coordinator_init_def co_inv_def table_wf_def table_used_def entry_ok_def users_def
      holders_def waiters_def fresh_entry_def split: if_splits)

lemma table_wf_update [simp]:
  "table_wf (c\<lparr>co_heap := h\<rparr>) = table_wf c"
  "table_used X (c\<lparr>co_heap := h\<rparr>) = table_used X c"
  by (simp_all add: table_wf_def table_used_def)

lemma table_wf_idle: "table_wf c \<Longrightarrow> table_wf (set_phase t Idle c)"
  by (simp add: table_wf_def)

lemma table_wf_phase:
  "table_wf c \<Longrightarrow> phase_entry p = Some (sid, e) \<Longrightarrow> dict_get (co_entries c) sid = Some e \<Longrightarrow>
   table_wf (set_phase t p c)"
  by (simp add: table_wf_def)

lemma table_wf_entry:
  "table_wf c \<Longrightarrow> phase_entry (co_tasks c t) = Some (sid, e) \<Longrightarrow>
   dict_get (co_entries c) sid = Some e"
  by (simp add: table_wf_def)

lemma table_wf_pop:
  "table_wf c \<Longrightarrow> dict_get (co_entries c) sid = Some e \<Longrightarrow> users (co_tasks c) e = {} \<Longrightarrow>
   table_wf (c\<lparr>co_entries := dict_pop sid (co_entries c)\<rparr>)"
  by (auto simp: table_wf_def users_def split: if_splits)

lemma table_used_pop:
  "table_wf c \<Longrightarrow> table_used {e} c \<Longrightarrow> dict_get (co_entries c) sid = Some e \<Longrightarrow>
   table_used {} (c\<lparr>co_entries := dict_pop sid (co_entries c)\<rparr>)"
  unfolding table_used_def table_wf_def by (simp split: if_splits) metis

lemma table_used_empty:
  "table_used {e} c \<Longrightarrow> users (co_tasks c) e \<noteq> {} \<Longrightarrow> table_used {} c"
  by (auto simp: table_used_def)

lemma entry_ok_fresh:
  assumes "table_wf c" "entry_ok c e"
  shows "entry_ok (c\<lparr>co_entries := d, co_heap := (co_heap c)(co_next c := fresh_entry),
    co_next := n\<rparr>) e"
proof (cases "e = co_next c")
  case True
  have "users (co_tasks c) e = {}"
    using assms(1) unfolding table_wf_def users_def True by fastforce
  then show ?thesis
    using True users_split [of "co_tasks c" e] by (auto simp: entry_ok_def fresh_entry_def)
next
  case False
  with assms(2) show ?thesis by (simp add: entry_ok_def)
qed

text \<open>The entry \<open>e\<close> of \<open>sid\<close> is in the table, perhaps not used yet.\<close>

definition half_open :: "pystr \<Rightarrow> nat \<Rightarrow> coordinator \<Rightarrow> bool" where
  "half_open sid e c \<longleftrightarrow>
     table_wf c \<and> table_used {e} c \<and> dict_get (co_entries c) sid = Some e \<and> (\<forall>e. entry_ok c e)"

lemma entry_for_half_open:
  assumes "co_inv c" "entry_for sid c = (e, c1)"
  shows "half_open sid e c1 \<and> co_tasks c1 = co_tasks c \<and> co_mode c1 = co_mode c"
proof (cases "dict_get (co_entries c) sid")
  case None
  with assms(2) have c1: "e = co_next c"
      "c1 = c\<lparr>co_entries := dict_set sid (co_next c) (co_entries c),
             co_heap := (co_heap c)(co_next c := fresh_entry), co_next := Suc (co_next c)\<rparr>"
    by (auto simp: entry_for_def)
  have ok: "entry_ok c1 e" for e
    using assms(1) unfolding c1(2) co_inv_def by (blast intro: entry_ok_fresh)
  have "table_wf c1"
    using assms(1) None unfolding co_inv_def table_wf_def c1 by auto (metis less_irrefl less_SucI)+
  moreover have "table_used {e} c1"
    using assms(1) unfolding co_inv_def table_used_def c1 by auto
  ultimately show ?thesis using ok by (simp add: half_open_def c1)
next
  case (Some e')
  with assms show ?thesis
    by (auto simp: entry_for_def half_open_def co_inv_def table_used_def)
qed

lemma idle_not_user:
  "ts t = Idle \<Longrightarrow> t \<notin> users ts e \<and> t \<notin> waiters ts e \<and> t \<notin> holders ts e"
  by (auto simp: users_def waiters_def holders_def)

lemma other_not_user:
  "phase_entry (ts t) = Some (sid, e) \<Longrightarrow> e' \<noteq> e \<Longrightarrow>
   t \<notin> users ts e' \<and> t \<notin> waiters ts e' \<and> t \<notin> holders ts e'"
  by (cases "ts t") (auto simp: users_def waiters_def holders_def)

lemma enter_inv:
  assumes c: "half_open sid e c" and t: "co_tasks c t = Idle"
  shows "co_inv (set_phase t (Waiting sid e)
    (on_entry e (\<lambda>s. s\<lparr>se_references := se_references s + 1, se_waiters := se_waiters s @ [t]\<rparr>) c))"
    (is "co_inv ?c'")
proof -
  have "entry_ok ?c' e'" for e'
    using c idle_not_user [of "co_tasks c", OF t, of e'] unfolding half_open_def
    by (cases "e' = e") (fastforce simp: entry_ok_def)+
  moreover have "table_wf ?c'"
    using c by (intro table_wf_phase [where sid = sid and e = e]) (simp_all add: half_open_def)
  moreover have "table_used {} ?c'"
    using c idle_not_user [of "co_tasks c", OF t] by (auto simp: half_open_def table_used_def)
  ultimately show ?thesis by (simp add: co_inv_def)
qed

lemma reserve_inv:
  assumes "co_inv c" "co_tasks c t = Idle" "reserve t sid c = Inr c'"
  shows "co_inv c'"
proof -
  obtain e c1 where e: "entry_for sid c = (e, c1)" by fastforce
  from entry_for_half_open [OF assms(1) e] have "half_open sid e c1" "co_tasks c1 t = Idle"
    using assms(2) by simp_all
  from enter_inv [OF this] assms(3) e show ?thesis
    by (auto simp: reserve_def split: if_splits)
qed

lemma acquire_inv:
  assumes "co_inv c" "acquire t c = Some c'"
  shows "co_inv c'"
proof -
  obtain sid e ws where t: "co_tasks c t = Waiting sid e" "se_waiters (co_heap c e) = t # ws"
      "\<not> se_locked (co_heap c e)"
    and c': "c' = set_phase t (Holding sid e)
      (on_entry e (\<lambda>s. s\<lparr>se_locked := True, se_waiters := ws\<rparr>) c)"
    using assms(2) by (auto simp: acquire_def split: task_phase.splits list.splits if_splits)
  have mem: "t \<in> users (co_tasks c) e" "t \<in> waiters (co_tasks c) e" using t(1) by (auto simp: users_def waiters_def)
  have c: "table_wf c" "table_used {} c" "entry_ok c e'" for e'
    using assms(1) by (simp_all add: co_inv_def)
  have "entry_ok c' e'" for e'
  proof (cases "e' = e")
    case True
    with t mem c(3) [of e] show ?thesis unfolding c' True by (auto simp: entry_ok_def insert_absorb)
  next
    case False
    with other_not_user [of "co_tasks c" t sid e e'] t c(3) [of e'] show ?thesis
      unfolding c' by (simp add: entry_ok_def)
  qed
  moreover have "table_wf c'"
    unfolding c' using c(1) table_wf_entry [OF c(1), of t sid e] t(1)
    by (intro table_wf_phase [where sid = sid and e = e]) simp_all
  moreover have "users ((co_tasks c)(t := Holding sid e)) e' = users (co_tasks c) e'" for e'
    using mem other_not_user [of "co_tasks c" t sid e e'] t(1) by (auto simp: insert_absorb)
  then have "table_used {} c'"
    unfolding c' using c(2) by (simp add: table_used_def)
  ultimately show ?thesis by (simp add: co_inv_def)
qed

text \<open>One user of \<open>e\<close> is gone but still counted.\<close>

definition leaving :: "pystr \<Rightarrow> nat \<Rightarrow> coordinator \<Rightarrow> bool" where
  "leaving sid e c \<longleftrightarrow>
     table_wf c \<and> table_used {e} c \<and> dict_get (co_entries c) sid = Some e \<and>
     (\<forall>e'. entry_ok (on_entry e (\<lambda>s. s\<lparr>se_references := se_references s - 1\<rparr>) c) e')"

lemma release_reference_inv:
  assumes "leaving sid e c"
  shows "co_inv (release_reference sid e c)"
proof -
  let ?c = "on_entry e (\<lambda>s. s\<lparr>se_references := se_references s - 1\<rparr>) c"
  have ok: "entry_ok ?c e'" for e' using assms by (simp add: leaving_def)
  have refs: "se_references (co_heap ?c e) = int (card (users (co_tasks c) e))"
      "finite (users (co_tasks c) e)"
    using ok [of e] by (simp_all add: entry_ok_def)
  have locked: "se_locked (co_heap c e) \<Longrightarrow> users (co_tasks c) e \<noteq> {}"
    using ok [of e] users_split [of "co_tasks c" e] by (auto simp: entry_ok_def)
  have c: "table_wf ?c" "table_used {e} ?c" "dict_get (co_entries ?c) sid = Some e"
    using assms by (simp_all add: leaving_def)
  show ?thesis
  proof (cases "users (co_tasks c) e = {}")
    case True
    then have eq: "release_reference sid e c = ?c\<lparr>co_entries := dict_pop sid (co_entries ?c)\<rparr>"
      using refs locked by (auto simp: release_reference_def Let_def)
    have "entry_ok (release_reference sid e c) e'" for e'
      using ok [of e'] unfolding eq by (simp add: entry_ok_def)
    then show ?thesis
      using table_wf_pop [OF c(1,3)] table_used_pop [OF c] True unfolding eq co_inv_def by (intro conjI allI) simp_all
  next
    case False
    then have "card (users (co_tasks c) e) \<noteq> 0" using refs(2) by simp
    then have eq: "release_reference sid e c = ?c"
      using refs(1) by (simp add: release_reference_def Let_def)
    show ?thesis
      using table_used_empty [OF c(2)] c(1) ok False unfolding eq co_inv_def
      by (intro conjI allI) simp_all
  qed
qed

lemma leave_inv:
  assumes c: "co_inv c" and t: "phase_entry (co_tasks c t) = Some (sid, e)"
    and f: "\<And>s. se_references (f s) = se_references s"
      "set (se_waiters (f (co_heap c e))) = waiters (co_tasks c) e - {t}"
      "distinct (se_waiters (f (co_heap c e)))"
      "se_locked (f (co_heap c e)) \<Longrightarrow> \<exists>x. holders (co_tasks c) e - {t} = {x}"
      "\<not> se_locked (f (co_heap c e)) \<Longrightarrow> holders (co_tasks c) e - {t} = {}"
  shows "co_inv (release_reference sid e (set_phase t Idle (on_entry e f c)))"
proof (rule release_reference_inv)
  have mem: "t \<in> users (co_tasks c) e" using t by (auto simp: users_def)
  note others = other_not_user [of "co_tasks c" t sid e, OF t]
  have c: "table_wf c" "table_used {} c" "entry_ok c e'" for e'
    using c by (simp_all add: co_inv_def)
  have "entry_ok (on_entry e (\<lambda>s. s\<lparr>se_references := se_references s - 1\<rparr>)
      (set_phase t Idle (on_entry e f c))) e'" for e'
  proof (cases "e' = e")
    case True
    have "finite (users (co_tasks c) e)" using c(3) [of e] by (simp add: entry_ok_def)
    then have "int (card (users (co_tasks c) e - {t})) = int (card (users (co_tasks c) e)) - 1"
      using mem by (metis card_Suc_Diff1 diff_add_cancel of_nat_Suc add_diff_cancel_left')
    then show ?thesis using True c(3) [of e] f by (simp add: entry_ok_def)
  next
    case False
    with c(3) [of e'] others [OF False] show ?thesis by (simp add: entry_ok_def)
  qed
  moreover have "table_wf (set_phase t Idle (on_entry e f c))"
    by (rule table_wf_idle) (simp add: c)
  moreover have "table_used {e} (set_phase t Idle (on_entry e f c))"
    using c(2) others by (simp add: table_used_def) blast
  moreover have "dict_get (co_entries c) sid = Some e"
    using table_wf_entry [OF c(1) t] .
  ultimately show "leaving sid e (set_phase t Idle (on_entry e f c))"
    unfolding leaving_def by (intro conjI allI) simp_all
qed

lemma give_up_inv:
  assumes "co_inv c" "give_up t c = Some c'"
  shows "co_inv c'"
proof -
  obtain sid e where t: "co_tasks c t = Waiting sid e"
    and c': "c' = release_reference sid e (set_phase t Idle
        (on_entry e (\<lambda>s. s\<lparr>se_waiters := removeAll t (se_waiters s)\<rparr>) c))"
    using assms(2) by (auto simp: give_up_def split: task_phase.splits)
  have e: "entry_ok c e" using assms(1) by (simp add: co_inv_def)
  have "t \<notin> holders (co_tasks c) e" using t by (simp add: holders_def)
  then show ?thesis
    unfolding c' using e t
    by (intro leave_inv [OF assms(1)]) (auto simp: entry_ok_def distinct_removeAll)
qed

lemma release_inv:
  assumes "co_inv c" "release t c = Some c'"
  shows "co_inv c'"
proof -
  obtain sid e where t: "co_tasks c t = Holding sid e"
    and c': "c' = release_reference sid e (set_phase t Idle
        (on_entry e (\<lambda>s. s\<lparr>se_locked := False\<rparr>) c))"
    using assms(2) by (auto simp: release_def split: task_phase.splits)
  have e: "entry_ok c e" using assms(1) by (simp add: co_inv_def)
  have mem: "t \<in> holders (co_tasks c) e" "t \<notin> waiters (co_tasks c) e"
    using t by (simp_all add: holders_def waiters_def)
  with e have "holders (co_tasks c) e = {t}" by (auto simp: entry_ok_def)
  then show ?thesis
    unfolding c' using e t mem by (intro leave_inv [OF assms(1)]) (auto simp: entry_ok_def)
qed

lemma co_step_inv: "co_step c c' \<Longrightarrow> co_inv c \<Longrightarrow> co_inv c'"
  by (erule co_stepE) (auto intro: reserve_inv acquire_inv give_up_inv release_inv)

lemma co_reachable_inv: "co_reachable c \<Longrightarrow> co_inv c"
  by (induction rule: co_reachable.induct) (auto intro: co_inv_init co_step_inv)

section \<open>What the coordinator guarantees\<close>

lemma co_inv_exclusive:
  assumes "co_inv c" "co_tasks c t = Holding sid e" "co_tasks c t' = Holding sid e'"
  shows "t = t'"
proof -
  have "table_wf c" "entry_ok c e" using assms(1) by (simp_all add: co_inv_def)
  moreover from this have "e' = e"
    using table_wf_entry [of c t sid e] table_wf_entry [of c t' sid e'] assms(2,3) by simp
  moreover have "t \<in> holders (co_tasks c) e" "t' \<in> holders (co_tasks c) e'"
    using assms(2,3) by (auto simp: holders_def)
  ultimately show ?thesis by (auto simp: entry_ok_def)
qed

lemma co_inv_idle:
  assumes "co_inv c" "\<forall>t. co_tasks c t = Idle"
  shows "co_entries c = []"
proof -
  have "users (co_tasks c) e = {}" for e using assms(2) by (simp add: users_def)
  then have none: "dict_get (co_entries c) sid = None" for sid
    using assms(1) by (cases "dict_get (co_entries c) sid") (auto simp: co_inv_def table_used_def)
  show ?thesis
  proof (cases "co_entries c")
    case (Cons x d)
    then have "dict_get (co_entries c) (fst x) \<noteq> None" by (cases x) simp
    with none show ?thesis by simp
  qed simp
qed

text \<open>In reject mode a session with a user turns every other task away at once.\<close>

lemma reserve_busy:
  assumes "co_inv c" "co_mode c = Reject" "phase_entry (co_tasks c t') = Some (sid, e)" "sid \<noteq> []"
  shows "reserve t sid c = Inl (session_busy_error sid None)"
proof -
  have entry: "dict_get (co_entries c) sid = Some e"
    using assms(1,3) table_wf_entry [of c t' sid e] by (simp add: co_inv_def)
  have "entry_ok c e" using assms(1) by (simp add: co_inv_def)
  moreover have "t' \<in> users (co_tasks c) e" using assms(3) by (auto simp: users_def)
  ultimately have "0 < se_references (co_heap c e)"
    by (auto simp: entry_ok_def card_gt_0_iff)
  with entry assms(2,4) show ?thesis by (simp add: reserve_def entry_for_def)
qed

text \<open>Somebody can always go on: the holder can release, or the first waiter can acquire.\<close>

lemma co_inv_progress:
  assumes "co_inv c" "phase_entry (co_tasks c t) = Some (sid, e)"
  shows "\<exists>t' c'. phase_entry (co_tasks c t') = Some (sid, e) \<and>
    (release t' c = Some c' \<or> acquire t' c = Some c')"
proof -
  have e: "entry_ok c e" and wf: "table_wf c" using assms(1) by (simp_all add: co_inv_def)
  have sid: "sid' = sid" if "phase_entry (co_tasks c t') = Some (sid', e)" for t' sid'
    using wf assms(2) that unfolding table_wf_def by blast
  show ?thesis
  proof (cases "se_locked (co_heap c e)")
    case True
    with e obtain t' where "t' \<in> holders (co_tasks c) e" by (auto simp: entry_ok_def)
    then obtain sid' where "co_tasks c t' = Holding sid' e" by (auto simp: holders_def)
    with sid [of t' sid'] have "co_tasks c t' = Holding sid e" by simp
    then show ?thesis by (intro exI [of _ t']) (auto simp: release_def)
  next
    case False
    with e have "holders (co_tasks c) e = {}" by (simp add: entry_ok_def)
    then have "t \<in> waiters (co_tasks c) e"
      using assms(2) by (cases "co_tasks c t") (auto simp: holders_def waiters_def)
    then obtain t' ws where w: "se_waiters (co_heap c e) = t' # ws"
      using e by (cases "se_waiters (co_heap c e)") (auto simp: entry_ok_def)
    then have "t' \<in> waiters (co_tasks c) e" using e by (auto simp: entry_ok_def)
    then obtain sid' where "co_tasks c t' = Waiting sid' e" by (auto simp: waiters_def)
    with sid [of t' sid'] have "co_tasks c t' = Waiting sid e" by simp
    with w False show ?thesis by (intro exI [of _ t']) (auto simp: acquire_def)
  qed
qed

section \<open>Properties of the coordinator\<close>

text \<open>A coordinator on which task 0 has asked for the session and holds its lease.\<close>

definition idle_coordinator :: "conflict_mode \<Rightarrow> coordinator" where
  "idle_coordinator mode =
     \<lparr>co_mode = mode, co_entries = [], co_heap = (\<lambda>_. fresh_entry), co_next = 0,
      co_tasks = (\<lambda>_. Idle)\<rparr>"

definition held_coordinator :: "conflict_mode \<Rightarrow> coordinator" where
  "held_coordinator mode =
     (idle_coordinator mode)\<lparr>co_entries := [(lit ''s'', 0)], co_next := 1,
        co_heap := (\<lambda>_. fresh_entry)(0 := \<lparr>se_locked = True, se_waiters = [], se_references = 1\<rparr>),
        co_tasks := (\<lambda>_. Idle)(0 := Holding (lit ''s'') 0)\<rparr>"

lemma idle_reachable: "co_reachable (idle_coordinator mode)"
  by (rule co_reachable.init [of mode None]) (simp add: coordinator_init_def idle_coordinator_def)

lemma held_reachable: "co_reachable (held_coordinator mode)"
proof -
  obtain c1 where c1: "reserve 0 (lit ''s'') (idle_coordinator mode) = Inr c1"
    and c2: "acquire 0 c1 = Some (held_coordinator mode)"
    by (simp add: reserve_def entry_for_def acquire_def idle_coordinator_def held_coordinator_def
        fresh_entry_def lit_def fun_eq_iff)
  from c1 have "co_reachable c1"
    by (intro co_reachable.step [OF idle_reachable co_step.reserve])
      (simp_all add: idle_coordinator_def)
  then show ?thesis using c2 by (rule co_reachable.step [OF _ co_step.acquire])
qed

text \<open>
  C16. Runs of one session never overlap: in every reachable state at most one task holds the lease
  of a session.
\<close>

theorem lease_exclusive:
  assumes "co_reachable c" "co_tasks c t = Holding sid e"
  shows "\<not> (\<exists>t' e'. t' \<noteq> t \<and> co_tasks c t' = Holding sid e')"
  using co_inv_exclusive [OF co_reachable_inv [OF assms(1)] assms(2)] by blast

theorem lease_exclusive_witness:
  "\<not> (\<exists>t' e'. t' \<noteq> 0 \<and> co_tasks (held_coordinator Wait) t' = Holding (lit ''s'') e')"
  by (rule lease_exclusive [OF held_reachable, where e = 0])
    (simp add: held_coordinator_def)

text \<open>
  C17. The lock table does not leak: in every reachable state a session is in the table exactly when
  a task holds or waits for it, and the reference count of its entry is the number of these tasks.
\<close>

theorem lock_table_exact:
  assumes "co_reachable c"
  shows "(dict_get (co_entries c) sid \<noteq> None) =
      (\<exists>t e. phase_entry (co_tasks c t) = Some (sid, e)) \<and>
    (case dict_get (co_entries c) sid of None \<Rightarrow> True
     | Some e \<Rightarrow> se_references (co_heap c e) = int (card (users (co_tasks c) e)))"
proof -
  have inv: "co_inv c" using assms by (rule co_reachable_inv)
  have "\<exists>t. phase_entry (co_tasks c t) = Some (sid, e)"
    if e: "dict_get (co_entries c) sid = Some e" for e
  proof -
    obtain t where "t \<in> users (co_tasks c) e"
      using inv e by (fastforce simp: co_inv_def table_used_def)
    then obtain sid' where t: "phase_entry (co_tasks c t) = Some (sid', e)"
      by (auto simp: users_def)
    then have "dict_get (co_entries c) sid' = Some e"
      using inv by (simp add: co_inv_def table_wf_def)
    then have "sid' = sid" using inv e unfolding co_inv_def table_wf_def by blast
    with t show ?thesis by auto
  qed
  moreover have "dict_get (co_entries c) sid = Some e"
    if "phase_entry (co_tasks c t) = Some (sid, e)" for t e
    using inv that by (simp add: co_inv_def table_wf_def)
  ultimately show ?thesis
    using inv by (cases "dict_get (co_entries c) sid") (auto simp: co_inv_def entry_ok_def)
qed

theorem lock_table_exact_witness:
  "se_references (co_heap (held_coordinator Wait) 0) = int (card (users (co_tasks (held_coordinator Wait)) 0))"
proof -
  have "dict_get (co_entries (held_coordinator Wait)) (lit ''s'') = Some 0"
    by (simp add: held_coordinator_def)
  with lock_table_exact [OF held_reachable, of Wait "lit ''s''"] show ?thesis by simp
qed

text \<open>
  In reject mode a session in use turns every other request away at once with the error that
  names the session.
\<close>

theorem busy_session_rejected:
  assumes "co_reachable c" "co_mode c = Reject"
    and "phase_entry (co_tasks c t') = Some (sid, e)" "sid \<noteq> []"
  shows "reserve t sid c = Inl (session_busy_error sid None)"
  using reserve_busy [OF co_reachable_inv [OF assms(1)] assms(2-4)] .

theorem busy_session_rejected_witness:
  "reserve 1 (lit ''s'') (held_coordinator Reject) = Inl (session_busy_error (lit ''s'') None)"
  by (rule busy_session_rejected [OF held_reachable, where t' = 0 and e = 0])
    (simp_all add: held_coordinator_def idle_coordinator_def lit_def)

text \<open>
  C18. No deadlock: whenever a task holds or waits for a session, a task of that session can go
  on, by giving its lease back or by acquiring the lock it waits for.
\<close>

theorem session_progress:
  assumes "co_reachable c" "phase_entry (co_tasks c t) = Some (sid, e)"
  shows "\<exists>t' c'. phase_entry (co_tasks c t') = Some (sid, e) \<and>
    (release t' c = Some c' \<or> acquire t' c = Some c')"
  using co_inv_progress [OF co_reachable_inv [OF assms(1)] assms(2)] .

theorem session_progress_witness:
  "\<exists>t' c'. phase_entry (co_tasks (held_coordinator Wait) t') = Some (lit ''s'', 0) \<and>
     (release t' (held_coordinator Wait) = Some c' \<or> acquire t' (held_coordinator Wait) = Some c')"
  by (rule session_progress [OF held_reachable, where t = 0]) (simp add: held_coordinator_def)

end
