(* ===== verification/Tool_Registry.thy ===== *)
theory Tool_Registry
  imports Agent_Errors
begin

text \<open>
  \<open>tools/registry.py\<close>: the registry of tools with its disabled set, the OpenAI schema of a tool,
  and the generation of a JSON schema from a function's annotations. The function behind a tool
  is code of the tool modules and beyond, here its outcome on keyword arguments.
\<close>

section \<open>Annotations\<close>

text \<open>
  The annotations \<open>_py_to_json\<close> distinguishes: the four scalar classes, another class (the type
  table has no entry), \<open>Literal\<close>, \<open>list[t]\<close>, \<open>dict[...]\<close>, a union (with \<open>NoneType\<close> as
  \<open>TNone\<close>) and any other generic.
\<close>

datatype py_anno =
    TInt | TFloat | TStr | TBool | TNone
  | TClass pystr
  | TLiteral "json list"
  | TList py_anno
  | TDict
  | TUnion "py_anno list"
  | TGeneric

text \<open>\<open>list(dict.fromkeys(xs))\<close>: the first occurrence of each element, in order.\<close>

definition dedup :: "'a list \<Rightarrow> 'a list" where
  "dedup xs = rev (remdups (rev xs))"

lemma set_dedup [simp]: "set (dedup xs) = set xs"
  by (simp add: dedup_def)

lemma distinct_dedup [simp]: "distinct (dedup xs)"
  by (simp add: dedup_def)

definition json_type :: "json \<Rightarrow> pystr" where
  "json_type v =
     (case v of
        JNull \<Rightarrow> lit ''null''
      | JInt _ \<Rightarrow> lit ''integer''
      | JFloat _ \<Rightarrow> lit ''number''
      | JBool _ \<Rightarrow> lit ''boolean''
      | _ \<Rightarrow> lit ''string'')"

text \<open>The \<open>type\<close> entry of a schema as a list of names.\<close>

definition schema_types :: "json \<Rightarrow> json list" where
  "schema_types s =
     (case s of
        JObj kvs \<Rightarrow>
          (case dict_get kvs (lit ''type'') of
             Some (JArr ts) \<Rightarrow> ts
           | Some t \<Rightarrow> [t]
           | None \<Rightarrow> [])
      | _ \<Rightarrow> [])"

definition nullable :: "json list \<Rightarrow> json" where
  "nullable schemas =
     JObj [(lit ''type'',
            JArr (dedup (concat (map schema_types schemas)) @ [JStr (lit ''null'')]))]"

definition scalar :: "string \<Rightarrow> json" where
  "scalar t = JObj [(lit ''type'', JStr (lit t))]"

definition key_error :: exn where
  "key_error = exn_of PyKeyError ''no JSON type''"

fun py_to_json :: "py_anno \<Rightarrow> exn + json"
and py_to_json_all :: "py_anno list \<Rightarrow> exn + json list" where
  "py_to_json TInt = Inr (scalar ''integer'')"
| "py_to_json TFloat = Inr (scalar ''number'')"
| "py_to_json TStr = Inr (scalar ''string'')"
| "py_to_json TBool = Inr (scalar ''boolean'')"
| "py_to_json TNone = Inl key_error"
| "py_to_json (TClass c) = Inl key_error"
| "py_to_json (TLiteral values) =
     (let json_types = dedup (map (JStr \<circ> json_type) values) in
      Inr (JObj [(lit ''type'',
                  case json_types of [t] \<Rightarrow> t | _ \<Rightarrow> JArr json_types),
                 (lit ''enum'', JArr values)]))"
| "py_to_json (TList t) =
     rmap (\<lambda>item. JObj [(lit ''type'', JStr (lit ''array'')), (lit ''items'', item)])
       (py_to_json t)"
| "py_to_json TDict = Inr (scalar ''object'')"
| "py_to_json (TUnion args) =
     (if filter (\<lambda>a. a \<noteq> TNone) args = [] then Inr (scalar ''string'')
      else rmap nullable (py_to_json_all args))"
| "py_to_json TGeneric = Inr (scalar ''string'')"
| "py_to_json_all [] = Inr []"
| "py_to_json_all (a # as) =
     (if a = TNone then py_to_json_all as
      else (case py_to_json a of
              Inl e \<Rightarrow> Inl e
            | Inr s \<Rightarrow> rmap (\<lambda>ss. s # ss) (py_to_json_all as)))"

definition is_optional :: "py_anno \<Rightarrow> bool" where
  "is_optional anno = (case anno of TUnion args \<Rightarrow> TNone \<in> set args | _ \<Rightarrow> False)"

text \<open>
  A parameter of a tool function: name, annotation (without one it counts as \<open>str\<close>), the
  description of \<open>Annotated\<close> and the default.
\<close>

record py_param =
  pp_name :: pystr
  pp_anno :: "py_anno option"
  pp_desc :: "pystr option"
  pp_default :: "json option"

definition param_anno :: "py_param \<Rightarrow> py_anno" where
  "param_anno p = (case pp_anno p of None \<Rightarrow> TStr | Some a \<Rightarrow> a)"

definition param_property :: "py_param \<Rightarrow> exn + json" where
  "param_property p =
     rmap (\<lambda>s. case s of
         JObj kvs \<Rightarrow>
           (let with_desc = (case pp_desc p of
                    Some d \<Rightarrow> if d = [] then kvs else dict_set (lit ''description'') (JStr d) kvs
                  | None \<Rightarrow> kvs)
            in JObj (case pp_default p of
                    Some v \<Rightarrow> dict_set (lit ''default'') v with_desc
                  | None \<Rightarrow> with_desc))
       | v \<Rightarrow> v)
       (py_to_json (param_anno p))"

fun generate_properties :: "py_param list \<Rightarrow> exn + (pystr, json) dict" where
  "generate_properties [] = Inr []"
| "generate_properties (p # ps) =
     (case param_property p of
        Inl e \<Rightarrow> Inl e
      | Inr s \<Rightarrow> rmap (\<lambda>props. (pp_name p, s) # props) (generate_properties ps))"

definition required_params :: "py_param list \<Rightarrow> pystr list" where
  "required_params ps =
     map pp_name (filter (\<lambda>p. pp_default p = None \<and> \<not> is_optional (param_anno p)) ps)"

definition generate_schema :: "py_param list \<Rightarrow> exn + json" where
  "generate_schema ps =
     rmap (\<lambda>props.
         JObj [(lit ''type'', JStr (lit ''object'')), (lit ''properties'', JObj props),
               (lit ''required'', JArr (map JStr (required_params ps)))])
       (generate_properties ps)"

section \<open>Tools\<close>

type_synonym tool_func = "(pystr, json) dict \<Rightarrow> json outcome"

record tool =
  t_name :: pystr
  t_description :: pystr
  t_parameters :: json
  t_func :: tool_func
  t_func_label :: pystr

definition to_openai_schema :: "tool \<Rightarrow> json" where
  "to_openai_schema t =
     JObj [(lit ''type'', JStr (lit ''function'')),
           (lit ''function'',
            JObj [(lit ''name'', JStr (t_name t)), (lit ''description'', JStr (t_description t)),
                  (lit ''parameters'', t_parameters t)])]"

text \<open>
  A Python function to register: its name, docstring, parameters, behaviour and the qualified
  name Python prints for it in a \<open>TypeError\<close>.
\<close>

record py_func =
  pf_name :: pystr
  pf_doc :: "pystr option"
  pf_params :: "py_param list"
  pf_call :: tool_func
  pf_label :: pystr

definition make_tool :: "py_func \<Rightarrow> exn + tool" where
  "make_tool f =
     rmap (\<lambda>schema.
         \<lparr>t_name = pf_name f, t_description = (case pf_doc f of None \<Rightarrow> [] | Some d \<Rightarrow> d),
          t_parameters = schema, t_func = pf_call f, t_func_label = pf_label f\<rparr>)
       (generate_schema (pf_params f))"

section \<open>ToolRegistry\<close>

record tool_registry =
  tr_tools :: "(pystr, tool) dict"
  tr_disabled :: "pystr set"

definition empty_registry :: tool_registry where
  "empty_registry = \<lparr>tr_tools = [], tr_disabled = {}\<rparr>"

definition register :: "py_func \<Rightarrow> tool_registry \<Rightarrow> (exn + tool) \<times> tool_registry" where
  "register f r =
     (case make_tool f of
        Inl e \<Rightarrow> (Inl e, r)
      | Inr t \<Rightarrow>
          if dict_has (tr_tools r) (t_name t) then
            (Inl (Exn PyValueError (lit ''tool '' @ t_name t @ lit '' already registered'') [] None),
             r)
          else (Inr t, r\<lparr>tr_tools := dict_set (t_name t) t (tr_tools r)\<rparr>))"

text \<open>A failure in the middle leaves the tools before it registered.\<close>

fun register_many :: "py_func list \<Rightarrow> tool_registry \<Rightarrow> (exn + tool list) \<times> tool_registry" where
  "register_many [] r = (Inr [], r)"
| "register_many (f # fs) r =
     (case register f r of
        (Inl e, r') \<Rightarrow> (Inl e, r')
      | (Inr t, r') \<Rightarrow>
          (case register_many fs r' of (res, r'') \<Rightarrow> (rmap (\<lambda>ts. t # ts) res, r'')))"

definition disable :: "pystr \<Rightarrow> tool_registry \<Rightarrow> exn + tool_registry" where
  "disable name r =
     (if dict_has (tr_tools r) name then Inr (r\<lparr>tr_disabled := insert name (tr_disabled r)\<rparr>)
      else Inl (Exn PyKeyError (lit ''tool '' @ name @ lit '' not registered'') [] None))"

definition enable :: "pystr \<Rightarrow> tool_registry \<Rightarrow> tool_registry" where
  "enable name r = r\<lparr>tr_disabled := tr_disabled r - {name}\<rparr>"

definition get_schemas :: "tool_registry \<Rightarrow> json list" where
  "get_schemas r =
     map to_openai_schema
       (filter (\<lambda>t. t_name t \<notin> tr_disabled r) (map snd (tr_tools r)))"

definition list_all_tools :: "tool_registry \<Rightarrow> pystr list" where
  "list_all_tools r = dict_keys (tr_tools r)"

definition list_enabled :: "tool_registry \<Rightarrow> pystr list" where
  "list_enabled r = filter (\<lambda>n. n \<notin> tr_disabled r) (dict_keys (tr_tools r))"

definition get_tool :: "tool_registry \<Rightarrow> pystr \<Rightarrow> tool option" where
  "get_tool r name = (if name \<in> tr_disabled r then None else dict_get (tr_tools r) name)"

section \<open>The registry's invariant\<close>

definition registry_wf :: "tool_registry \<Rightarrow> bool" where
  "registry_wf r \<longleftrightarrow> dict_wf (tr_tools r) \<and> (\<forall>(n, t)\<in>set (tr_tools r). t_name t = n)"

lemma registry_wf_empty: "registry_wf empty_registry"
  by (simp add: registry_wf_def empty_registry_def)

lemma set_dict_set_new:
  "k \<notin> fst ` set d \<Longrightarrow> set (dict_set k v d) = insert (k, v) (set d)"
  by (induction d) auto

lemma register_wf: "registry_wf r \<Longrightarrow> register f r = (res, r') \<Longrightarrow> registry_wf r'"
  by (auto simp: register_def registry_wf_def dict_has_iff set_dict_set_new
      split: sum.splits if_splits)

lemma register_error_unchanged: "register f r = (Inl e, r') \<Longrightarrow> r' = r"
  by (auto simp: register_def split: sum.splits if_splits)

lemma register_many_wf: "registry_wf r \<Longrightarrow> registry_wf (snd (register_many fs r))"
proof (induction fs arbitrary: r)
  case (Cons f fs)
  obtain res r' where reg: "register f r = (res, r')" by (metis surj_pair)
  with Cons have "registry_wf r'" "registry_wf (snd (register_many fs r'))"
    using register_wf by blast+
  with reg show ?case by (cases res) (simp_all add: case_prod_unfold)
qed simp

lemma disable_wf: "registry_wf r \<Longrightarrow> disable n r = Inr r' \<Longrightarrow> registry_wf r'"
  by (auto simp: disable_def registry_wf_def split: if_splits)

lemma enable_wf: "registry_wf r \<Longrightarrow> registry_wf (enable n r)"
  by (simp add: enable_def registry_wf_def)

lemma get_tool_name: "registry_wf r \<Longrightarrow> get_tool r n = Some t \<Longrightarrow> t_name t = n"
  by (fastforce simp: get_tool_def registry_wf_def dest: map_of_SomeD split: if_splits)

lemma get_tool_iff_enabled: "get_tool r n \<noteq> None \<longleftrightarrow> n \<in> set (list_enabled r)"
  using map_of_eq_None_iff [of "tr_tools r" n]
  by (auto simp: get_tool_def list_enabled_def dict_keys_def)

text \<open>The name inside a schema, as \<open>schema["function"]["name"]\<close> reads it.\<close>

definition schema_name :: "json \<Rightarrow> pystr option" where
  "schema_name s =
     (case s of
        JObj kvs \<Rightarrow>
          (case dict_get kvs (lit ''function'') of
             Some (JObj f) \<Rightarrow> (case dict_get f (lit ''name'') of Some (JStr n) \<Rightarrow> Some n | _ \<Rightarrow> None)
           | _ \<Rightarrow> None)
      | _ \<Rightarrow> None)"

definition schema_parameters :: "json \<Rightarrow> json" where
  "schema_parameters s =
     (case s of
        JObj kvs \<Rightarrow>
          (case dict_get kvs (lit ''function'') of
             Some (JObj f) \<Rightarrow>
               (case dict_get f (lit ''parameters'') of
                  Some p \<Rightarrow> p
                | None \<Rightarrow> JObj [(lit ''type'', JStr (lit ''object''))])
           | _ \<Rightarrow> JObj [(lit ''type'', JStr (lit ''object''))])
      | _ \<Rightarrow> JObj [(lit ''type'', JStr (lit ''object''))])"

lemma schema_name_of_tool [simp]: "schema_name (to_openai_schema t) = Some (t_name t)"
  by (simp add: schema_name_def to_openai_schema_def)

lemma schema_parameters_of_tool [simp]: "schema_parameters (to_openai_schema t) = t_parameters t"
  by (simp add: schema_parameters_def to_openai_schema_def)

lemma schema_names_enabled:
  assumes "registry_wf r"
  shows "map schema_name (get_schemas r) = map Some (list_enabled r)"
proof -
  have *: "map (\<lambda>t. Some (t_name t)) (filter (\<lambda>t. t_name t \<notin> D) (map snd d)) =
      map Some (filter (\<lambda>n. n \<notin> D) (map fst d))"
    if "\<forall>(n, t)\<in>set d. t_name t = n" for d :: "(pystr, tool) dict" and D
    using that by (induction d) auto
  then show ?thesis
    using assms by (simp add: get_schemas_def list_enabled_def dict_keys_def registry_wf_def comp_def)
qed

section \<open>The interface the executor and the validator rely on\<close>

text \<open>
  A catalogue of tools: what the model is shown (\<open>listed\<close>) and what can be run (\<open>lookup\<close>)
  agree, and disabling a name removes exactly it from both.
\<close>

locale tool_catalog =
  fixes lookup :: "'r \<Rightarrow> pystr \<Rightarrow> 't option"
    and listed :: "'r \<Rightarrow> pystr list"
    and disabled :: "pystr \<Rightarrow> 'r \<Rightarrow> 'r"
    and enabled :: "pystr \<Rightarrow> 'r \<Rightarrow> 'r"
    and wf :: "'r \<Rightarrow> bool"
  assumes lookup_listed: "wf r \<Longrightarrow> lookup r n \<noteq> None \<longleftrightarrow> n \<in> set (listed r)"
    and listed_distinct: "wf r \<Longrightarrow> distinct (listed r)"
    and listed_disabled: "wf r \<Longrightarrow> listed (disabled n r) = filter (\<lambda>m. m \<noteq> n) (listed r)"
    and lookup_enabled: "wf r \<Longrightarrow> m \<noteq> n \<Longrightarrow> lookup (enabled n r) m = lookup r m"
    and wf_disabled: "wf r \<Longrightarrow> wf (disabled n r)"
    and wf_enabled: "wf r \<Longrightarrow> wf (enabled n r)"
begin

lemma disabled_not_found: "wf r \<Longrightarrow> lookup (disabled n r) n = None"
  using lookup_listed [OF wf_disabled, of r n n] by (auto simp: listed_disabled)

lemma disabled_others:
  "wf r \<Longrightarrow> m \<noteq> n \<Longrightarrow> lookup (disabled n r) m = None \<longleftrightarrow> lookup r m = None"
  using lookup_listed [OF wf_disabled, of r n m] lookup_listed [of r m]
  by (auto simp: listed_disabled)

lemma disabled_twice: "wf r \<Longrightarrow> listed (disabled n (disabled n r)) = listed (disabled n r)"
  by (simp add: listed_disabled wf_disabled)

end

text \<open>\<open>disable\<close> of a registered name; on another name it raises and changes nothing.\<close>

definition disable_known :: "pystr \<Rightarrow> tool_registry \<Rightarrow> tool_registry" where
  "disable_known n r = (case disable n r of Inr r' \<Rightarrow> r' | Inl _ \<Rightarrow> r)"

lemma list_enabled_disable:
  "list_enabled (disable_known n r) = filter (\<lambda>m. m \<noteq> n) (list_enabled r)"
  by (auto simp: disable_known_def disable_def list_enabled_def dict_has_iff dict_keys_def
      filter_id_conv split: if_splits intro: filter_cong)

interpretation registry: tool_catalog get_tool list_enabled disable_known enable registry_wf
proof unfold_locales
  fix r n
  show "get_tool r n \<noteq> None \<longleftrightarrow> n \<in> set (list_enabled r)" by (rule get_tool_iff_enabled)
  show "list_enabled (disable_known n r) = filter (\<lambda>m. m \<noteq> n) (list_enabled r)"
    by (rule list_enabled_disable)
next
  fix r
  assume "registry_wf r"
  then show "distinct (list_enabled r)"
    by (simp add: registry_wf_def dict_wf_def list_enabled_def dict_keys_def)
  show "registry_wf (disable_known n r)" for n
    using \<open>registry_wf r\<close> by (auto simp: disable_known_def disable_wf split: sum.splits)
  show "registry_wf (enable n r)" for n
    using \<open>registry_wf r\<close> by (rule enable_wf)
next
  fix r and m n :: pystr
  assume "m \<noteq> n"
  then show "get_tool (enable n r) m = get_tool r m" by (simp add: get_tool_def enable_def)
qed

section \<open>Properties of the registry\<close>

text \<open>
  What the model is shown is what can be run: the schemas of a registry name exactly its
  enabled tools, once each, and a tool is found under a name exactly when it is enabled; and every
  operation keeps a registry in which this holds.
\<close>

theorem registry_shows_what_it_runs:
  assumes "registry_wf r"
  shows "map schema_name (get_schemas r) = map Some (list_enabled r) \<and> distinct (list_enabled r) \<and>
    (\<forall>n. get_tool r n \<noteq> None \<longleftrightarrow> n \<in> set (list_enabled r)) \<and>
    registry_wf (snd (register f r)) \<and> registry_wf (enable n r) \<and>
    (\<forall>r'. disable n r = Inr r' \<longrightarrow> registry_wf r' \<and> get_tool r' n = None)"
proof (intro conjI allI impI)
  show "map schema_name (get_schemas r) = map Some (list_enabled r)"
    using assms by (rule schema_names_enabled)
  show "distinct (list_enabled r)" using assms by (rule registry.listed_distinct)
  show "get_tool r k \<noteq> None \<longleftrightarrow> k \<in> set (list_enabled r)" for k by (rule get_tool_iff_enabled)
  show "registry_wf (snd (register f r))"
    using register_wf [OF assms, of f] by (cases "register f r") simp
  show "registry_wf (enable n r)" using assms by (rule enable_wf)
next
  fix r' assume r': "disable n r = Inr r'"
  then show "registry_wf r'" using disable_wf [OF assms] by blast
  show "get_tool r' n = None"
    using registry.disabled_not_found [OF assms, of n] r' by (simp add: disable_known_def)
qed

definition add_func :: py_func where
  "add_func =
     \<lparr>pf_name = lit ''add'', pf_doc = Some (lit ''Adds.''),
      pf_params =
        [\<lparr>pp_name = lit ''a'', pp_anno = Some TInt, pp_desc = Some (lit ''left''),
           pp_default = None\<rparr>,
         \<lparr>pp_name = lit ''b'', pp_anno = Some (TUnion [TInt, TNone]), pp_desc = None,
           pp_default = Some JNull\<rparr>],
      pf_call = (\<lambda>_. Returned (JInt 3)), pf_label = lit ''add''\<rparr>"

theorem registry_shows_what_it_runs_witness:
  "registry_wf (snd (register add_func empty_registry)) \<and>
   list_enabled (snd (register add_func empty_registry)) = [lit ''add'']"
proof -
  have "list_enabled (snd (register add_func empty_registry)) = [lit ''add'']" by code_simp
  with registry_shows_what_it_runs [OF registry_wf_empty, of add_func] show ?thesis by blast
qed

text \<open>
  The schema generated for a function lists exactly its parameters as properties, in order,
  and requires exactly those without a default that are not optional.
\<close>

lemma generate_properties_names:
  "generate_properties ps = Inr props \<Longrightarrow> map fst props = map pp_name ps"
  by (induction ps arbitrary: props) (auto split: sum.splits)

theorem generated_schema_parameters:
  assumes "generate_schema ps = Inr s"
  shows "\<exists>props. s = JObj [(lit ''type'', JStr (lit ''object'')), (lit ''properties'', JObj props),
        (lit ''required'', JArr (map JStr (required_params ps)))] \<and>
      dict_keys props = map pp_name ps \<and> set (required_params ps) \<subseteq> set (dict_keys props)"
proof -
  obtain props where p: "generate_properties ps = Inr props" and s: "s = JObj
      [(lit ''type'', JStr (lit ''object'')), (lit ''properties'', JObj props),
       (lit ''required'', JArr (map JStr (required_params ps)))]"
    using assms by (auto simp: generate_schema_def)
  show ?thesis
    using generate_properties_names [OF p] s
    by (intro exI [of _ props]) (auto simp: dict_keys_def required_params_def)
qed

theorem generated_schema_parameters_witness:
  "required_params (pf_params add_func) = [lit ''a''] \<and>
   (\<exists>s props. generate_schema (pf_params add_func) = Inr s \<and>
      s = JObj [(lit ''type'', JStr (lit ''object'')), (lit ''properties'', JObj props),
        (lit ''required'', JArr [JStr (lit ''a'')])] \<and> dict_keys props = [lit ''a'', lit ''b''])"
proof -
  have r: "required_params (pf_params add_func) = [lit ''a'']" by code_simp
  have "isl (generate_schema (pf_params add_func)) = False" by code_simp
  then obtain s where s: "generate_schema (pf_params add_func) = Inr s"
    by (cases "generate_schema (pf_params add_func)") auto
  have n: "map pp_name (pf_params add_func) = [lit ''a'', lit ''b'']"
    by (simp add: add_func_def)
  from generated_schema_parameters [OF s] r n s show ?thesis by auto
qed

end
