(* ===== verification/Tool_Validator.thy ===== *)
theory Tool_Validator
  imports Tool_Registry "HOL-Library.List_Lexorder"
begin

text \<open>
  \<open>tools/validator.py\<close>: the checks a model-generated tool call passes before it is executed. The
  JSON-schema validator (\<open>jsonschema\<close>) is the parameter \<open>iter_errors\<close>: the errors of an
  instance under a schema, each with its path and message.
\<close>

section \<open>Calls and violations\<close>

text \<open>
  A tool call as the validator inspects it with \<open>getattr\<close>: the function, its name and its
  arguments may be missing; arguments that are not text are another JSON value.
\<close>

record raw_function =
  rf_name :: "pystr option"
  rf_arguments :: json

record raw_call =
  rc_id :: pystr
  rc_function :: "raw_function option"

datatype violation_reason =
    MalformedToolCall
  | UnknownTool
  | ToolNotRouted
  | InvalidArguments
  | SchemaValidationFailed

fun reason_text :: "violation_reason \<Rightarrow> pystr" where
  "reason_text MalformedToolCall = lit ''malformed_tool_call''"
| "reason_text UnknownTool = lit ''unknown_tool''"
| "reason_text ToolNotRouted = lit ''tool_not_routed''"
| "reason_text InvalidArguments = lit ''invalid_arguments''"
| "reason_text SchemaValidationFailed = lit ''schema_validation_failed''"

record violation =
  v_tool_call_id :: pystr
  v_name :: "pystr option"
  v_reason :: violation_reason
  v_details :: pystr

section \<open>Schema errors\<close>

text \<open>
  A step of an error's path is an index or a key. Python compares the paths as lists; two steps
  at the same place are of the same kind, since they lead into the same container.
\<close>

datatype path_step = PIndex int | PKey pystr

instantiation path_step :: linorder
begin

definition less_eq_path_step :: "path_step \<Rightarrow> path_step \<Rightarrow> bool" where
  "less_eq_path_step a b =
     (case (a, b) of
        (PIndex i, PIndex j) \<Rightarrow> i \<le> j
      | (PIndex _, PKey _) \<Rightarrow> True
      | (PKey _, PIndex _) \<Rightarrow> False
      | (PKey k, PKey l) \<Rightarrow> k \<le> l)"

definition less_path_step :: "path_step \<Rightarrow> path_step \<Rightarrow> bool" where
  "less_path_step a b = (a \<le> b \<and> \<not> b \<le> (a :: path_step))"

instance
  by standard (auto simp: less_eq_path_step_def less_path_step_def split: path_step.splits)

end

record schema_error =
  se_path :: "path_step list"
  se_message :: pystr

type_synonym iter_errors = "json \<Rightarrow> (pystr, json) dict \<Rightarrow> schema_error list"

section \<open>ToolCallValidator\<close>

type_synonym validator = "(pystr, json) dict"

text \<open>\<open>{schema["function"]["name"]: schema for schema in schemas}\<close>.\<close>

fun validator_build :: "validator \<Rightarrow> json list \<Rightarrow> exn + validator" where
  "validator_build d [] = Inr d"
| "validator_build d (s # ss) =
     (case schema_name s of
        None \<Rightarrow> Inl (exn_of PyKeyError ''name'')
      | Some n \<Rightarrow> validator_build (dict_set n s d) ss)"

definition validator_init :: "json list \<Rightarrow> exn + validator" where
  "validator_init schemas = validator_build [] schemas"

definition violation_of :: "pystr \<Rightarrow> pystr option \<Rightarrow> violation_reason \<Rightarrow> pystr \<Rightarrow> violation" where
  "violation_of call_id name reason details =
     \<lparr>v_tool_call_id = call_id, v_name = name, v_reason = reason, v_details = details\<rparr>"

text \<open>
  \<open>_parse_arguments\<close>: a violation, the arguments object, or the plain \<open>ValueError\<close> of an
  integer that is too long, which \<open>except json.JSONDecodeError\<close> does not catch.
\<close>

datatype parsed_arguments =
    ParsedViolation violation
  | ParsedObject "(pystr, json) dict"
  | ParsedRaise exn

definition parse_arguments :: "py_text \<Rightarrow> pystr \<Rightarrow> pystr \<Rightarrow> json \<Rightarrow> parsed_arguments" where
  "parse_arguments fl call_id name arguments =
     (case arguments of
        JStr text \<Rightarrow>
          (case json_loads (plain_cfg fl) text of
             Inl JSONDecodeError \<Rightarrow>
               ParsedViolation (violation_of call_id (Some name) InvalidArguments
                                  (lit ''invalid JSON: '' @ pt_json_msg fl text))
           | Inl JSONValueError \<Rightarrow>
               ParsedRaise (exn_of PyValueError
                 ''Exceeds the limit (4300 digits) for integer string conversion'')
           | Inr (JObj kvs) \<Rightarrow> ParsedObject kvs
           | Inr _ \<Rightarrow>
               ParsedViolation (violation_of call_id (Some name) InvalidArguments
                                  (lit ''tool arguments must be a JSON object'')))
      | _ \<Rightarrow>
          ParsedViolation (violation_of call_id (Some name) InvalidArguments
                             (lit ''arguments must be a JSON string'')))"

text \<open>The first error in path order decides.\<close>

definition validate_schema ::
  "iter_errors \<Rightarrow> pystr \<Rightarrow> pystr \<Rightarrow> (pystr, json) dict \<Rightarrow> json \<Rightarrow> violation option" where
  "validate_schema iter_errors call_id name arguments schema =
     (case sort_key se_path (iter_errors (schema_parameters schema) arguments) of
        [] \<Rightarrow> None
      | e # _ \<Rightarrow> Some (violation_of call_id (Some name) SchemaValidationFailed (se_message e)))"

definition validate_one ::
  "py_text \<Rightarrow> iter_errors \<Rightarrow> validator \<Rightarrow> pystr set option \<Rightarrow> raw_call \<Rightarrow>
   exn + violation option" where
  "validate_one fl iter_errors schemas allowed call =
     (let call_id = rc_id call in
      case rc_function call of
        None \<Rightarrow>
          Inr (Some (violation_of call_id None MalformedToolCall (lit ''missing function'')))
      | Some f \<Rightarrow>
          (case rf_name f of
             None \<Rightarrow>
               Inr (Some (violation_of call_id None MalformedToolCall
                            (lit ''missing function name'')))
           | Some name \<Rightarrow>
               if name = [] then
                 Inr (Some (violation_of call_id None MalformedToolCall
                              (lit ''missing function name'')))
               else
                 (case dict_get schemas name of
                    None \<Rightarrow>
                      Inr (Some (violation_of call_id (Some name) UnknownTool
                                   (lit ''tool '' @ pt_repr fl name @ lit '' is not registered'')))
                  | Some schema \<Rightarrow>
                      if allowed \<noteq> None \<and> name \<notin> the allowed then
                        Inr (Some (violation_of call_id (Some name) ToolNotRouted
                               (lit ''tool '' @ pt_repr fl name @ lit '' was not selected for this run'')))
                      else
                        (case parse_arguments fl call_id name (rf_arguments f) of
                           ParsedViolation v \<Rightarrow> Inr (Some v)
                         | ParsedRaise e \<Rightarrow> Inl e
                         | ParsedObject args \<Rightarrow>
                             Inr (validate_schema iter_errors call_id name args schema)))))"

record 'c validation_result =
  vr_valid_calls :: "'c list"
  vr_violations :: "violation list"

text \<open>
  \<open>validate\<close>, over any type of call with a view \<open>raw\<close> of what \<open>getattr\<close> finds in it.
\<close>

fun validate_calls ::
  "('c \<Rightarrow> exn + violation option) \<Rightarrow> 'c list \<Rightarrow> exn + 'c validation_result" where
  "validate_calls check [] = Inr \<lparr>vr_valid_calls = [], vr_violations = []\<rparr>"
| "validate_calls check (c # cs) =
     (case check c of
        Inl e \<Rightarrow> Inl e
      | Inr v \<Rightarrow>
          rmap (\<lambda>r. case v of
                None \<Rightarrow> r\<lparr>vr_valid_calls := c # vr_valid_calls r\<rparr>
              | Some w \<Rightarrow> r\<lparr>vr_violations := w # vr_violations r\<rparr>)
            (validate_calls check cs))"

definition validate ::
  "py_text \<Rightarrow> iter_errors \<Rightarrow> validator \<Rightarrow> pystr set option \<Rightarrow> ('c \<Rightarrow> raw_call) \<Rightarrow>
   'c list \<Rightarrow> exn + 'c validation_result" where
  "validate fl iter_errors schemas allowed raw calls =
     validate_calls (\<lambda>c. validate_one fl iter_errors schemas allowed (raw c)) calls"

section \<open>What validation guarantees\<close>

text \<open>Every call ends up on exactly one side, in order.\<close>

lemma validate_calls_split:
  assumes "validate_calls check cs = Inr r"
  shows "vr_valid_calls r = filter (\<lambda>c. check c = Inr None) cs \<and>
    map Some (vr_violations r) =
      map (\<lambda>c. projr (check c)) (filter (\<lambda>c. check c \<noteq> Inr None) cs) \<and>
    (\<forall>c\<in>set cs. \<exists>v. check c = Inr v)"
  using assms
proof (induction cs arbitrary: r)
  case (Cons c cs)
  then obtain v r' where "check c = Inr v" "validate_calls check cs = Inr r'"
    by (auto split: sum.splits)
  with Cons show ?case by (cases v) auto
qed simp

text \<open>The conditions under which one call passes.\<close>

definition call_ok ::
  "py_text \<Rightarrow> iter_errors \<Rightarrow> validator \<Rightarrow> pystr set option \<Rightarrow> raw_call \<Rightarrow> bool" where
  "call_ok fl iter_errors schemas allowed call \<longleftrightarrow>
     (\<exists>f name schema text args.
        rc_function call = Some f \<and> rf_name f = Some name \<and> name \<noteq> [] \<and>
        dict_get schemas name = Some schema \<and>
        (case allowed of None \<Rightarrow> True | Some names \<Rightarrow> name \<in> names) \<and>
        rf_arguments f = JStr text \<and>
        json_loads (plain_cfg fl) text = Inr (JObj args) \<and>
        iter_errors (schema_parameters schema) args = [])"

lemma sort_key_Nil_iff: "sort_key f xs = [] \<longleftrightarrow> xs = []"
  by (metis length_0_conv length_sort)

lemma validate_schema_None:
  "validate_schema iter_errors i n args schema = None \<longleftrightarrow>
     iter_errors (schema_parameters schema) args = []"
  by (auto simp: validate_schema_def sort_key_Nil_iff split: list.splits)

lemma parse_arguments_object:
  "parse_arguments fl i n v = ParsedObject args \<longleftrightarrow>
     (\<exists>text. v = JStr text \<and> json_loads (plain_cfg fl) text = Inr (JObj args))"
  by (auto simp: parse_arguments_def split: json.splits sum.splits json_error.splits)

lemma validate_one_None_iff:
  "validate_one fl iter_errors schemas allowed call = Inr None \<longleftrightarrow>
     call_ok fl iter_errors schemas allowed call"
  by (auto simp: validate_one_def call_ok_def Let_def validate_schema_None parse_arguments_object
      split: option.splits parsed_arguments.splits)
    (simp_all add: parse_arguments_def)

text \<open>A violation carries the identifier of its call, so its feedback message pairs with it.\<close>

lemma validate_one_id:
  "validate_one fl iter_errors schemas allowed call = Inr (Some v) \<Longrightarrow>
   v_tool_call_id v = rc_id call"
  by (auto simp: validate_one_def Let_def violation_of_def validate_schema_def parse_arguments_def
      split: option.splits parsed_arguments.splits json.splits sum.splits json_error.splits
        if_splits list.splits)

lemma validate_valid_ok:
  "validate fl iter_errors schemas allowed raw calls = Inr r \<Longrightarrow> c \<in> set (vr_valid_calls r) \<Longrightarrow>
   c \<in> set calls \<and> call_ok fl iter_errors schemas allowed (raw c)"
  using validate_calls_split [of _ calls r]
  by (auto simp: validate_def validate_one_None_iff)

section \<open>Properties of the validator\<close>

text \<open>
  C21. Validation partitions the calls: the valid ones are exactly those that name a registered and
  routed tool and carry a JSON object without schema errors, in their order, and every other call
  has one violation, in order and under its own identifier.
\<close>

theorem validation_partitions:
  assumes "validate fl iter_errors schemas allowed raw calls = Inr r"
  shows "vr_valid_calls r = filter (\<lambda>c. call_ok fl iter_errors schemas allowed (raw c)) calls \<and>
    map v_tool_call_id (vr_violations r) =
      map (\<lambda>c. rc_id (raw c))
        (filter (\<lambda>c. \<not> call_ok fl iter_errors schemas allowed (raw c)) calls)"
proof -
  let ?check = "\<lambda>c. validate_one fl iter_errors schemas allowed (raw c)"
  let ?bad = "filter (\<lambda>c. ?check c \<noteq> Inr None) calls"
  note split = validate_calls_split [OF assms [unfolded validate_def]]
  have ok: "?check c = Inr None \<longleftrightarrow> call_ok fl iter_errors schemas allowed (raw c)" for c
    by (rule validate_one_None_iff)
  have "map (\<lambda>c. v_tool_call_id (the (projr (?check c)))) ?bad = map (\<lambda>c. rc_id (raw c)) ?bad"
  proof (rule map_cong [OF refl])
    fix c assume c: "c \<in> set ?bad"
    with split obtain v where "?check c = Inr (Some v)" by fastforce
    then show "v_tool_call_id (the (projr (?check c))) = rc_id (raw c)"
      using validate_one_id by simp
  qed
  moreover have "map v_tool_call_id (vr_violations r) =
      map (\<lambda>v. v_tool_call_id (the v)) (map Some (vr_violations r))" by (simp add: o_def)
  ultimately have "map v_tool_call_id (vr_violations r) = map (\<lambda>c. rc_id (raw c)) ?bad"
    using split by (simp add: o_def)
  with split show ?thesis by (simp add: ok)
qed

definition sample_raw :: "string \<Rightarrow> string \<Rightarrow> string \<Rightarrow> raw_call" where
  "sample_raw i name args =
     \<lparr>rc_id = lit i,
      rc_function = Some \<lparr>rf_name = Some (lit name), rf_arguments = JStr (lit args)\<rparr>\<rparr>"

definition sample_calls :: "raw_call list" where
  "sample_calls =
     [sample_raw ''1'' ''f'' ''{}'', sample_raw ''2'' ''g'' ''{}'', sample_raw ''3'' ''f'' ''[]'',
      sample_raw ''4'' ''h'' ''{}'']"

theorem validation_partitions_witness:
  "\<exists>r. validate sample_text (\<lambda>_ _. []) [(lit ''f'', JNull), (lit ''g'', JNull)] (Some {lit ''f''})
        (\<lambda>c. c) sample_calls = Inr r \<and>
      map rc_id (vr_valid_calls r) = [lit ''1''] \<and>
      filter (\<lambda>c. call_ok sample_text (\<lambda>_ _. []) [(lit ''f'', JNull), (lit ''g'', JNull)]
        (Some {lit ''f''}) c) sample_calls = vr_valid_calls r \<and>
      map v_reason (vr_violations r) = [ToolNotRouted, InvalidArguments, UnknownTool]"
proof -
  let ?v = "validate sample_text (\<lambda>_ _. []) [(lit ''f'', JNull), (lit ''g'', JNull)]
      (Some {lit ''f''}) (\<lambda>c. c) sample_calls"
  have *: "map_sum (\<lambda>_. ()) (\<lambda>r. (map rc_id (vr_valid_calls r), map v_reason (vr_violations r))) ?v =
      Inr ([lit ''1''], [ToolNotRouted, InvalidArguments, UnknownTool])"
    by code_simp
  then obtain r where "?v = Inr r" by (cases ?v) auto
  with * validation_partitions [OF this] show ?thesis by simp
qed

end
