(* ===== verification/Buffer_Memory.thy ===== *)
theory Buffer_Memory
  imports Agent_Errors "HOL-Library.Sublist"
begin

text \<open>
  \<open>memory/token_counter.py\<close> and \<open>memory/short_term.py\<close>: chat messages, their token counts, and
  the sliding window \<open>BufferMemory\<close> that evicts whole turns when the budget is exceeded. The
  tokenizer (\<open>tiktoken\<close>) is the parameter \<open>enc\<close>, the number of tokens of a text.
\<close>

section \<open>Messages\<close>

text \<open>
  A chat message with the fields the program reads; a missing \<open>name\<close> or \<open>tool_call_id\<close> is the
  empty text, as \<open>message.get(key, "")\<close> reads it, and a missing or null \<open>content\<close> is \<open>None\<close>.
\<close>

record tool_call =
  tc_id :: pystr
  tc_name :: pystr
  tc_arguments :: pystr

record message =
  m_role :: pystr
  m_content :: "pystr option"
  m_name :: pystr
  m_tool_call_id :: pystr
  m_tool_calls :: "tool_call list"

definition text_message :: "string \<Rightarrow> pystr \<Rightarrow> message" where
  "text_message role content =
     \<lparr>m_role = lit role, m_content = Some content, m_name = [], m_tool_call_id = [],
      m_tool_calls = []\<rparr>"

definition tool_message :: "pystr \<Rightarrow> pystr \<Rightarrow> pystr \<Rightarrow> message" where
  "tool_message call_id name content =
     \<lparr>m_role = lit ''tool'', m_content = Some content, m_name = name, m_tool_call_id = call_id,
      m_tool_calls = []\<rparr>"

definition is_tool :: "message \<Rightarrow> bool" where
  "is_tool m \<longleftrightarrow> m_role m = lit ''tool''"

definition has_calls :: "message \<Rightarrow> bool" where
  "has_calls m \<longleftrightarrow> m_role m = lit ''assistant'' \<and> m_tool_calls m \<noteq> []"

lemma has_calls_not_tool [simp]: "has_calls m \<Longrightarrow> \<not> is_tool m"
  by (simp add: has_calls_def is_tool_def)

lemma tool_message_simps [simp]:
  "is_tool (tool_message i n c)" "m_tool_call_id (tool_message i n c) = i"
  "m_role (tool_message i n c) = lit ''tool''" "m_tool_calls (tool_message i n c) = []"
  by (simp_all add: tool_message_def is_tool_def)

lemma text_message_simps [simp]:
  "m_role (text_message r c) = lit r" "m_tool_calls (text_message r c) = []"
  "m_content (text_message r c) = Some c"
  "\<not> has_calls (text_message r c)" "is_tool (text_message r c) \<longleftrightarrow> r = ''tool''"
  by (simp_all add: text_message_def is_tool_def has_calls_def)

section \<open>Token counts\<close>

definition count_text :: "(pystr \<Rightarrow> nat) \<Rightarrow> pystr \<Rightarrow> int" where
  "count_text enc text = (if text = [] then 0 else int (enc text))"

text \<open>The loop over \<open>tool_calls\<close> subtracts one for each call before adding its two texts.\<close>

fun count_tool_calls :: "(pystr \<Rightarrow> nat) \<Rightarrow> int \<Rightarrow> tool_call list \<Rightarrow> int" where
  "count_tool_calls enc n [] = n"
| "count_tool_calls enc n (tc # tcs) =
     count_tool_calls enc
       (n - 1 + count_text enc (tc_name tc) + count_text enc (tc_arguments tc)) tcs"

definition count_message :: "(pystr \<Rightarrow> nat) \<Rightarrow> message \<Rightarrow> int" where
  "count_message enc m =
     count_tool_calls enc
       (4 + count_text enc (m_role m)
          + (case m_content m of None \<Rightarrow> 0 | Some c \<Rightarrow> count_text enc c)
          + count_text enc (m_name m))
       (m_tool_calls m)
     + count_text enc (m_tool_call_id m)"

definition count_messages :: "(pystr \<Rightarrow> nat) \<Rightarrow> message list \<Rightarrow> int" where
  "count_messages enc ms =
     (if ms = [] then 0 else sum_list (map (count_message enc) ms) + 3)"

text \<open>
  A non-empty text has at least one token (a property of every byte-pair encoding), and a call
  the API returns has a name: then no count is negative.
\<close>

definition named_calls :: "message \<Rightarrow> bool" where
  "named_calls m \<longleftrightarrow> (\<forall>tc\<in>set (m_tool_calls m). tc_name tc \<noteq> [])"

definition tokenizer_ok :: "(pystr \<Rightarrow> nat) \<Rightarrow> bool" where
  "tokenizer_ok enc \<longleftrightarrow> (\<forall>s. s \<noteq> [] \<longrightarrow> 0 < enc s)"

lemma count_text_nonneg [simp]: "0 \<le> count_text enc s"
  by (simp add: count_text_def)

lemma count_tool_calls_mono:
  assumes "tokenizer_ok enc" "\<forall>tc\<in>set tcs. tc_name tc \<noteq> []"
  shows "n \<le> count_tool_calls enc n tcs"
  using assms(2)
proof (induction tcs arbitrary: n)
  case (Cons tc tcs)
  then have "1 \<le> count_text enc (tc_name tc)"
    using assms(1) by (auto simp: count_text_def tokenizer_ok_def Suc_le_eq)
  then have "n \<le> n - 1 + count_text enc (tc_name tc) + count_text enc (tc_arguments tc)"
    using count_text_nonneg [of enc "tc_arguments tc"] by linarith
  also have "\<dots> \<le> count_tool_calls enc (n - 1 + count_text enc (tc_name tc) +
      count_text enc (tc_arguments tc)) tcs"
    using Cons by simp
  finally show ?case by simp
qed simp

lemma count_message_pos:
  assumes "tokenizer_ok enc" "named_calls m"
  shows "4 \<le> count_message enc m"
proof -
  have "4 \<le> 4 + count_text enc (m_role m)
      + (case m_content m of None \<Rightarrow> 0 | Some c \<Rightarrow> count_text enc c) + count_text enc (m_name m)"
    by (simp add: add_nonneg_nonneg split: option.splits)
  also have "\<dots> \<le> count_tool_calls enc \<dots> (m_tool_calls m)"
    by (rule count_tool_calls_mono) (use assms in \<open>simp_all add: named_calls_def\<close>)
  finally show ?thesis
    unfolding count_message_def by (rule add_increasing2 [OF count_text_nonneg])
qed

section \<open>BufferMemory\<close>

record buffer_memory =
  bm_system :: "message option"
  bm_messages :: "message list"
  bm_max_tokens :: int
  bm_total_tokens :: int

definition system_tokens :: "(pystr \<Rightarrow> nat) \<Rightarrow> message option \<Rightarrow> int" where
  "system_tokens enc sys = (case sys of None \<Rightarrow> 0 | Some m \<Rightarrow> count_message enc m)"

definition bm_new :: "(pystr \<Rightarrow> nat) \<Rightarrow> message option \<Rightarrow> int \<Rightarrow> buffer_memory" where
  "bm_new enc sys max_tokens =
     \<lparr>bm_system = sys, bm_messages = [], bm_max_tokens = max_tokens,
      bm_total_tokens = system_tokens enc sys\<rparr>"

definition get_context :: "buffer_memory \<Rightarrow> message list" where
  "get_context b = (case bm_system b of None \<Rightarrow> [] | Some m \<Rightarrow> [m]) @ bm_messages b"

definition bm_clear :: "(pystr \<Rightarrow> nat) \<Rightarrow> buffer_memory \<Rightarrow> buffer_memory" where
  "bm_clear enc b = b\<lparr>bm_messages := [], bm_total_tokens := system_tokens enc (bm_system b)\<rparr>"

text \<open>
  \<open>_count_turn_block_size\<close>: a message with tool calls and the tool results after it are one
  block, any other message is a block by itself.
\<close>

definition turn_block_size :: "message list \<Rightarrow> nat \<Rightarrow> nat" where
  "turn_block_size ms start_idx =
     (if has_calls (ms ! start_idx)
      then 1 + length (takeWhile is_tool (drop (Suc start_idx) ms)) else 1)"

lemma turn_block_size_pos [simp]: "0 < turn_block_size ms i"
  by (simp add: turn_block_size_def)

text \<open>One pass of the loop of \<open>_trim\<close>: drop the oldest block and its tokens.\<close>

definition evict :: "(pystr \<Rightarrow> nat) \<Rightarrow> buffer_memory \<Rightarrow> buffer_memory" where
  "evict enc b =
     (let block_size = turn_block_size (bm_messages b) 0 in
      b\<lparr>bm_messages := drop block_size (bm_messages b),
        bm_total_tokens := bm_total_tokens b
          - sum_list (map (count_message enc) (take block_size (bm_messages b)))\<rparr>)"

function trim :: "(pystr \<Rightarrow> nat) \<Rightarrow> buffer_memory \<Rightarrow> buffer_memory" where
  "trim enc b =
     (if bm_max_tokens b < bm_total_tokens b \<and> 1 < length (bm_messages b) then
        (if length (bm_messages b) \<le> turn_block_size (bm_messages b) 0 then b
         else trim enc (evict enc b))
      else b)"
  by pat_completeness auto
termination
  by (relation "measure (\<lambda>(enc, b). length (bm_messages b))")
    (auto simp: evict_def Let_def intro!: diff_less)

declare trim.simps [simp del]

definition add_message :: "(pystr \<Rightarrow> nat) \<Rightarrow> message \<Rightarrow> buffer_memory \<Rightarrow> buffer_memory" where
  "add_message enc m b =
     trim enc (b\<lparr>bm_messages := bm_messages b @ [m],
                 bm_total_tokens := bm_total_tokens b + count_message enc m\<rparr>)"

section \<open>The window\<close>

text \<open>
  What a stopped trim looks like: within budget, or only one block left (a single message or a
  turn that is still open).
\<close>

definition window_settled :: "buffer_memory \<Rightarrow> bool" where
  "window_settled b \<longleftrightarrow>
     bm_total_tokens b \<le> bm_max_tokens b \<or> length (bm_messages b) \<le> 1 \<or>
     length (bm_messages b) \<le> turn_block_size (bm_messages b) 0"

text \<open>The counter agrees with the content.\<close>

definition tokens_exact :: "(pystr \<Rightarrow> nat) \<Rightarrow> buffer_memory \<Rightarrow> bool" where
  "tokens_exact enc b \<longleftrightarrow>
     bm_total_tokens b =
       system_tokens enc (bm_system b) + sum_list (map (count_message enc) (bm_messages b))"

text \<open>
  Every tool message answers a call of the assistant message that opens its block. This is the
  pairing the chat API requires of a request.
\<close>

fun paired_from :: "pystr list \<Rightarrow> message list \<Rightarrow> bool" where
  "paired_from open_ids [] = True"
| "paired_from open_ids (m # ms) =
     (if is_tool m then m_tool_call_id m \<in> set open_ids \<and> paired_from open_ids ms
      else paired_from (if has_calls m then map tc_id (m_tool_calls m) else []) ms)"

definition paired :: "message list \<Rightarrow> bool" where
  "paired ms = paired_from [] ms"

named_theorems bm_facts \<open>facts about the operations of the window\<close>

lemma trim_unfold: "trim enc b = (if window_settled b then b else trim enc (evict enc b))"
  by (subst trim.simps) (auto simp: window_settled_def)

lemma trim_stop: "window_settled b \<Longrightarrow> trim enc b = b"
  by (subst trim_unfold) simp

text \<open>A trim stops settled, and keeps whatever one eviction keeps.\<close>

lemma trim_settled: "window_settled (trim enc b)"
proof (induction enc b rule: trim.induct)
  case (1 enc b)
  then show ?case
    by (subst trim_unfold) (auto simp: window_settled_def)
qed

lemma trim_keeps:
  assumes "\<And>b. \<not> window_settled b \<Longrightarrow> P b \<Longrightarrow> P (evict enc b)" "P b"
  shows "P (trim enc b)"
  using assms
proof (induction enc b rule: trim.induct)
  case (1 enc b)
  show ?case
  proof (cases "window_settled b")
    case True
    with "1.prems"(2) show ?thesis by (subst trim_unfold) simp
  next
    case False
    then have "P (trim enc (evict enc b))"
      using "1.IH" "1.prems" by (auto simp: window_settled_def)
    with False show ?thesis by (subst trim_unfold) simp
  qed
qed

lemma evict_frame [simp]:
  "bm_system (evict enc b) = bm_system b" "bm_max_tokens (evict enc b) = bm_max_tokens b"
  "bm_messages (evict enc b) = drop (turn_block_size (bm_messages b) 0) (bm_messages b)"
  by (simp_all add: evict_def Let_def)

lemma trim_frame [simp, bm_facts]:
  "bm_system (trim enc b) = bm_system b" "bm_max_tokens (trim enc b) = bm_max_tokens b"
  by (rule trim_keeps; simp)+

lemma trim_suffix: "suffix (bm_messages (trim enc b)) (bm_messages b)"
  by (rule trim_keeps) (auto intro: suffix_order.trans [OF suffix_drop])

lemma evict_nonempty: "\<not> window_settled b \<Longrightarrow> bm_messages (evict enc b) \<noteq> []"
  by (auto simp: window_settled_def)

lemma trim_nonempty: "bm_messages b \<noteq> [] \<Longrightarrow> bm_messages (trim enc b) \<noteq> []"
  by (rule trim_keeps [where P = "\<lambda>b. bm_messages b \<noteq> []"]) (rule evict_nonempty)

lemma evict_tokens_exact: "tokens_exact enc b \<Longrightarrow> tokens_exact enc (evict enc b)"
proof -
  let ?n = "turn_block_size (bm_messages b) 0"
  have "sum_list (map (count_message enc) (take ?n (bm_messages b))) +
      sum_list (map (count_message enc) (drop ?n (bm_messages b))) =
      sum_list (map (count_message enc) (bm_messages b))"
    by (metis append_take_drop_id map_append sum_list_append)
  then show "tokens_exact enc b \<Longrightarrow> tokens_exact enc (evict enc b)"
    by (simp add: tokens_exact_def evict_def Let_def)
qed

lemma trim_tokens_exact [bm_facts]: "tokens_exact enc b \<Longrightarrow> tokens_exact enc (trim enc b)"
  by (rule trim_keeps) (rule evict_tokens_exact)

text \<open>Dropping a whole block keeps the pairing.\<close>

lemma paired_from_dropWhile_tools:
  "paired_from ids ms \<Longrightarrow> paired_from ids' (dropWhile is_tool ms)"
  by (induction ms) auto

lemma paired_evict:
  assumes "paired ms" "ms \<noteq> []"
  shows "paired (drop (turn_block_size ms 0) ms)"
proof -
  obtain m rest where ms: "ms = m # rest" using assms(2) by (cases ms) auto
  with assms(1) have nt: "\<not> is_tool m" by (auto simp: paired_def)
  show ?thesis
  proof (cases "has_calls m")
    case True
    with assms(1) ms have "paired_from (map tc_id (m_tool_calls m)) rest"
      by (simp add: paired_def)
    then have "paired_from [] (dropWhile is_tool rest)" by (rule paired_from_dropWhile_tools)
    with True ms show ?thesis by (simp add: paired_def turn_block_size_def dropWhile_eq_drop)
  next
    case False
    with nt assms(1) ms show ?thesis by (simp add: paired_def turn_block_size_def)
  qed
qed

lemma trim_paired [bm_facts]: "paired (bm_messages b) \<Longrightarrow> paired (bm_messages (trim enc b))"
  by (rule trim_keeps) (auto simp: window_settled_def intro!: paired_evict)

section \<open>add_message\<close>

lemma add_message_frame [simp, bm_facts]:
  "bm_system (add_message enc m b) = bm_system b"
  "bm_max_tokens (add_message enc m b) = bm_max_tokens b"
  by (simp_all add: add_message_def)

lemma add_message_settled [bm_facts]: "window_settled (add_message enc m b)"
  by (simp add: add_message_def trim_settled)

lemma add_message_suffix [bm_facts]:
  "suffix (bm_messages (add_message enc m b)) (bm_messages b @ [m])"
  unfolding add_message_def by (rule suffix_order.trans [OF trim_suffix]) simp

lemma add_message_nonempty [simp, bm_facts]: "bm_messages (add_message enc m b) \<noteq> []"
  by (simp add: add_message_def trim_nonempty)

lemma add_message_last [simp, bm_facts]: "last (bm_messages (add_message enc m b)) = m"
proof -
  obtain zs where zs: "bm_messages b @ [m] = zs @ bm_messages (add_message enc m b)"
    using add_message_suffix [of enc m b] by (auto simp: suffix_def)
  then show ?thesis by (metis add_message_nonempty last_appendR last_snoc)
qed

lemma add_message_tokens_exact [bm_facts]:
  "tokens_exact enc b \<Longrightarrow> tokens_exact enc (add_message enc m b)"
  unfolding add_message_def by (rule trim_tokens_exact) (simp add: tokens_exact_def)

lemma add_message_paired [bm_facts]:
  "paired (bm_messages b @ [m]) \<Longrightarrow> paired (bm_messages (add_message enc m b))"
  unfolding add_message_def by (rule trim_paired) simp

lemma bm_new_tokens_exact [bm_facts]: "tokens_exact enc (bm_new enc sys n)"
  by (simp add: tokens_exact_def bm_new_def)

lemma bm_clear_tokens_exact [bm_facts]: "tokens_exact enc (bm_clear enc b)"
  by (simp add: tokens_exact_def bm_clear_def)

text \<open>A message that fits does not evict anything.\<close>

lemma add_message_fits:
  "bm_total_tokens b + count_message enc m \<le> bm_max_tokens b \<Longrightarrow>
   bm_messages (add_message enc m b) = bm_messages b @ [m]"
  unfolding add_message_def by (subst trim_stop) (simp_all add: window_settled_def)

section \<open>The open turn\<close>

text \<open>
  The identifiers a tool message may answer at the end of a list of messages: those of the calls
  of the last message that is no tool message.
\<close>

definition open_ids :: "message list \<Rightarrow> pystr list" where
  "open_ids ms =
     (case dropWhile is_tool (rev ms) of
        [] \<Rightarrow> []
      | m # _ \<Rightarrow> if has_calls m then map tc_id (m_tool_calls m) else [])"

lemma open_ids_Nil [simp]: "open_ids [] = []"
  by (simp add: open_ids_def)

lemma open_ids_snoc [simp]:
  "open_ids (ms @ [m]) =
     (if is_tool m then open_ids ms
      else if has_calls m then map tc_id (m_tool_calls m) else [])"
  by (simp add: open_ids_def)

lemma open_ids_tools: "\<forall>x\<in>set ms. is_tool x \<Longrightarrow> open_ids ms = []"
proof -
  assume "\<forall>x\<in>set ms. is_tool x"
  then have none: "dropWhile is_tool (rev ms) = []" by simp
  show "open_ids ms = []" unfolding open_ids_def none by simp
qed

lemma open_ids_append:
  "open_ids (xs @ ys) = (if \<forall>y\<in>set ys. is_tool y then open_ids xs else open_ids ys)"
proof (cases "\<forall>y\<in>set ys. is_tool y")
  case True
  then have "dropWhile is_tool (rev ys @ rev xs) = dropWhile is_tool (rev xs)"
    by (intro dropWhile_append2) simp
  with True show ?thesis by (simp add: open_ids_def)
next
  case False
  then obtain y where y: "y \<in> set (rev ys)" "\<not> is_tool y" by auto
  then have "dropWhile is_tool (rev ys @ rev xs) = dropWhile is_tool (rev ys) @ rev xs"
    by (rule dropWhile_append1)
  moreover have "dropWhile is_tool (rev ys) \<noteq> []" using y by auto
  ultimately show ?thesis
    using False by (cases "dropWhile is_tool (rev ys)") (auto simp: open_ids_def)
qed

lemma open_ids_single: "open_ids [m] = (if has_calls m then map tc_id (m_tool_calls m) else [])"
  by (simp add: open_ids_def)

lemma paired_from_snoc:
  "paired_from ids (ms @ [m]) \<longleftrightarrow>
     paired_from ids ms \<and>
     (is_tool m \<longrightarrow>
        m_tool_call_id m \<in> set (if \<forall>x\<in>set ms. is_tool x then ids else open_ids ms))"
proof (induction ids ms rule: paired_from.induct)
  case (2 ids x xs)
  have "open_ids (x # xs) = (if \<forall>y\<in>set xs. is_tool y then open_ids [x] else open_ids xs)"
    using open_ids_append [of "[x]" xs] by simp
  with 2 show ?case by (auto simp: open_ids_single)
qed simp

lemma paired_snoc:
  "paired (ms @ [m]) \<longleftrightarrow> paired ms \<and> (is_tool m \<longrightarrow> m_tool_call_id m \<in> set (open_ids ms))"
  using open_ids_tools [of ms] by (auto simp: paired_def paired_from_snoc)

lemma open_ids_suffix:
  assumes "\<not> window_settled b"
  shows "open_ids (bm_messages (evict enc b)) = open_ids (bm_messages b)"
proof -
  let ?ms = "bm_messages b" and ?n = "turn_block_size (bm_messages b) 0"
  have n: "?n < length ?ms" using assms by (auto simp: window_settled_def)
  have split: "open_ids ?ms = (if \<forall>y\<in>set (drop ?n ?ms). is_tool y then open_ids (take ?n ?ms)
      else open_ids (drop ?n ?ms))"
    using open_ids_append [of "take ?n ?ms" "drop ?n ?ms"] by simp
  show ?thesis
  proof (cases "\<forall>x\<in>set (drop ?n ?ms). is_tool x")
    case False
    with split show ?thesis by simp
  next
    case True
    obtain h t where ms: "?ms = h # t" using n by (cases ?ms) auto
    have nocalls: "\<not> has_calls h"
    proof
      assume h: "has_calls h"
      with ms have eq: "drop ?n ?ms = dropWhile is_tool t"
        by (simp add: turn_block_size_def dropWhile_eq_drop)
      with n have "dropWhile is_tool t \<noteq> []" by (metis drop_eq_Nil not_less)
      then have "\<not> is_tool (hd (dropWhile is_tool t))" by (rule hd_dropWhile)
      with True eq \<open>dropWhile is_tool t \<noteq> []\<close> show False by (metis hd_in_set)
    qed
    then have "take ?n ?ms = [h]" by (simp add: ms turn_block_size_def)
    with nocalls True split show ?thesis by (simp add: open_ids_single open_ids_tools)
  qed
qed

lemma trim_open_ids: "open_ids (bm_messages (trim enc b)) = open_ids (bm_messages b)"
proof (rule trim_keeps [where P = "\<lambda>c. open_ids (bm_messages c) = open_ids (bm_messages b)"])
  fix c :: buffer_memory
  assume "\<not> window_settled c" "open_ids (bm_messages c) = open_ids (bm_messages b)"
  then show "open_ids (bm_messages (evict enc c)) = open_ids (bm_messages b)"
    using open_ids_suffix [of c enc] by simp
qed simp

lemma add_message_open_ids [bm_facts]:
  "open_ids (bm_messages (add_message enc m b)) =
     (if is_tool m then open_ids (bm_messages b)
      else if has_calls m then map tc_id (m_tool_calls m) else [])"
  by (simp add: add_message_def trim_open_ids)

section \<open>Properties of the window\<close>

text \<open>
  Adding a message keeps the newest messages and nothing else: the window is a suffix of what
  it was with the new message at its end, the message itself is never evicted, and eviction has
  stopped only within the budget or at the last block.
\<close>

theorem window_keeps_newest:
  "suffix (bm_messages (add_message enc m b)) (bm_messages b @ [m]) \<and>
   last (bm_messages (add_message enc m b)) = m \<and>
   window_settled (add_message enc m b) \<and> bm_system (add_message enc m b) = bm_system b"
  by (intro conjI add_message_suffix add_message_last add_message_settled add_message_frame)


text \<open>A window with a turn of a call and its result, whose budget the next message exceeds.\<close>

definition sample_window :: buffer_memory where
  "sample_window =
     foldl (\<lambda>b m. add_message length m b) (bm_new length None 40)
       [text_message ''user'' (lit ''hi''),
        \<lparr>m_role = lit ''assistant'', m_content = None, m_name = [], m_tool_call_id = [],
          m_tool_calls = [\<lparr>tc_id = lit ''1'', tc_name = lit ''f'', tc_arguments = lit ''{}''\<rparr>]\<rparr>,
        tool_message (lit ''1'') (lit ''f'') (lit ''ok'')]"


end
