(* ===== verification/Tool_Executor.thy ===== *)
theory Tool_Executor
  imports Tool_Validator Buffer_Memory
begin

text \<open>
  \<open>tools/executor.py\<close>: running a batch of tool calls, one result per call and in call order,
  with the exceptions of a tool turned into failed results.
\<close>

section \<open>Results\<close>

datatype tool_status = Success | Failed

record tool_result =
  tres_call :: tool_call
  tres_status :: tool_status
  tres_content :: "pystr option"
  tres_error :: "pystr option"
  tres_error_type :: "pystr option"

definition failed_result :: "tool_call \<Rightarrow> pystr \<Rightarrow> pystr \<Rightarrow> tool_result" where
  "failed_result tc err err_type =
     \<lparr>tres_call = tc, tres_status = Failed, tres_content = None, tres_error = Some err,
      tres_error_type = Some err_type\<rparr>"

definition success_result :: "tool_call \<Rightarrow> pystr \<Rightarrow> tool_result" where
  "success_result tc content =
     \<lparr>tres_call = tc, tres_status = Success, tres_content = Some content, tres_error = None,
      tres_error_type = None\<rparr>"

lemma result_simps [simp]:
  "tres_call (failed_result tc e t) = tc" "tres_status (failed_result tc e t) = Failed"
  "tres_call (success_result tc c) = tc" "tres_status (success_result tc c) = Success"
  "tres_content (success_result tc c) = Some c"
  by (simp_all add: failed_result_def success_result_def)

definition serialize_tool_result :: "json \<Rightarrow> pystr" where
  "serialize_tool_result content =
     (case content of JStr s \<Rightarrow> s | v \<Rightarrow> json_dumps default_dump v)"

section \<open>One call\<close>

text \<open>
  \<open>_run_one\<close>. \<open>tool.func(**args)\<close> needs a mapping; the exceptions of the function, and of the
  call itself, become the failed result. An integer literal that is too long raises a
  \<open>ValueError\<close> that the JSON handler does not catch, so the call itself raises.
\<close>

fun py_type_name :: "json \<Rightarrow> pystr" where
  "py_type_name JNull = lit ''NoneType''"
| "py_type_name (JBool _) = lit ''bool''"
| "py_type_name (JInt _) = lit ''int''"
| "py_type_name (JFloat _) = lit ''float''"
| "py_type_name (JStr _) = lit ''str''"
| "py_type_name (JArr _) = lit ''list''"
| "py_type_name (JObj _) = lit ''dict''"

definition run_one ::
  "py_text \<Rightarrow> ((pystr, json) dict \<Rightarrow> pystr) \<Rightarrow> tool_registry \<Rightarrow> tool_call \<Rightarrow>
   exn + tool_result" where
  "run_one fl dict_repr reg tc =
     (let name = tc_name tc in
      case get_tool reg name of
        None \<Rightarrow>
          Inr (failed_result tc (lit ''tool '' @ name @ lit '' is not registered or disabled'')
                 (lit ''ToolError''))
      | Some t \<Rightarrow>
          (case json_loads (plain_cfg fl) (tc_arguments tc) of
             Inl JSONDecodeError \<Rightarrow>
               Inr (failed_result tc (lit ''invalid JSON arguments for tool '' @ name @ lit '': '' @
                         pt_json_msg fl (tc_arguments tc))
                      (lit ''ToolError''))
           | Inl JSONValueError \<Rightarrow>
               Inl (exn_of PyValueError
                      ''Exceeds the limit (4300 digits) for integer string conversion'')
           | Inr (JObj args) \<Rightarrow>
               (case t_func t args of
                  Returned v \<Rightarrow> Inr (success_result tc (serialize_tool_result v))
                | Raised e \<Rightarrow>
                    (if is_exception (exn_class e)
                     then Inr (failed_result tc (exn_str dict_repr e) (class_name (exn_class e)))
                     else Inl e))
           | Inr v \<Rightarrow>
               Inr (failed_result tc
                      (t_func_label t @ lit ''() argument after ** must be a mapping, not '' @
                       py_type_name v)
                      (lit ''TypeError''))))"

section \<open>A batch\<close>

datatype execution_mode = Serial | Parallel

text \<open>
  Serial execution stops at the first call that raises. \<open>asyncio.gather\<close> keeps the order of its
  arguments and raises when a call raises; the model reports the first in call order.
\<close>

fun run_all :: "(tool_call \<Rightarrow> exn + tool_result) \<Rightarrow> tool_call list \<Rightarrow> exn + tool_result list" where
  "run_all run [] = Inr []"
| "run_all run (tc # tcs) =
     (case run tc of
        Inl e \<Rightarrow> Inl e
      | Inr r \<Rightarrow> rmap (\<lambda>rs. r # rs) (run_all run tcs))"

definition execute_calls ::
  "py_text \<Rightarrow> ((pystr, json) dict \<Rightarrow> pystr) \<Rightarrow> tool_registry \<Rightarrow> tool_call list \<Rightarrow>
   exn + tool_result list" where
  "execute_calls fl dict_repr reg tcs = run_all (run_one fl dict_repr reg) tcs"

lemma run_one_call: "run_one fl dr reg tc = Inr r \<Longrightarrow> tres_call r = tc"
  by (auto simp: run_one_def Let_def split: option.splits sum.splits json_error.splits
      json.splits outcome.splits if_splits)

lemma run_all_calls:
  assumes "\<And>tc r. run tc = Inr r \<Longrightarrow> tres_call r = tc" "run_all run tcs = Inr rs"
  shows "map tres_call rs = tcs"
  using assms(2)
proof (induction tcs arbitrary: rs)
  case (Cons tc tcs)
  then show ?case using assms(1) by (auto split: sum.splits)
qed simp

lemma run_all_nth:
  "run_all run tcs = Inr rs \<Longrightarrow> list_all2 (\<lambda>tc r. run tc = Inr r) tcs rs"
proof (induction tcs arbitrary: rs)
  case (Cons tc tcs)
  then show ?case by (auto split: sum.splits)
qed simp

lemma execute_calls_order: "execute_calls fl dr reg tcs = Inr rs \<Longrightarrow> map tres_call rs = tcs"
  unfolding execute_calls_def by (rule run_all_calls [OF run_one_call])

text \<open>
  The only exceptions that leave the executor: a \<open>BaseException\<close> of a tool, or an integer
  literal beyond the conversion limit.
\<close>

lemma run_one_error:
  assumes "run_one fl dr reg tc = Inl e"
  shows "\<not> is_exception (exn_class e) \<or>
    json_loads (plain_cfg fl) (tc_arguments tc) = Inl JSONValueError \<and> exn_class e = PyValueError"
  using assms
  by (auto simp: run_one_def Let_def split: option.splits sum.splits json_error.splits
      json.splits outcome.splits if_splits)

lemma run_all_error: "run_all run tcs = Inl e \<Longrightarrow> \<exists>tc\<in>set tcs. run tc = Inl e"
  by (induction tcs) (auto split: sum.splits)

text \<open>
  A call that passed validation against the registry's schemas, in a registry that still
  enables the tool, reaches the tool's function with the parsed arguments.
\<close>

lemma run_one_valid:
  assumes "get_tool reg (tc_name tc) = Some t"
    and "json_loads (plain_cfg fl) (tc_arguments tc) = Inr (JObj args)"
  shows "run_one fl dr reg tc =
    (case t_func t args of
       Returned v \<Rightarrow> Inr (success_result tc (serialize_tool_result v))
     | Raised e \<Rightarrow>
         if is_exception (exn_class e)
         then Inr (failed_result tc (exn_str dr e) (class_name (exn_class e))) else Inl e)"
  using assms by (simp add: run_one_def)

text \<open>The view the validator has of a typed tool call.\<close>

definition raw_of :: "tool_call \<Rightarrow> raw_call" where
  "raw_of tc =
     \<lparr>rc_id = tc_id tc,
      rc_function = Some \<lparr>rf_name = Some (tc_name tc), rf_arguments = JStr (tc_arguments tc)\<rparr>\<rparr>"

lemma call_ok_raw:
  "call_ok fl ie schemas allowed (raw_of tc) \<longleftrightarrow>
     (\<exists>schema args. tc_name tc \<noteq> [] \<and> dict_get schemas (tc_name tc) = Some schema \<and>
        (case allowed of None \<Rightarrow> True | Some names \<Rightarrow> tc_name tc \<in> names) \<and>
        json_loads (plain_cfg fl) (tc_arguments tc) = Inr (JObj args) \<and>
        ie (schema_parameters schema) args = [])"
  by (auto simp: call_ok_def raw_of_def)

section \<open>Properties of the executor\<close>

text \<open>
  A batch gives one result for each call, in the order of the calls, and each is the result of
  running its call alone.
\<close>

theorem batch_in_order:
  assumes "execute_calls fl dr reg tcs = Inr rs"
  shows "map tres_call rs = tcs \<and> list_all2 (\<lambda>tc r. run_one fl dr reg tc = Inr r) tcs rs"
  using execute_calls_order [OF assms] run_all_nth [OF assms [unfolded execute_calls_def]] by simp

text \<open>A registry with a tool that answers and one that raises.\<close>

definition two_tools :: tool_registry where
  "two_tools =
     \<lparr>tr_tools =
        [(lit ''ok'', \<lparr>t_name = lit ''ok'', t_description = [], t_parameters = JNull,
            t_func = (\<lambda>_. Returned (JInt 7)), t_func_label = []\<rparr>),
         (lit ''bad'', \<lparr>t_name = lit ''bad'', t_description = [], t_parameters = JNull,
            t_func = (\<lambda>_. Raised (exn_of PyValueError ''no'')), t_func_label = []\<rparr>)],
      tr_disabled = {}\<rparr>"

definition three_calls :: "tool_call list" where
  "three_calls =
     map (\<lambda>n. \<lparr>tc_id = lit n, tc_name = lit n, tc_arguments = lit ''{}''\<rparr>)
       [''bad'', ''ok'', ''none'']"

lemma three_calls_run:
  "map_sum (\<lambda>_. ()) (map (\<lambda>r. (tres_status r, tres_content r, tres_error_type r)))
     (execute_calls sample_text (\<lambda>_. []) two_tools three_calls) =
   Inr [(Failed, None, Some (lit ''ValueError'')), (Success, Some (lit ''7''), None),
        (Failed, None, Some (lit ''ToolError''))]"
  by code_simp

theorem batch_in_order_witness:
  "\<exists>rs. execute_calls sample_text (\<lambda>_. []) two_tools three_calls = Inr rs \<and>
     map (\<lambda>r. tc_name (tres_call r)) rs = [lit ''bad'', lit ''ok'', lit ''none''] \<and>
     map tres_status rs = [Failed, Success, Failed]"
proof -
  let ?e = "execute_calls sample_text (\<lambda>_. []) two_tools three_calls"
  obtain rs where rs: "?e = Inr rs" using three_calls_run by (cases ?e) auto
  from arg_cong [OF three_calls_run, of "map_sum id (map fst)"] rs
  have "map tres_status rs = [Failed, Success, Failed]" by (simp add: o_def)
  moreover have "map (\<lambda>r. tc_name (tres_call r)) rs = map tc_name three_calls"
    using batch_in_order [OF rs] by (metis (no_types, lifting) comp_apply map_cong map_map)
  ultimately show ?thesis using rs by (simp add: three_calls_def)
qed

text \<open>
  A failing tool does not fail the batch: a call raises out of the executor only for a
  \<open>BaseException\<close> of the tool (a cancellation) or an integer literal in the arguments with more
  digits than Python converts.
\<close>

theorem tool_failures_contained:
  assumes "execute_calls fl dr reg tcs = Inl e"
  shows "\<exists>tc\<in>set tcs. \<not> is_exception (exn_class e) \<or>
    json_loads (plain_cfg fl) (tc_arguments tc) = Inl JSONValueError \<and> exn_class e = PyValueError"
  using run_all_error [OF assms [unfolded execute_calls_def]] run_one_error by blast

theorem tool_failures_contained_witness:
  "\<exists>e. execute_calls sample_text (\<lambda>_. [])
      (two_tools\<lparr>tr_tools := [(lit ''ok'', \<lparr>t_name = lit ''ok'', t_description = [],
         t_parameters = JNull,
         t_func = (\<lambda>_. Raised (exn_of PyCancelledError [])), t_func_label = []\<rparr>)]\<rparr>)
      [\<lparr>tc_id = [], tc_name = lit ''ok'', tc_arguments = lit ''{}''\<rparr>] = Inl e \<and>
     \<not> is_exception (exn_class e)"
proof -
  let ?tc = "\<lparr>tc_id = [], tc_name = lit ''ok'', tc_arguments = lit ''{}''\<rparr>"
  let ?e = "execute_calls sample_text (\<lambda>_. [])
      (two_tools\<lparr>tr_tools := [(lit ''ok'', \<lparr>t_name = lit ''ok'', t_description = [],
         t_parameters = JNull,
         t_func = (\<lambda>_. Raised (exn_of PyCancelledError [])), t_func_label = []\<rparr>)]\<rparr>) [?tc]"
  have "isl ?e" by code_simp
  then obtain e where e: "?e = Inl e" by (cases ?e) auto
  have "json_loads (plain_cfg sample_text) (tc_arguments ?tc) \<noteq> Inl JSONValueError" by code_simp
  with tool_failures_contained [OF e] e show ?thesis by auto
qed

end
