(* ===== verification/Batch_Schedule.thy ===== *)
theory Batch_Schedule
  imports Tool_Executor
begin

text \<open>
  \<open>Executor.execute_calls_async\<close> as it is scheduled: in parallel mode every call is a task of
  \<open>asyncio.gather\<close> that takes a permit of a semaphore of \<open>max_workers\<close> permits, runs \<open>_run_one\<close> in
  a thread and gives the permit back. The tasks interleave in any order; the plain function
  \<open>execute_calls\<close> of \<open>Tool_Executor\<close> is the specification.
\<close>

section \<open>Tasks of a batch\<close>

datatype call_state = Queued | Running | Done "exn + tool_result"

type_synonym call_run = "tool_call \<Rightarrow> exn + tool_result"

definition running :: "call_state list \<Rightarrow> nat" where
  "running st = length (filter (\<lambda>s. s = Running) st)"

definition all_done :: "call_state list \<Rightarrow> bool" where
  "all_done st \<longleftrightarrow> (\<forall>s\<in>set st. s \<noteq> Queued \<and> s \<noteq> Running)"

definition queued_batch :: "tool_call list \<Rightarrow> call_state list" where
  "queued_batch tcs = map (\<lambda>_. Queued) tcs"

text \<open>A task gets a permit, and a task ends.\<close>

inductive batch_step ::
  "call_run \<Rightarrow> int \<Rightarrow> tool_call list \<Rightarrow> call_state list \<Rightarrow> call_state list \<Rightarrow> bool"
  for run permits tcs where
  start: "\<lbrakk>i < length st; st ! i = Queued; int (running st) < permits\<rbrakk> \<Longrightarrow>
    batch_step run permits tcs st (st[i := Running])"
| finish: "\<lbrakk>i < length st; st ! i = Running\<rbrakk> \<Longrightarrow>
    batch_step run permits tcs st (st[i := Done (run (tcs ! i))])"

inductive batch_reach ::
  "call_run \<Rightarrow> int \<Rightarrow> tool_call list \<Rightarrow> call_state list \<Rightarrow> bool" for run permits tcs where
  batch_init: "batch_reach run permits tcs (queued_batch tcs)"
| batch_next: "batch_reach run permits tcs st \<Longrightarrow> batch_step run permits tcs st st' \<Longrightarrow>
    batch_reach run permits tcs st'"

inductive_cases batch_stepE: "batch_step run permits tcs st st'"

text \<open>The results \<open>gather\<close> hands over when every task has one, in the order of its arguments.\<close>

fun gathered :: "call_state list \<Rightarrow> tool_result list option" where
  "gathered [] = Some []"
| "gathered (Done (Inr r) # st) = map_option (\<lambda>rs. r # rs) (gathered st)"
| "gathered (_ # st) = None"

record executor =
  ex_registry :: tool_registry
  ex_mode :: execution_mode
  ex_max_workers :: int

definition negative_semaphore :: exn where
  "negative_semaphore = exn_of PyValueError ''Semaphore initial value must be >= 0''"

text \<open>
  What a call of \<open>execute_calls_async\<close> may return. \<open>gather\<close> raises as soon as one of its tasks
  has raised, whatever the others do.
\<close>

inductive execute_returns ::
  "py_text \<Rightarrow> ((pystr, json) dict \<Rightarrow> pystr) \<Rightarrow> executor \<Rightarrow> tool_call list \<Rightarrow>
   (exn + tool_result list) \<Rightarrow> bool" for fl dr ex where
  no_calls: "execute_returns fl dr ex [] (Inr [])"
| serial: "\<lbrakk>tcs \<noteq> []; ex_mode ex = Serial\<rbrakk> \<Longrightarrow>
    execute_returns fl dr ex tcs (run_all (run_one fl dr (ex_registry ex)) tcs)"
| no_semaphore: "\<lbrakk>tcs \<noteq> []; ex_mode ex = Parallel; ex_max_workers ex < 0\<rbrakk> \<Longrightarrow>
    execute_returns fl dr ex tcs (Inl negative_semaphore)"
| all_results: "\<lbrakk>tcs \<noteq> []; ex_mode ex = Parallel; 0 \<le> ex_max_workers ex;
    batch_reach (run_one fl dr (ex_registry ex)) (ex_max_workers ex) tcs st;
    gathered st = Some rs\<rbrakk> \<Longrightarrow> execute_returns fl dr ex tcs (Inr rs)"
| one_raised: "\<lbrakk>tcs \<noteq> []; ex_mode ex = Parallel; 0 \<le> ex_max_workers ex;
    batch_reach (run_one fl dr (ex_registry ex)) (ex_max_workers ex) tcs st;
    Done (Inl e) \<in> set st\<rbrakk> \<Longrightarrow> execute_returns fl dr ex tcs (Inl e)"

inductive_cases execute_returnsE: "execute_returns fl dr ex tcs res"

section \<open>Invariant\<close>

definition batch_ok :: "call_run \<Rightarrow> int \<Rightarrow> tool_call list \<Rightarrow> call_state list \<Rightarrow> bool" where
  "batch_ok run permits tcs st \<longleftrightarrow>
     length st = length tcs \<and> int (running st) \<le> max 0 permits \<and>
     (\<forall>i r. i < length st \<longrightarrow> st ! i = Done r \<longrightarrow> r = run (tcs ! i))"

lemma running_Cons: "running (s # st) = (if s = Running then 1 else 0) + running st"
  by (simp add: running_def)

lemma running_update:
  "i < length st \<Longrightarrow>
   int (running (st[i := s])) =
     int (running st) + (if s = Running then 1 else 0) - (if st ! i = Running then 1 else 0)"
proof (induction st arbitrary: i)
  case (Cons x st)
  then show ?case by (cases i) (auto simp: running_Cons)
qed simp

lemma batch_step_ok:
  assumes "batch_step run permits tcs st st'" "batch_ok run permits tcs st"
  shows "batch_ok run permits tcs st'"
  using assms(1)
proof cases
  case (start i)
  then show ?thesis
    using assms(2) running_update [of i st Running]
    by (auto simp: batch_ok_def nth_list_update)
next
  case (finish i)
  then show ?thesis
    using assms(2) running_update [of i st "Done (run (tcs ! i))"]
    by (auto simp: batch_ok_def nth_list_update)
qed

lemma batch_reach_ok: "batch_reach run permits tcs st \<Longrightarrow> batch_ok run permits tcs st"
proof (induction rule: batch_reach.induct)
  case batch_init
  show ?case by (simp add: batch_ok_def queued_batch_def running_def filter_empty_conv)
qed (rule batch_step_ok)

section \<open>Every schedule ends\<close>

fun state_work :: "call_state \<Rightarrow> nat" where
  "state_work Queued = 2"
| "state_work Running = 1"
| "state_work (Done r) = 0"

definition work_left :: "call_state list \<Rightarrow> nat" where
  "work_left st = sum_list (map state_work st)"

lemma work_left_update:
  "i < length st \<Longrightarrow> state_work s < state_work (st ! i) \<Longrightarrow> work_left (st[i := s]) < work_left st"
proof (induction st arbitrary: i)
  case (Cons x st)
  then show ?case by (cases i) (auto simp: work_left_def)
qed simp

lemma batch_step_work: "batch_step run permits tcs st st' \<Longrightarrow> work_left st' < work_left st"
  by (erule batch_step.cases) (auto intro: work_left_update)

lemma batch_step_exists:
  assumes "0 < permits" "\<not> all_done st"
  shows "\<exists>st'. batch_step run permits tcs st st'"
proof (cases "Running \<in> set st")
  case True
  then obtain i where "i < length st" "st ! i = Running" by (auto simp: in_set_conv_nth)
  then show ?thesis by (blast intro: batch_step.finish)
next
  case False
  then have "running st = 0" by (auto simp: running_def filter_empty_conv)
  moreover from False assms(2) obtain i where "i < length st" "st ! i = Queued"
    by (auto simp: all_done_def in_set_conv_nth)
  ultimately have "batch_step run permits tcs st (st[i := Running])"
    using assms(1) by (intro batch_step.start) simp_all
  then show ?thesis ..
qed

lemma batch_completes:
  assumes "0 < permits" "batch_reach run permits tcs st"
  shows "\<exists>st'. batch_reach run permits tcs st' \<and> all_done st'"
  using assms(2)
proof (induction "work_left st" arbitrary: st rule: less_induct)
  case less
  show ?case
  proof (cases "all_done st")
    case False
    then obtain st' where "batch_step run permits tcs st st'"
      using batch_step_exists [OF assms(1)] by blast
    with less show ?thesis by (blast dest: batch_step_work intro: batch_next)
  qed (use less.prems in blast)
qed

section \<open>The results\<close>

lemma gathered_Some:
  "gathered st = Some rs \<longleftrightarrow> st = map (\<lambda>r. Done (Inr r)) rs"
  by (induction st arbitrary: rs rule: gathered.induct) (auto simp: map_eq_Cons_conv)

lemma run_all_map:
  "run_all run tcs = Inr rs \<longleftrightarrow> map run tcs = map Inr rs"
  by (induction tcs arbitrary: rs) (auto split: sum.splits simp: map_eq_Cons_conv)

lemma batch_all_done:
  assumes "batch_ok run permits tcs st" "all_done st"
  shows "st = map (\<lambda>tc. Done (run tc)) tcs"
proof (rule nth_equalityI)
  show "length st = length (map (\<lambda>tc. Done (run tc)) tcs)" using assms(1) by (simp add: batch_ok_def)
  fix i assume i: "i < length st"
  then have "st ! i \<noteq> Queued \<and> st ! i \<noteq> Running" using assms(2) by (simp add: all_done_def)
  then obtain r where "st ! i = Done r" by (cases "st ! i") auto
  with assms(1) i show "st ! i = map (\<lambda>tc. Done (run tc)) tcs ! i" by (simp add: batch_ok_def)
qed

lemma gathered_results:
  assumes "batch_ok run permits tcs st" "gathered st = Some rs"
  shows "run_all run tcs = Inr rs"
proof -
  have st: "st = map (\<lambda>r. Done (Inr r)) rs" using assms(2) by (simp add: gathered_Some)
  then have "all_done st" by (auto simp: all_done_def)
  with assms(1) have "st = map (\<lambda>tc. Done (run tc)) tcs" by (rule batch_all_done)
  with st have "map Done (map run tcs) = map Done (map Inr rs)" by (simp add: o_def)
  then have "map run tcs = map Inr rs"
    by (rule map_injective) (simp add: inj_def)
  then show ?thesis by (simp add: run_all_map)
qed

lemma batch_raised:
  assumes "batch_ok run permits tcs st" "Done (Inl e) \<in> set st"
  shows "\<exists>tc\<in>set tcs. run tc = Inl e"
proof -
  obtain i where i: "i < length st" "st ! i = Done (Inl e)"
    using assms(2) by (auto simp: in_set_conv_nth)
  then have "run (tcs ! i) = Inl e" "i < length tcs" using assms(1) by (auto simp: batch_ok_def)
  then show ?thesis by (auto intro: nth_mem)
qed

section \<open>Properties of a batch\<close>





text \<open>
  Without a positive number of workers a batch never returns its results: the constructor
  accepts \<open>max_workers = 0\<close>, and then every call waits for a permit for ever.
\<close>

theorem no_workers_no_results:
  assumes "tcs \<noteq> []" "ex_mode ex = Parallel" "ex_max_workers ex = 0"
  shows "\<not> execute_returns fl dr ex tcs res"
proof -
  have stuck: "st = queued_batch tcs" if "batch_reach run 0 tcs st" for run st
    using that
  proof induction
    case (batch_next st st')
    from batch_next(2) batch_next.IH show ?case
      by cases (auto simp: queued_batch_def)
  qed simp
  have q: "gathered (queued_batch tcs) = None" "Done r \<notin> set (queued_batch tcs)" for r
    using assms(1) by (cases tcs; auto simp: queued_batch_def)+
  show ?thesis
  proof
    assume "execute_returns fl dr ex tcs res"
    then show False
      by cases (use assms stuck q in \<open>auto dest: stuck\<close>)
  qed
qed

theorem no_workers_no_results_witness:
  "\<not> (\<exists>res. execute_returns sample_text (\<lambda>_. [])
     \<lparr>ex_registry = two_tools, ex_mode = Parallel, ex_max_workers = 0\<rparr> three_calls res)"
  using no_workers_no_results [of three_calls
      "\<lparr>ex_registry = two_tools, ex_mode = Parallel, ex_max_workers = 0\<rparr>"]
  by (simp add: three_calls_def)

end
