(* ===== verification/Json_Round_Trip.thy ===== *)
theory Json_Round_Trip
  imports Py_Json
begin

text \<open>
  Reading back what \<open>json.dumps\<close> printed: \<open>json.loads\<close> gives the value again, for every value
  whose floats print as number literals, whose integers are within the digit limit and whose
  objects have unique keys.
\<close>

section \<open>Integers\<close>

lemma nat_digits_props:
  "0 \<le> n \<Longrightarrow> nat_digits n \<noteq> [] \<and> list_all is_digit (nat_digits n) \<and>
     digits_value (nat_digits n) = n \<and> (hd (nat_digits n) = 48 \<longrightarrow> nat_digits n = [48])"
proof (induction n rule: nat_digits.induct)
  case (1 n)
  show ?case
  proof (cases "n < 10")
    case True
    with 1(2) show ?thesis
      by (subst (1 2 3 4 5) nat_digits.simps) (simp add: is_digit_def digits_value_def)
  next
    case False
    then have IH: "nat_digits (n div 10) \<noteq> []" "list_all is_digit (nat_digits (n div 10))"
      "digits_value (nat_digits (n div 10)) = n div 10"
      "hd (nat_digits (n div 10)) = 48 \<Longrightarrow> nat_digits (n div 10) = [48]"
      using 1 by auto
    have "hd (nat_digits (n div 10)) \<noteq> 48"
    proof
      assume "hd (nat_digits (n div 10)) = 48"
      with IH have "n div 10 = digits_value [48]" by metis
      with False 1(2) show False by (simp add: digits_value_def)
    qed
    moreover have "nat_digits n = nat_digits (n div 10) @ [48 + n mod 10]"
      using False by (subst nat_digits.simps) simp
    moreover have "is_digit (48 + n mod 10)"
      using pos_mod_bound [of 10 n] by (simp add: is_digit_def)
    ultimately show ?thesis
      using IH by (simp add: digits_value_def)
  qed
qed

definition int_ok :: "int \<Rightarrow> bool" where
  "int_ok i \<longleftrightarrow> len (nat_digits \<bar>i\<bar>) \<le> max_str_digits"

text \<open>What may follow a value: the end, white space, a comma or a closing bracket.\<close>

definition ends :: "pystr \<Rightarrow> bool" where
  "ends r \<longleftrightarrow> r = [] \<or> json_ws (hd r) \<or> hd r = 44 \<or> hd r = 93 \<or> hd r = 125"

lemma ends_simps [simp]: "ends []" "ends (44 # r)" "ends (93 # r)" "ends (125 # r)"
  by (simp_all add: ends_def)

lemma ends_no_digit: "ends r \<Longrightarrow> takeWhile is_digit r = [] \<and> dropWhile is_digit r = r"
  by (cases r) (auto simp: ends_def is_digit_def json_ws_def)

lemma ends_no_fraction: "ends r \<Longrightarrow> scan_frac r = ([], r) \<and> scan_exp r = ([], r)"
  by (cases r) (auto simp: ends_def scan_frac_def scan_exp_def json_ws_def)

lemma digits_append:
  "list_all is_digit ds \<Longrightarrow> takeWhile is_digit (ds @ r) = ds @ takeWhile is_digit r \<and>
   dropWhile is_digit (ds @ r) = dropWhile is_digit r"
  by (induction ds) auto

lemma scan_int_digits:
  assumes "ds \<noteq> []" "list_all is_digit ds" "hd ds = 48 \<Longrightarrow> ds = [48]"
    and "takeWhile is_digit r = []"
  shows "scan_int_part (ds @ r) = Some (ds, r)"
proof (cases "hd ds = 48")
  case True
  with assms show ?thesis by (simp add: scan_int_part_def)
next
  case False
  have "dropWhile is_digit r = r" using assms(4) by (cases r) (auto split: if_splits)
  with False assms digits_append [OF assms(2), of r] show ?thesis
    by (cases ds) (auto simp: scan_int_part_def)
qed

lemma digit_sign: "list_all is_digit ds \<Longrightarrow> ds \<noteq> [] \<Longrightarrow> scan_sign (ds @ r) = ([], ds @ r)"
  by (cases ds) (auto simp: scan_sign_def is_digit_def)

lemma scan_number_int:
  assumes "int_ok i" "ends r"
  shows "scan_number cfg (int_text i @ r) = Inr (JInt i, r)"
proof -
  let ?ds = "nat_digits \<bar>i\<bar>"
  note ds = nat_digits_props [of "\<bar>i\<bar>", simplified]
  have part: "scan_int_part (?ds @ r) = Some (?ds, r)"
    using ds ends_no_digit [OF assms(2)] by (intro scan_int_digits) auto
  have fin: "scan_frac r = ([], r)" "scan_exp r = ([], r)"
    using ends_no_fraction [OF assms(2)] by auto
  have lim: "\<not> max_str_digits < len ?ds" using assms(1) by (simp add: int_ok_def)
  show ?thesis
  proof (cases "i < 0")
    case True
    then have t: "int_text i = 45 # ?ds" by (simp add: int_text_def)
    have "scan_sign (45 # ?ds @ r) = ([45], ?ds @ r)" by (simp add: scan_sign_def)
    with True t part fin lim ds show ?thesis by (simp add: scan_number_def)
  next
    case False
    then have t: "int_text i = ?ds" by (simp add: int_text_def)
    have "scan_sign (?ds @ r) = ([], ?ds @ r)" using ds digit_sign by blast
    with False t part fin lim ds show ?thesis by (simp add: scan_number_def)
  qed
qed

section \<open>Strings\<close>

lemma hexval_digit: "0 \<le> n \<Longrightarrow> n < 16 \<Longrightarrow> hexval (hex_digit n) = Some n"
  by (auto simp: hexval_def hex_digit_def is_digit_def)

lemma unescape_control:
  assumes "0 \<le> c" "c < 32"
  shows "unescape_u (48 # 48 # hex_digit (c div 16) # hex_digit (c mod 16) # r) = Some (c, r)"
proof -
  have "hexval (hex_digit (c div 16)) = Some (c div 16)"
    "hexval (hex_digit (c mod 16)) = Some (c mod 16)"
    using assms by (auto intro!: hexval_digit)
  moreover have "hexval 48 = Some 0" by (simp add: hexval_def is_digit_def)
  moreover have "c div 16 * 16 + c mod 16 = c" by simp
  ultimately have "hex4 (48 # 48 # hex_digit (c div 16) # hex_digit (c mod 16) # r) = Some (c, r)"
    by simp
  with assms show ?thesis by (simp add: unescape_u_def)
qed

lemma scan_string_step:
  assumes "0 \<le> c"
  shows "scan_string acc (escape_char c @ r) = scan_string (c # acc) r"
proof -
  consider "c = 34 \<or> c = 92 \<or> c = 10 \<or> c = 13 \<or> c = 9 \<or> c = 12 \<or> c = 8"
    | "c < 32" "c \<noteq> 10" "c \<noteq> 13" "c \<noteq> 9" "c \<noteq> 12" "c \<noteq> 8"
    | "32 \<le> c" "c \<noteq> 34" "c \<noteq> 92"
    by linarith
  then show ?thesis
  proof cases
    case 1
    then show ?thesis
      by (elim disjE) (simp_all add: escape_char_def simple_escape_def scan_string.simps)
  next
    case 2
    then have "escape_char c = [92, 117, 48, 48, hex_digit (c div 16), hex_digit (c mod 16)]"
      by (simp add: escape_char_def)
    then show ?thesis
      using unescape_control [OF assms 2(1), of r] by (simp add: scan_string.simps)
  next
    case 3
    then have "escape_char c = [c]" by (simp add: escape_char_def)
    then show ?thesis using 3 by (simp add: scan_string.simps)
  qed
qed

lemma scan_string_escaped:
  "\<forall>c\<in>set s. 0 \<le> c \<Longrightarrow>
   scan_string acc (concat (map escape_char s) @ 34 # r) = Some (rev acc @ s, r)"
proof (induction s arbitrary: acc)
  case Nil
  show ?case by (simp add: scan_string.simps)
next
  case (Cons c s)
  then show ?case by (simp add: scan_string_step)
qed

section \<open>Atoms\<close>

definition starts_value :: "pystr \<Rightarrow> bool" where
  "starts_value s \<longleftrightarrow> s \<noteq> [] \<and> \<not> json_ws (hd s) \<and> hd s \<noteq> 93 \<and> hd s \<noteq> 125 \<and>
     hd s \<noteq> 65279"

text \<open>The text of a float is a literal that the scanner reads back as the same text.\<close>

definition float_ok :: "json_cfg \<Rightarrow> pystr \<Rightarrow> bool" where
  "float_ok cfg t \<longleftrightarrow> starts_value t \<and> hd t \<noteq> 91 \<and> hd t \<noteq> 123 \<and>
     (\<forall>r. ends r \<longrightarrow> scan_atom cfg (t @ r) = Inr (JFloat t, r))"

lemma scan_string_quote:
  "\<forall>c\<in>set s. 0 \<le> c \<Longrightarrow> take 1 (quote_str s @ r) = [34] \<and>
   scan_string [] (drop 1 (quote_str s @ r)) = Some (s, r)"
  using scan_string_escaped [of s "[]" r] by (simp add: quote_str_def)

lemma scan_atom_str:
  "\<forall>c\<in>set s. 0 \<le> c \<Longrightarrow> scan_atom cfg (quote_str s @ r) = Inr (JStr s, r)"
  using scan_string_quote [of s r] by (simp add: scan_atom_def)

lemma int_text_hd: "int_text i \<noteq> [] \<and> (hd (int_text i) = 45 \<or> is_digit (hd (int_text i)))"
  using nat_digits_props [of "\<bar>i\<bar>"]
  by (cases "nat_digits \<bar>i\<bar>") (auto simp: int_text_def)

lemma int_text_second: "hd (int_text i) = 45 \<Longrightarrow> \<exists>d ds. int_text i = 45 # d # ds \<and> is_digit d"
  using nat_digits_props [of "\<bar>i\<bar>"]
  by (cases "nat_digits \<bar>i\<bar>") (auto simp: int_text_def is_digit_def)

lemma scan_atom_int:
  assumes "int_ok i" "ends r"
  shows "scan_atom cfg (int_text i @ r) = Inr (JInt i, r)"
proof -
  obtain c t where t: "int_text i = c # t" "c = 45 \<or> is_digit c"
    using int_text_hd [of i] by (cases "int_text i") auto
  have "\<not> is_prefix (lit ''-Infinity'') (int_text i @ r)"
    using t int_text_second [of i] by (auto simp: is_prefix_def lit_def is_digit_def)
  moreover have "\<not> is_prefix (lit (x # xs)) (int_text i @ r)" if "of_char x \<noteq> c" for x xs
    using t that by (auto simp: is_prefix_def lit_def)
  ultimately have "scan_atom cfg (int_text i @ r) = scan_number cfg (int_text i @ r)"
    using t by (auto simp: scan_atom_def is_digit_def)
  with scan_number_int [OF assms] show ?thesis by simp
qed

section \<open>Documents\<close>

fun json_ok :: "json_cfg \<Rightarrow> json \<Rightarrow> bool" where
  "json_ok cfg JNull = True"
| "json_ok cfg (JBool b) = True"
| "json_ok cfg (JInt i) = int_ok i"
| "json_ok cfg (JFloat t) = float_ok cfg t"
| "json_ok cfg (JStr s) = (\<forall>c\<in>set s. 0 \<le> c)"
| "json_ok cfg (JArr vs) = (\<forall>v\<in>set vs. json_ok cfg v)"
| "json_ok cfg (JObj kvs) =
     (distinct (map fst kvs) \<and>
      (\<forall>(k, v)\<in>set kvs. (\<forall>c\<in>set k. 0 \<le> c) \<and> json_ok cfg v))"

text \<open>Separators are a comma and a colon, followed by white space at most; keys are not sorted.\<close>

definition seps_ok :: "dump_cfg \<Rightarrow> bool" where
  "seps_ok dc \<longleftrightarrow> \<not> dc_sort_keys dc \<and>
     (\<exists>w. dc_item_sep dc = 44 # w \<and> list_all json_ws w) \<and>
     (\<exists>w. dc_key_sep dc = 58 # w \<and> list_all json_ws w)"

lemma skip_ws_start: "starts_value s \<Longrightarrow> skip_ws (s @ r) = s @ r"
  by (cases s) (auto simp: starts_value_def skip_ws_def)

lemma starts_take: "starts_value s \<Longrightarrow> take 1 (s @ r) \<noteq> [93]" "starts_value s \<Longrightarrow> take 1 (s @ r) \<noteq> [125]"
  by (cases s; simp add: starts_value_def)+

lemma skip_ws_sep: "list_all json_ws w \<Longrightarrow> starts_value s \<Longrightarrow> skip_ws (w @ s @ r) = s @ r"
  using skip_ws_start [of s r] by (induction w) (auto simp: skip_ws_def)

lemma starts_quote: "starts_value (quote_str s)"
  by (simp add: starts_value_def quote_str_def json_ws_def)

lemma starts_dumps: "json_ok cfg v \<Longrightarrow> starts_value (json_dumps dc v)"
proof (cases v)
  case (JInt i)
  then show ?thesis using int_text_hd [of i] by (auto simp: starts_value_def is_digit_def json_ws_def)
qed (auto simp: starts_value_def float_ok_def lit_def json_ws_def Let_def quote_str_def)

lemma skip_ws_ends: "skip_ws (44 # r) = 44 # r" "skip_ws (93 # r) = 93 # r"
  "skip_ws (125 # r) = 125 # r"
  by (simp_all add: skip_ws_def json_ws_def)

lemma pairs_hook_distinct:
  "distinct (map fst kvs) \<Longrightarrow> pairs_hook cfg kvs = Inr (JObj kvs)"
proof -
  have "foldl (\<lambda>d (k, v). dict_set k v d) acc kvs = acc @ kvs"
    if "distinct (map fst (acc @ kvs))" for acc :: "(pystr, json) dict"
    using that
  proof (induction kvs arbitrary: acc)
    case (Cons kv kvs)
    have "dict_set k v acc = acc @ [(k, v)]" if "k \<notin> fst ` set acc" for k v
      using that by (induction acc) auto
    with Cons show ?case by (cases kv) (auto simp: image_iff)
  qed simp
  from this [of "[]"] show "distinct (map fst kvs) \<Longrightarrow> pairs_hook cfg kvs = Inr (JObj kvs)"
    by (simp add: pairs_hook_def)
qed

text \<open>A value is read back with fuel for twice the length of its text.\<close>

definition reads_back :: "json_cfg \<Rightarrow> dump_cfg \<Rightarrow> json \<Rightarrow> bool" where
  "reads_back cfg dc v \<longleftrightarrow>
     (\<forall>n r. 2 * length (json_dumps dc v) < n \<longrightarrow> ends r \<longrightarrow>
        scan_value cfg n (json_dumps dc v @ r) = Inr (v, r))"

lemma py_join_Cons: "ss \<noteq> [] \<Longrightarrow> py_join sep (s # ss) = s @ sep @ py_join sep ss"
  by (cases ss) simp_all

lemma starts_join: "ss \<noteq> [] \<Longrightarrow> starts_value (hd ss) \<Longrightarrow> starts_value (py_join sep ss)"
  by (cases ss; cases "tl ss") (auto simp: starts_value_def py_join_Cons)

lemma scan_elems_dumps:
  assumes "seps_ok dc"
    and "vs \<noteq> []" "\<forall>v\<in>set vs. json_ok cfg v \<and> reads_back cfg dc v"
    and "2 * length (py_join (dc_item_sep dc) (map (json_dumps dc) vs)) + 1 < n"
  shows "scan_elems cfg n (py_join (dc_item_sep dc) (map (json_dumps dc) vs) @ 93 # r) = Inr (vs, r)"
  using assms(2-4)
proof (induction vs arbitrary: n)
  case (Cons v vs)
  obtain m where n: "n = Suc m" using Cons.prems(3) by (cases n) auto
  obtain w where w: "dc_item_sep dc = 44 # w" "list_all json_ws w"
    using assms(1) by (auto simp: seps_ok_def)
  show ?case
  proof (cases "vs = []")
    case True
    with Cons.prems n have "scan_value cfg m (json_dumps dc v @ 93 # r) = Inr (v, 93 # r)"
      by (simp add: reads_back_def)
    with True n show ?thesis by (simp add: skip_ws_ends)
  next
    case False
    let ?rest = "py_join (dc_item_sep dc) (map (json_dumps dc) vs)"
    have join: "py_join (dc_item_sep dc) (map (json_dumps dc) (v # vs)) @ 93 # r =
        json_dumps dc v @ 44 # w @ ?rest @ 93 # r"
      using False w by (simp add: py_join_Cons)
    have len: "length (py_join (dc_item_sep dc) (map (json_dumps dc) (v # vs))) =
        length (json_dumps dc v) + Suc (length w) + length ?rest"
      using False w by (simp add: py_join_Cons)
    have "2 * length (json_dumps dc v) < m" using Cons.prems(3) n unfolding len by simp
    with Cons.prems(2) have v: "scan_value cfg m (json_dumps dc v @ 44 # w @ ?rest @ 93 # r) =
        Inr (v, 44 # w @ ?rest @ 93 # r)"
      by (simp add: reads_back_def)
    have "starts_value ?rest"
      using False Cons.prems(2) by (intro starts_join) (auto simp: hd_map intro: starts_dumps)
    then have skip: "skip_ws (w @ ?rest @ 93 # r) = ?rest @ 93 # r"
      by (rule skip_ws_sep [OF w(2)])
    have "2 * length ?rest + 1 < m" using Cons.prems(3) n unfolding len by simp
    then have "scan_elems cfg m (?rest @ 93 # r) = Inr (vs, r)"
      using Cons.IH [OF False] Cons.prems(2) by simp
    with v skip show ?thesis unfolding join n by (simp add: skip_ws_ends Let_def)
  qed
qed simp

definition member_text :: "dump_cfg \<Rightarrow> pystr \<times> json \<Rightarrow> pystr" where
  "member_text dc kv = quote_str (fst kv) @ dc_key_sep dc @ json_dumps dc (snd kv)"

lemma dumps_object:
  "\<not> dc_sort_keys dc \<Longrightarrow>
   json_dumps dc (JObj kvs) = 123 # py_join (dc_item_sep dc) (map (member_text dc) kvs) @ [125]"
  by (simp add: member_text_def [abs_def] lit_def case_prod_unfold o_def)

lemma scan_member:
  assumes dc: "seps_ok dc"
    and key: "\<forall>c\<in>set (fst kv). 0 \<le> c"
    and val: "json_ok cfg (snd kv)" "reads_back cfg dc (snd kv)"
    and fuel: "2 * length (json_dumps dc (snd kv)) < n" and r: "ends r"
  shows "take 1 (member_text dc kv @ r) = [34] \<and>
    (\<exists>s. scan_string [] (drop 1 (member_text dc kv @ r)) = Some (fst kv, s) \<and>
       take 1 (skip_ws s) = [58] \<and>
       scan_value cfg n (skip_ws (drop 1 (skip_ws s))) = Inr (snd kv, r))"
proof -
  obtain w where w: "dc_key_sep dc = 58 # w" "list_all json_ws w"
    using dc by (auto simp: seps_ok_def)
  let ?s = "58 # w @ json_dumps dc (snd kv) @ r"
  have eq: "member_text dc kv @ r = quote_str (fst kv) @ ?s"
    using w by (simp add: member_text_def)
  have "take 1 (member_text dc kv @ r) = [34]"
    "scan_string [] (drop 1 (member_text dc kv @ r)) = Some (fst kv, ?s)"
    unfolding eq using scan_string_quote [OF key, of ?s] by blast+
  moreover have "skip_ws ?s = ?s" by (simp add: skip_ws_def json_ws_def)
  moreover have "skip_ws (w @ json_dumps dc (snd kv) @ r) = json_dumps dc (snd kv) @ r"
    by (rule skip_ws_sep [OF w(2) starts_dumps [OF val(1)]])
  ultimately show ?thesis using val(2) r fuel by (simp add: reads_back_def)
qed

lemma scan_members_dumps:
  assumes "seps_ok dc"
    and "kvs \<noteq> []"
    and "\<forall>kv\<in>set kvs. (\<forall>c\<in>set (fst kv). 0 \<le> c) \<and> json_ok cfg (snd kv) \<and> reads_back cfg dc (snd kv)"
    and "2 * length (py_join (dc_item_sep dc) (map (member_text dc) kvs)) < n"
  shows "scan_members cfg n (py_join (dc_item_sep dc) (map (member_text dc) kvs) @ 125 # r) =
    Inr (kvs, r)"
  using assms(2-4)
proof (induction kvs arbitrary: n)
  case (Cons kv kvs)
  obtain m where n: "n = Suc m" using Cons.prems(3) by (cases n) auto
  obtain w where w: "dc_item_sep dc = 44 # w" "list_all json_ws w"
    using assms(1) by (auto simp: seps_ok_def)
  let ?texts = "map (member_text dc) kvs"
  let ?rest = "if kvs = [] then 125 # r
    else 44 # w @ py_join (dc_item_sep dc) ?texts @ 125 # r"
  have join: "py_join (dc_item_sep dc) (map (member_text dc) (kv # kvs)) @ 125 # r =
      member_text dc kv @ ?rest"
    using w by (simp add: py_join_Cons)
  have len: "length (py_join (dc_item_sep dc) (map (member_text dc) (kv # kvs))) =
      length (member_text dc kv) +
      (if kvs = [] then 0 else Suc (length w) + length (py_join (dc_item_sep dc) ?texts))"
    using w by (simp add: py_join_Cons)
  have "length (json_dumps dc (snd kv)) < length (member_text dc kv)"
    by (simp add: member_text_def quote_str_def)
  then have "2 * length (json_dumps dc (snd kv)) < m"
    using Cons.prems(3) n unfolding len by (simp split: if_splits)
  moreover have "ends ?rest" by simp
  ultimately obtain s where m: "take 1 (member_text dc kv @ ?rest) = [34]"
      "scan_string [] (drop 1 (member_text dc kv @ ?rest)) = Some (fst kv, s)"
      "take 1 (skip_ws s) = [58]"
      "scan_value cfg m (skip_ws (drop 1 (skip_ws s))) = Inr (snd kv, ?rest)"
    using scan_member [OF assms(1), of kv cfg m ?rest] Cons.prems(2) by auto
  show ?case
  proof (cases "kvs = []")
    case True
    then show ?thesis
      using m unfolding join n by (simp add: skip_ws_ends Let_def)
  next
    case False
    have "starts_value (py_join (dc_item_sep dc) ?texts)"
      using False by (intro starts_join) (auto simp: hd_map member_text_def starts_value_def
        quote_str_def json_ws_def)
    then have skip: "skip_ws (w @ py_join (dc_item_sep dc) ?texts @ 125 # r) =
        py_join (dc_item_sep dc) ?texts @ 125 # r"
      by (rule skip_ws_sep [OF w(2)])
    have "2 * length (py_join (dc_item_sep dc) ?texts) < m"
      using Cons.prems(3) n False unfolding len by simp
    then have "scan_members cfg m (py_join (dc_item_sep dc) ?texts @ 125 # r) = Inr (kvs, r)"
      using Cons.IH [OF False] Cons.prems(2) by simp
    with False m skip show ?thesis unfolding join n by (simp add: skip_ws_ends Let_def)
  qed
qed simp

lemma atom_reads_back:
  assumes "json_dumps dc v = c # t" "c \<noteq> 91" "c \<noteq> 123"
    and "\<And>r. ends r \<Longrightarrow> scan_atom cfg (c # t @ r) = Inr (v, r)"
  shows "reads_back cfg dc v"
  unfolding reads_back_def
proof (intro allI impI)
  fix n r
  assume "2 * length (json_dumps dc v) < n" "ends r"
  then obtain m where "n = Suc m" by (cases n) auto
  with assms \<open>ends r\<close> show "scan_value cfg n (json_dumps dc v @ r) = Inr (v, r)" by simp
qed

lemma json_reads_back:
  assumes "seps_ok dc"
  shows "json_ok cfg v \<Longrightarrow> reads_back cfg dc v"
proof (induction v)
  case (JArr vs)
  show ?case unfolding reads_back_def
  proof (intro allI impI)
    fix n r
    let ?elems = "py_join (dc_item_sep dc) (map (json_dumps dc) vs)"
    assume n: "2 * length (json_dumps dc (JArr vs)) < n"
    then obtain m where m: "n = Suc m" by (cases n) auto
    have t: "json_dumps dc (JArr vs) @ r = 91 # ?elems @ 93 # r" by (simp add: lit_def)
    show "scan_value cfg n (json_dumps dc (JArr vs) @ r) = Inr (JArr vs, r)"
    proof (cases "vs = []")
      case True
      then show ?thesis unfolding t m by (simp add: skip_ws_def json_ws_def)
    next
      case False
      have "starts_value ?elems"
        using False JArr.prems by (intro starts_join) (auto simp: hd_map intro: starts_dumps)
      then have "skip_ws (?elems @ 93 # r) = ?elems @ 93 # r" "take 1 (?elems @ 93 # r) \<noteq> [93]"
        using skip_ws_start starts_take by blast+
      moreover have "scan_elems cfg m (?elems @ 93 # r) = Inr (vs, r)"
        using n m JArr by (intro scan_elems_dumps [OF assms False]) (auto simp: lit_def)
      ultimately show ?thesis unfolding t m by simp
    qed
  qed
next
  case (JObj kvs)
  show ?case unfolding reads_back_def
  proof (intro allI impI)
    fix n r
    let ?mems = "py_join (dc_item_sep dc) (map (member_text dc) kvs)"
    have dumps: "json_dumps dc (JObj kvs) = 123 # ?mems @ [125]"
      using assms by (intro dumps_object) (simp add: seps_ok_def)
    assume n: "2 * length (json_dumps dc (JObj kvs)) < n"
    then obtain m where m: "n = Suc m" by (cases n) auto
    have t: "json_dumps dc (JObj kvs) @ r = 123 # ?mems @ 125 # r" using dumps by simp
    show "scan_value cfg n (json_dumps dc (JObj kvs) @ r) = Inr (JObj kvs, r)"
    proof (cases "kvs = []")
      case True
      then show ?thesis unfolding t m by (simp add: skip_ws_def json_ws_def)
    next
      case False
      have "starts_value ?mems"
        using False by (intro starts_join) (auto simp: hd_map member_text_def starts_value_def
          quote_str_def json_ws_def)
      then have "skip_ws (?mems @ 125 # r) = ?mems @ 125 # r" "take 1 (?mems @ 125 # r) \<noteq> [125]"
        using skip_ws_start starts_take by blast+
      moreover have "scan_members cfg m (?mems @ 125 # r) = Inr (kvs, r)"
      proof (rule scan_members_dumps [OF assms False])
        show "\<forall>kv\<in>set kvs. (\<forall>c\<in>set (fst kv). 0 \<le> c) \<and> json_ok cfg (snd kv) \<and>
            reads_back cfg dc (snd kv)"
          using JObj by fastforce
        show "2 * length ?mems < m" using n m unfolding dumps by simp
      qed
      moreover have "pairs_hook cfg kvs = Inr (JObj kvs)"
        using JObj.prems by (intro pairs_hook_distinct) simp
      ultimately show ?thesis unfolding t m by simp
    qed
  qed
next
  case JNull
  have "scan_atom cfg (110 # [117, 108, 108] @ r) = Inr (JNull, r)" for r
    by (simp add: lit_def scan_atom_def is_prefix_def)
  then show ?case
    by (intro atom_reads_back [where c = 110 and t = "[117, 108, 108]"]) (simp_all add: lit_def)
next
  case (JBool b)
  have "scan_atom cfg (116 # [114, 117, 101] @ r) = Inr (JBool True, r)"
    "scan_atom cfg (102 # [97, 108, 115, 101] @ r) = Inr (JBool False, r)" for r
    by (simp_all add: lit_def scan_atom_def is_prefix_def)
  then show ?case
    by (cases b; intro atom_reads_back [where c = "if b then 116 else 102" and
          t = "if b then [114, 117, 101] else [97, 108, 115, 101]"]) (simp_all add: lit_def)
next
  case (JInt i)
  then obtain c t where t: "int_text i = c # t" "c = 45 \<or> is_digit c"
    using int_text_hd [of i] by (cases "int_text i") auto
  show ?case
  proof (rule atom_reads_back)
    show "json_dumps dc (JInt i) = c # t" using t by simp
    show "scan_atom cfg (c # t @ r) = Inr (JInt i, r)" if "ends r" for r
      using scan_atom_int [of i r cfg] JInt that t by simp
  qed (use t in \<open>auto simp: is_digit_def\<close>)
next
  case (JFloat t)
  then obtain c u where t: "t = c # u" by (cases t) (auto simp: float_ok_def starts_value_def)
  with JFloat show ?case
    by (intro atom_reads_back [where c = c and t = u]) (auto simp: float_ok_def)
next
  case (JStr s)
  show ?case
  proof (rule atom_reads_back)
    show "json_dumps dc (JStr s) = 34 # tl (quote_str s)" by (simp add: quote_str_def)
    show "scan_atom cfg (34 # tl (quote_str s) @ r) = Inr (JStr s, r)" for r
      using scan_atom_str [of s cfg r] JStr by (simp add: quote_str_def)
  qed simp_all
qed

text \<open>\<open>json.loads(json.dumps(v))\<close>, and with white space after it.\<close>

lemma json_loads_dumps:
  assumes "seps_ok dc" "json_ok cfg v" "list_all json_ws w"
  shows "json_loads cfg (json_dumps dc v @ w) = Inr v"
proof -
  have start: "starts_value (json_dumps dc v)" using assms(2) by (rule starts_dumps)
  then have ws: "skip_ws (json_dumps dc v @ w) = json_dumps dc v @ w" by (rule skip_ws_start)
  have "take 1 (json_dumps dc v @ w) \<noteq> [65279]"
    using start by (cases "json_dumps dc v") (auto simp: starts_value_def)
  moreover have "ends w" using assms(3) by (cases w) (auto simp: ends_def)
  then have "scan_value cfg (Suc (2 * length (json_dumps dc v @ w))) (json_dumps dc v @ w) = Inr (v, w)"
  proof -
    have "\<forall>n r. 2 * length (json_dumps dc v) < n \<longrightarrow> ends r \<longrightarrow>
        scan_value cfg n (json_dumps dc v @ r) = Inr (v, r)"
      using json_reads_back [OF assms(1,2)] by (simp only: reads_back_def)
    moreover have "2 * length (json_dumps dc v) < Suc (2 * length (json_dumps dc v @ w))" by simp
    ultimately show ?thesis using \<open>ends w\<close> by blast
  qed
  moreover have "skip_ws w = []" using assms(3) by (simp add: skip_ws_def list_all_iff)
  ultimately show ?thesis by (simp only: json_loads_def ws) simp
qed

text \<open>A decimal fraction that prints as itself is such a float text.\<close>

lemma float_ok_fraction:
  assumes ds: "ds \<noteq> []" "list_all is_digit ds" "hd ds = 48 \<Longrightarrow> ds = [48]"
    and fs: "fs \<noteq> []" "list_all is_digit fs"
    and fl: "jc_float cfg (ds @ 46 # fs) = ds @ 46 # fs"
  shows "float_ok cfg (ds @ 46 # fs)"
proof -
  obtain d ds' where d: "ds = d # ds'" "is_digit d" using ds(1,2) by (cases ds) auto
  have "scan_atom cfg ((ds @ 46 # fs) @ r) = Inr (JFloat (ds @ 46 # fs), r)" if r: "ends r" for r
  proof -
    have "scan_int_part (ds @ 46 # fs @ r) = Some (ds, 46 # fs @ r)"
      using ds by (intro scan_int_digits) (auto simp: is_digit_def)
    moreover have "scan_frac (46 # fs @ r) = (46 # fs, r)"
      using digits_append [OF fs(2), of r] ends_no_digit [OF r] fs(1) by (simp add: scan_frac_def)
    moreover have "scan_sign (ds @ 46 # fs @ r) = ([], ds @ 46 # fs @ r)"
      using digit_sign [OF ds(2,1)] .
    ultimately have "scan_number cfg (ds @ 46 # fs @ r) = Inr (JFloat (ds @ 46 # fs), r)"
      using fl ends_no_fraction [OF r] by (simp add: scan_number_def)
    moreover have "\<not> is_prefix (lit (x # xs)) (ds @ 46 # fs @ r)" if "of_char x \<noteq> d" for x xs
      using d that by (auto simp: is_prefix_def lit_def)
    ultimately show ?thesis using d by (auto simp: scan_atom_def is_digit_def)
  qed
  then show ?thesis using d by (auto simp: float_ok_def starts_value_def is_digit_def json_ws_def)
qed

section \<open>The round trip\<close>

text \<open>
  \<open>json.loads\<close> reads back what \<open>json.dumps\<close> printed, with or without the hooks that reject
  constants and duplicate keys.
\<close>

theorem json_round_trip:
  assumes "seps_ok dc" "json_ok cfg v"
  shows "json_loads cfg (json_dumps dc v) = Inr v"
  using json_loads_dumps [OF assms, of "[]"] by simp

lemma compact_seps [simp]: "seps_ok compact_plain" "seps_ok default_dump"
  by (auto simp: seps_ok_def compact_plain_def default_dump_def lit_def json_ws_def)

lemma json_round_trip_sample:
  "json_loads (plain_cfg sample_text) (json_dumps default_dump
      (JObj [(lit ''a'', JArr [JInt (- 12), JFloat (lit ''0.5''), JNull, JBool False]),
             ([233, 10], JStr [34, 92, 7])])) =
   Inr (JObj [(lit ''a'', JArr [JInt (- 12), JFloat (lit ''0.5''), JNull, JBool False]),
             ([233, 10], JStr [34, 92, 7])])"
proof (rule json_round_trip)
  have "float_ok (plain_cfg sample_text) ([48] @ 46 # [53])"
    by (rule float_ok_fraction) (simp_all add: is_digit_def plain_cfg_def sample_text_def)
  moreover have "int_ok (- 12)" by code_simp
  ultimately show "json_ok (plain_cfg sample_text)
      (JObj [(lit ''a'', JArr [JInt (- 12), JFloat (lit ''0.5''), JNull, JBool False]),
             ([233, 10], JStr [34, 92, 7])])"
    by (simp add: lit_def)
qed simp

end
