(* ===== verification/Py_Utf8.thy ===== *)
theory Py_Utf8
  imports Agent_Prelude
begin

text \<open>
  \<open>str.encode("utf-8")\<close> and \<open>bytes.decode("utf-8")\<close> in strict mode: surrogates are not encoded,
  and overlong forms, surrogates, values beyond Unicode and cut sequences are not decoded. Bytes
  are integers from 0 to 255, as Python's \<open>bytes\<close> gives them.
\<close>

type_synonym bytes = "int list"

definition scalar_value :: "int \<Rightarrow> bool" where
  "scalar_value c \<longleftrightarrow> 0 \<le> c \<and> c \<le> 1114111 \<and> \<not> (55296 \<le> c \<and> c \<le> 57343)"

definition utf8_encode_char :: "int \<Rightarrow> bytes" where
  "utf8_encode_char c =
     (if c < 128 then [c]
      else if c < 2048 then [192 + c div 64, 128 + c mod 64]
      else if c < 65536 then [224 + c div 4096, 128 + c div 64 mod 64, 128 + c mod 64]
      else [240 + c div 262144, 128 + c div 4096 mod 64, 128 + c div 64 mod 64, 128 + c mod 64])"

definition utf8_encode :: "pystr \<Rightarrow> bytes option" where
  "utf8_encode s =
     (if list_all scalar_value s then Some (concat (map utf8_encode_char s)) else None)"

definition continuation :: "int \<Rightarrow> bool" where
  "continuation b \<longleftrightarrow> 128 \<le> b \<and> b < 192"

text \<open>The first code point of a non-empty text and the bytes after it.\<close>

definition utf8_char :: "int \<Rightarrow> bytes \<Rightarrow> (int \<times> bytes) option" where
  "utf8_char a r =
     (if 0 \<le> a \<and> a < 128 then Some (a, r)
      else if 194 \<le> a \<and> a \<le> 223 then
        (case r of
           b # r' \<Rightarrow> if continuation b then Some ((a - 192) * 64 + (b - 128), r') else None
         | _ \<Rightarrow> None)
      else if 224 \<le> a \<and> a \<le> 239 then
        (case r of
           b # c # r' \<Rightarrow>
             (let n = (a - 224) * 4096 + (b - 128) * 64 + (c - 128) in
              if continuation b \<and> continuation c \<and> 2048 \<le> n \<and> scalar_value n
              then Some (n, r') else None)
         | _ \<Rightarrow> None)
      else if 240 \<le> a \<and> a \<le> 244 then
        (case r of
           b # c # d # r' \<Rightarrow>
             (let n = (a - 240) * 262144 + (b - 128) * 4096 + (c - 128) * 64 + (d - 128) in
              if continuation b \<and> continuation c \<and> continuation d \<and> 65536 \<le> n \<and> scalar_value n
              then Some (n, r') else None)
         | _ \<Rightarrow> None)
      else None)"

lemma utf8_char_length: "utf8_char a r = Some (c, r') \<Longrightarrow> length r' \<le> length r"
  by (auto simp: utf8_char_def Let_def split: if_splits list.splits)

function utf8_decode :: "bytes \<Rightarrow> pystr option" where
  "utf8_decode [] = Some []"
| "utf8_decode (a # r) =
     (case utf8_char a r of
        None \<Rightarrow> None
      | Some (c, r') \<Rightarrow> map_option (\<lambda>s. c # s) (utf8_decode r'))"
  by pat_completeness auto
termination
  by (relation "measure length") (auto dest: utf8_char_length)

lemma base64_digits:
  fixes c :: int
  shows "c div 64 * 64 + c mod 64 = c" "c div 4096 * 64 + c div 64 mod 64 = c div 64"
    "c div 262144 * 64 + c div 4096 mod 64 = c div 4096"
proof -
  have "c div 4096 = c div 64 div 64" "c div 262144 = c div 4096 div 64" by simp_all
  then show "c div 4096 * 64 + c div 64 mod 64 = c div 64"
    "c div 262144 * 64 + c div 4096 mod 64 = c div 4096"
    by (simp_all only: div_mult_mod_eq)
qed simp

lemma utf8_char_four:
  assumes "0 \<le> p" "p < 5" "0 \<le> q" "q < 64" "0 \<le> u" "u < 64" "0 \<le> v" "v < 64"
    and "65536 \<le> p * 262144 + q * 4096 + u * 64 + v"
    and "scalar_value (p * 262144 + q * 4096 + u * 64 + v)"
  shows "utf8_char (240 + p) ([128 + q, 128 + u, 128 + v] @ r) =
    Some (p * 262144 + q * 4096 + u * 64 + v, r)"
proof -
  have "\<not> 240 + p < 128" "\<not> 240 + p \<le> 223" "\<not> 240 + p \<le> 239" "240 + p \<le> 244" "240 \<le> 240 + p"
    using assms by linarith+
  moreover have "240 + p - 240 = p" "128 + q - 128 = q" "128 + u - 128 = u" "128 + v - 128 = v"
    by linarith+
  moreover have "continuation (128 + q)" "continuation (128 + u)" "continuation (128 + v)"
    using assms by (simp_all add: continuation_def)
  ultimately show ?thesis
    using assms(9,10) by (simp only: utf8_char_def Let_def append.simps list.case if_True if_False
        simp_thms conj_absorb de_Morgan_conj)
qed

lemma utf8_char_encode:
  assumes "scalar_value c"
  shows "\<exists>a t. utf8_encode_char c = a # t \<and> utf8_char a (t @ r) = Some (c, r)"
proof -
  have c: "0 \<le> c" "c \<le> 1114111" using assms by (auto simp: scalar_value_def)
  consider "c < 128" | "128 \<le> c" "c < 2048" | "2048 \<le> c" "c < 65536" | "65536 \<le> c" by linarith
  then show ?thesis
  proof cases
    case 1
    then show ?thesis using c by (simp add: utf8_encode_char_def utf8_char_def)
  next
    case 2
    then have "2 \<le> c div 64" "c div 64 < 32" by auto
    moreover have "c div 64 * 64 + c mod 64 = c" by simp
    ultimately show ?thesis using 2
      by (simp add: utf8_encode_char_def utf8_char_def continuation_def)
  next
    case 3
    have n: "c div 4096 * 4096 + c div 64 mod 64 * 64 + c mod 64 = c"
      using base64_digits [of c] by linarith
    have "c div 4096 < 16" "0 \<le> c div 4096" using 3 by auto
    with n 3 assms show ?thesis
      by (simp add: utf8_encode_char_def utf8_char_def continuation_def)
  next
    case 4
    have n: "c div 262144 * 262144 + c div 4096 mod 64 * 4096 + c div 64 mod 64 * 64 + c mod 64 = c"
      using base64_digits [of c] by linarith
    have p: "c div 262144 < 5" "0 \<le> c div 262144" using 4 c by auto
    have "utf8_encode_char c = [240 + c div 262144, 128 + c div 4096 mod 64,
        128 + c div 64 mod 64, 128 + c mod 64]"
      using 4 by (simp add: utf8_encode_char_def)
    moreover have "utf8_char (240 + c div 262144) ([128 + c div 4096 mod 64,
        128 + c div 64 mod 64, 128 + c mod 64] @ r) = Some (c, r)"
      by (rule utf8_char_four [where p = "c div 262144" and q = "c div 4096 mod 64" and
            u = "c div 64 mod 64" and v = "c mod 64", unfolded n])
        (simp_all only: p 4 assms pos_mod_bound pos_mod_sign zero_less_numeral)
    ultimately show ?thesis by blast
  qed
qed

lemma utf8_decode_encode: "utf8_encode s = Some b \<Longrightarrow> utf8_decode b = Some s"
proof (induction s arbitrary: b)
  case (Cons c s)
  let ?t = "concat (map utf8_encode_char s)"
  have c: "scalar_value c" and b: "b = utf8_encode_char c @ ?t" and s: "utf8_encode s = Some ?t"
    using Cons.prems by (auto simp: utf8_encode_def split: if_splits)
  obtain a t where "utf8_encode_char c = a # t" "utf8_char a (t @ ?t) = Some (c, ?t)"
    using utf8_char_encode [OF c, of ?t] by blast
  with Cons.IH [OF s] show ?case unfolding b by simp
qed (simp add: utf8_encode_def)

lemma utf8_encode_append:
  "utf8_encode (s @ t) =
     (case (utf8_encode s, utf8_encode t) of (Some a, Some b) \<Rightarrow> Some (a @ b) | _ \<Rightarrow> None)"
  by (simp add: utf8_encode_def)

end
