(* ===== verification/Worker_Protocol.thy ===== *)
theory Worker_Protocol
  imports Agent_Errors Json_Round_Trip Py_Utf8 "HOL-Library.Monad_Syntax"
begin

text \<open>
  \<open>rag/embedding_worker_protocol.py\<close>: the messages between the embedding client and its worker
  process, their validation, and the JSON lines that carry them. The models are pydantic classes;
  the constraints their annotations declare and the validators the module defines are written out
  here, and what pydantic adds of its own is the parameter \<open>ipc_env\<close>.
\<close>

section \<open>Limits\<close>

definition protocol_version :: int where "protocol_version = 1"
definition max_protocol_message_bytes :: int where "max_protocol_message_bytes = 8 * 1024 * 1024"
definition max_batch_size :: int where "max_batch_size = 1024"
definition max_text_chars :: int where "max_text_chars = 65536"
definition max_vector_dimension :: int where "max_vector_dimension = 4096"

section \<open>Messages\<close>

text \<open>The fixed fields \<open>protocol_version\<close> and \<open>type\<close> are the constructor of the message.\<close>

record embedding_request =
  rq_generation :: int
  rq_request_id :: pystr
  rq_texts :: "pystr list"

record worker_ready =
  wr_generation :: int
  wr_model_version :: pystr
  wr_dimension :: int

text \<open>A vector is the texts its floats print as.\<close>

record embedding_result =
  es_generation :: int
  es_request_id :: pystr
  es_vectors :: "pystr list list"

record worker_failure =
  wf_generation :: int
  wf_request_id :: "pystr option"
  wf_error_type :: pystr
  wf_message :: pystr

datatype worker_response =
    Ready worker_ready
  | Result embedding_result
  | Failure worker_failure

datatype protocol_message = Request embedding_request | Response worker_response

text \<open>
  What the libraries contribute: the \<open>str\<close> values pydantic takes for a field (it may refuse lone
  surrogates), the \<open>ValidationError\<close> of a model and a payload with its number of errors,
  \<open>model_dump_json\<close>, and the message of the exception of a failed \<open>bytes.decode\<close>.
\<close>

record ipc_env =
  ip_text :: py_text
  ip_str :: "string \<Rightarrow> pystr \<Rightarrow> bool"
  ip_error :: "string \<Rightarrow> (pystr, json) dict \<Rightarrow> exn"
  ip_error_count :: "string \<Rightarrow> (pystr, json) dict \<Rightarrow> int"
  ip_dump :: "protocol_message \<Rightarrow> exn + pystr"
  ip_decode_msg :: "bytes \<Rightarrow> pystr"

section \<open>Validators\<close>

text \<open>
  \<open>_validate_request_id\<close>: \<open>str(UUID(value))\<close> is \<open>value\<close> exactly when it has the printed form of a
  UUID, 8-4-4-4-12 lower-case hexadecimal digits.
\<close>

definition lower_hex :: "int \<Rightarrow> bool" where
  "lower_hex c \<longleftrightarrow> 48 \<le> c \<and> c \<le> 57 \<or> 97 \<le> c \<and> c \<le> 102"

definition canonical_uuid :: "pystr \<Rightarrow> bool" where
  "canonical_uuid v \<longleftrightarrow> length v = 36 \<and>
     list_all (\<lambda>i. if i \<in> {8, 13, 18, 23} then v ! i = 45 else lower_hex (v ! i)) [0..<36]"

definition validate_request_id :: "pystr \<Rightarrow> exn + pystr" where
  "validate_request_id value =
     (if canonical_uuid value then Inr value
      else Inl (exn_of PyValueError ''request_id must be a canonical UUID''))"

fun first_error :: "('a \<Rightarrow> exn option) \<Rightarrow> 'a list \<Rightarrow> exn option" where
  "first_error f [] = None"
| "first_error f (x # xs) = (case f x of Some e \<Rightarrow> Some e | None \<Rightarrow> first_error f xs)"

fun check_text :: "json \<Rightarrow> exn option" where
  "check_text (JStr t) =
     (if py_strip t = [] then Some (exn_of PyValueError ''embedding inputs must not be blank'')
      else if max_text_chars < len t
      then Some (exn_of PyValueError ''embedding input exceeds the protocol limit'')
      else None)"
| "check_text _ = Some (exn_of PyValueError ''every embedding input must be a string'')"

fun validate_texts :: "json \<Rightarrow> exn option" where
  "validate_texts (JArr vs) =
     (if vs = [] then Some (exn_of PyValueError ''texts must not be empty'')
      else if max_batch_size < len vs
      then Some (exn_of PyValueError ''embedding batch exceeds the protocol limit'')
      else first_error check_text vs)"
| "validate_texts _ = Some (exn_of PyValueError ''texts must be an array'')"

text \<open>
  \<open>float(i)\<close> overflows from the integer on that is halfway between the greatest double and
  \<open>2 ^ 1024\<close>. A float is its printed text.
\<close>

definition float_overflows :: "int \<Rightarrow> bool" where
  "float_overflows i \<longleftrightarrow> 2 ^ 1024 - 2 ^ 970 \<le> \<bar>i\<bar>"

definition finite_float :: "pystr \<Rightarrow> bool" where
  "finite_float t \<longleftrightarrow> t \<notin> {lit ''Infinity'', lit ''-Infinity'', lit ''NaN''}"

definition zero_float :: "pystr \<Rightarrow> bool" where
  "zero_float t \<longleftrightarrow> t \<in> {lit ''0.0'', lit ''-0.0''}"

fun check_item :: "json \<Rightarrow> exn option" where
  "check_item (JInt i) =
     (if float_overflows i
      then Some (exn_of PyValueError ''embedding vector values must fit in a finite float'')
      else None)"
| "check_item (JFloat t) =
     (if finite_float t then None
      else Some (exn_of PyValueError ''embedding vector values must be finite''))"
| "check_item _ = Some (exn_of PyValueError ''embedding vector values must be JSON numbers'')"

fun nonzero_item :: "json \<Rightarrow> bool" where
  "nonzero_item (JInt i) \<longleftrightarrow> i \<noteq> 0"
| "nonzero_item (JFloat t) \<longleftrightarrow> \<not> zero_float t"
| "nonzero_item _ \<longleftrightarrow> False"

fun check_vectors :: "int option \<Rightarrow> json list \<Rightarrow> exn option" where
  "check_vectors expected [] = None"
| "check_vectors expected (JArr items # vs) =
     (if items = [] then Some (exn_of PyValueError ''every vector must be a non-empty array'')
      else if max_vector_dimension < len items
      then Some (exn_of PyValueError ''embedding vector exceeds the protocol dimension limit'')
      else if expected \<noteq> None \<and> expected \<noteq> Some (len items)
      then Some (exn_of PyValueError ''embedding vector dimensions must match'')
      else case first_error check_item items of
        Some e \<Rightarrow> Some e
      | None \<Rightarrow>
          if list_ex nonzero_item items then check_vectors (Some (len items)) vs
          else Some (exn_of PyValueError ''embedding vectors must not be zero vectors''))"
| "check_vectors expected (_ # vs) =
     Some (exn_of PyValueError ''every vector must be a non-empty array'')"

fun validate_vectors :: "json \<Rightarrow> exn option" where
  "validate_vectors (JArr vs) =
     (if vs = [] then Some (exn_of PyValueError ''vectors must be a non-empty array'')
      else if max_batch_size < len vs
      then Some (exn_of PyValueError ''embedding result exceeds the protocol batch limit'')
      else check_vectors None vs)"
| "validate_vectors _ = Some (exn_of PyValueError ''vectors must be a non-empty array'')"

definition validate_model_version :: "pystr \<Rightarrow> exn option" where
  "validate_model_version value =
     (if py_strip value = [] then Some (exn_of PyValueError ''model_version must not be blank'')
      else None)"

definition validate_message :: "pystr \<Rightarrow> exn option" where
  "validate_message value =
     (if py_strip value = [] then Some (exn_of PyValueError ''worker error message must not be blank'')
      else None)"

section \<open>Models\<close>

text \<open>
  The fields of a model: \<open>None\<close> where pydantic reports an error. \<open>extra="forbid"\<close> rejects other
  keys; strict integers are no booleans and no floats.
\<close>

definition only_fields :: "string list \<Rightarrow> (pystr, json) dict \<Rightarrow> bool" where
  "only_fields names payload \<longleftrightarrow> list_all (\<lambda>k. k \<in> set (map lit names)) (dict_keys payload)"

definition fixed_fields :: "string \<Rightarrow> (pystr, json) dict \<Rightarrow> bool" where
  "fixed_fields kind payload \<longleftrightarrow>
     dict_get payload (lit ''protocol_version'') = Some (JInt protocol_version) \<and>
     dict_get payload (lit ''type'') = Some (JStr (lit kind))"

fun strict_int :: "(int \<Rightarrow> bool) \<Rightarrow> json option \<Rightarrow> int option" where
  "strict_int ok (Some (JInt i)) = (if ok i then Some i else None)"
| "strict_int ok _ = None"

fun strict_str :: "(pystr \<Rightarrow> bool) \<Rightarrow> json option \<Rightarrow> pystr option" where
  "strict_str ok (Some (JStr s)) = (if ok s then Some s else None)"
| "strict_str ok _ = None"

definition generation_field :: "(pystr, json) dict \<Rightarrow> int option" where
  "generation_field payload =
     strict_int (\<lambda>i. 0 \<le> i) (dict_get payload (lit ''generation''))"

definition request_id_ok :: "ipc_env \<Rightarrow> pystr \<Rightarrow> bool" where
  "request_id_ok ip s \<longleftrightarrow> ip_str ip ''request_id'' s \<and> \<not> isl (validate_request_id s)"

definition request_id_field :: "ipc_env \<Rightarrow> (pystr, json) dict \<Rightarrow> pystr option" where
  "request_id_field ip payload =
     strict_str (request_id_ok ip) (dict_get payload (lit ''request_id''))"

fun str_list :: "(pystr \<Rightarrow> bool) \<Rightarrow> json list \<Rightarrow> pystr list option" where
  "str_list ok [] = Some []"
| "str_list ok (JStr s # vs) =
     (if ok s then map_option (\<lambda>ss. s # ss) (str_list ok vs) else None)"
| "str_list ok (_ # vs) = None"

definition texts_field :: "ipc_env \<Rightarrow> (pystr, json) dict \<Rightarrow> pystr list option" where
  "texts_field ip payload =
     (case dict_get payload (lit ''texts'') of
        Some (JArr vs) \<Rightarrow>
          if validate_texts (JArr vs) = None then str_list (ip_str ip ''texts'') vs else None
      | _ \<Rightarrow> None)"

text \<open>\<open>float\<close> of a JSON number, by its printed text.\<close>

fun float_of :: "py_text \<Rightarrow> json \<Rightarrow> pystr" where
  "float_of fl (JInt i) = pt_float fl (int_text i)"
| "float_of fl (JFloat t) = t"
| "float_of fl _ = []"

fun float_list :: "py_text \<Rightarrow> json \<Rightarrow> pystr list" where
  "float_list fl (JArr items) = map (float_of fl) items"
| "float_list fl _ = []"

definition vectors_field :: "ipc_env \<Rightarrow> (pystr, json) dict \<Rightarrow> pystr list list option" where
  "vectors_field ip payload =
     (case dict_get payload (lit ''vectors'') of
        Some (JArr vs) \<Rightarrow>
          if validate_vectors (JArr vs) = None then Some (map (float_list (ip_text ip)) vs) else None
      | _ \<Rightarrow> None)"

definition embedding_request_of :: "ipc_env \<Rightarrow> (pystr, json) dict \<Rightarrow> embedding_request option" where
  "embedding_request_of ip payload =
     (if only_fields [''protocol_version'', ''type'', ''generation'', ''request_id'', ''texts''] payload \<and>
        fixed_fields ''embed'' payload
      then do {
        generation \<leftarrow> generation_field payload;
        request_id \<leftarrow> request_id_field ip payload;
        texts \<leftarrow> texts_field ip payload;
        Some \<lparr>rq_generation = generation, rq_request_id = request_id, rq_texts = texts\<rparr>
      } else None)"

definition model_version_ok :: "ipc_env \<Rightarrow> pystr \<Rightarrow> bool" where
  "model_version_ok ip s \<longleftrightarrow> ip_str ip ''model_version'' s \<and> 1 \<le> len s \<and> len s \<le> 256 \<and>
     validate_model_version s = None"

definition worker_ready_of :: "ipc_env \<Rightarrow> (pystr, json) dict \<Rightarrow> worker_ready option" where
  "worker_ready_of ip payload =
     (if only_fields [''protocol_version'', ''type'', ''generation'', ''model_version'', ''dimension''] payload \<and>
        fixed_fields ''ready'' payload
      then do {
        generation \<leftarrow> generation_field payload;
        version \<leftarrow> strict_str (model_version_ok ip) (dict_get payload (lit ''model_version''));
        dimension \<leftarrow> strict_int (\<lambda>i. 0 < i \<and> i \<le> max_vector_dimension)
          (dict_get payload (lit ''dimension''));
        Some \<lparr>wr_generation = generation, wr_model_version = version, wr_dimension = dimension\<rparr>
      } else None)"

definition embedding_result_of :: "ipc_env \<Rightarrow> (pystr, json) dict \<Rightarrow> embedding_result option" where
  "embedding_result_of ip payload =
     (if only_fields [''protocol_version'', ''type'', ''generation'', ''request_id'', ''vectors''] payload \<and>
        fixed_fields ''result'' payload
      then do {
        generation \<leftarrow> generation_field payload;
        request_id \<leftarrow> request_id_field ip payload;
        vectors \<leftarrow> vectors_field ip payload;
        Some \<lparr>es_generation = generation, es_request_id = request_id, es_vectors = vectors\<rparr>
      } else None)"

definition optional_request_id :: "ipc_env \<Rightarrow> (pystr, json) dict \<Rightarrow> pystr option option" where
  "optional_request_id ip payload =
     (case dict_get payload (lit ''request_id'') of
        None \<Rightarrow> Some None
      | Some JNull \<Rightarrow> Some None
      | v \<Rightarrow> map_option Some (strict_str (request_id_ok ip) v))"

definition error_type_pattern :: "pystr \<Rightarrow> bool" where
  "error_type_pattern s \<longleftrightarrow> s \<noteq> [] \<and> 97 \<le> hd s \<and> hd s \<le> 122 \<and>
     list_all (\<lambda>c. 97 \<le> c \<and> c \<le> 122 \<or> 48 \<le> c \<and> c \<le> 57 \<or> c = 95) (tl s)"

definition error_type_ok :: "ipc_env \<Rightarrow> pystr \<Rightarrow> bool" where
  "error_type_ok ip s \<longleftrightarrow> ip_str ip ''error_type'' s \<and> 1 \<le> len s \<and> len s \<le> 128 \<and>
     error_type_pattern s"

definition message_ok :: "ipc_env \<Rightarrow> pystr \<Rightarrow> bool" where
  "message_ok ip s \<longleftrightarrow> ip_str ip ''message'' s \<and> 1 \<le> len s \<and> len s \<le> 1024 \<and>
     validate_message s = None"

definition worker_failure_of :: "ipc_env \<Rightarrow> (pystr, json) dict \<Rightarrow> worker_failure option" where
  "worker_failure_of ip payload =
     (if only_fields [''protocol_version'', ''type'', ''generation'', ''request_id'', ''error_type'', ''message''] payload \<and>
        fixed_fields ''error'' payload
      then do {
        generation \<leftarrow> generation_field payload;
        request_id \<leftarrow> optional_request_id ip payload;
        error_type \<leftarrow> strict_str (error_type_ok ip) (dict_get payload (lit ''error_type''));
        message \<leftarrow> strict_str (message_ok ip) (dict_get payload (lit ''message''));
        Some \<lparr>wf_generation = generation, wf_request_id = request_id,
              wf_error_type = error_type, wf_message = message\<rparr>
      } else None)"

text \<open>The members \<open>model_dump_json\<close> prints, in the order of the fields.\<close>

fun message_members :: "protocol_message \<Rightarrow> (pystr, json) dict" where
  "message_members (Request r) =
     [(lit ''protocol_version'', JInt protocol_version), (lit ''type'', JStr (lit ''embed'')),
      (lit ''generation'', JInt (rq_generation r)), (lit ''request_id'', JStr (rq_request_id r)),
      (lit ''texts'', JArr (map JStr (rq_texts r)))]"
| "message_members (Response (Ready r)) =
     [(lit ''protocol_version'', JInt protocol_version), (lit ''type'', JStr (lit ''ready'')),
      (lit ''generation'', JInt (wr_generation r)), (lit ''model_version'', JStr (wr_model_version r)),
      (lit ''dimension'', JInt (wr_dimension r))]"
| "message_members (Response (Result r)) =
     [(lit ''protocol_version'', JInt protocol_version), (lit ''type'', JStr (lit ''result'')),
      (lit ''generation'', JInt (es_generation r)), (lit ''request_id'', JStr (es_request_id r)),
      (lit ''vectors'', JArr (map (\<lambda>v. JArr (map JFloat v)) (es_vectors r)))]"
| "message_members (Response (Failure r)) =
     [(lit ''protocol_version'', JInt protocol_version), (lit ''type'', JStr (lit ''error'')),
      (lit ''generation'', JInt (wf_generation r)),
      (lit ''request_id'', (case wf_request_id r of None \<Rightarrow> JNull | Some i \<Rightarrow> JStr i)),
      (lit ''error_type'', JStr (wf_error_type r)), (lit ''message'', JStr (wf_message r))]"

section \<open>Encoding and decoding\<close>

definition validate_max_bytes :: "int \<Rightarrow> exn option" where
  "validate_max_bytes max_bytes =
     (if max_bytes \<le> 0 then Some (exn_of PyValueError ''max_bytes must be a positive integer'')
      else None)"

definition size_error :: "int \<Rightarrow> int \<Rightarrow> exn" where
  "size_error n max_bytes =
     exn_ctx EmbeddingWorkerProtocolError
       ''embedding worker IPC message exceeds the configured size limit''
       [(lit ''message_bytes'', JInt n), (lit ''max_bytes'', JInt max_bytes)]"

definition unicode_encode_error :: exn where
  "unicode_encode_error = exn_of (PyException (lit ''UnicodeEncodeError'')) ''surrogates not allowed''"

definition encode_message :: "ipc_env \<Rightarrow> int \<Rightarrow> protocol_message \<Rightarrow> exn + bytes" where
  "encode_message ip max_bytes message =
     (case validate_max_bytes max_bytes of
        Some e \<Rightarrow> Inl e
      | None \<Rightarrow>
          rbind (ip_dump ip message) (\<lambda>serialized.
            case utf8_encode (serialized @ [10]) of
              None \<Rightarrow> Inl unicode_encode_error
            | Some encoded \<Rightarrow>
                if max_bytes < len encoded then Inl (size_error (len encoded) max_bytes)
                else Inr encoded))"

text \<open>\<open>_reject_json_constant\<close> and \<open>_reject_duplicate_keys\<close> are the hooks of this configuration.\<close>

definition strict_cfg :: "py_text \<Rightarrow> json_cfg" where
  "strict_cfg fl = \<lparr>jc_float = pt_float fl, jc_reject_constants = True, jc_reject_duplicates = True\<rparr>"

definition decode_json_object :: "ipc_env \<Rightarrow> int \<Rightarrow> bytes \<Rightarrow> exn + (pystr, json) dict" where
  "decode_json_object ip max_bytes raw =
     (case validate_max_bytes max_bytes of
        Some e \<Rightarrow> Inl e
      | None \<Rightarrow>
          if raw = [] then
            Inl (exn_of EmbeddingWorkerProtocolError ''embedding worker IPC message is empty'')
          else if max_bytes < len raw then Inl (size_error (len raw) max_bytes)
          else case utf8_decode raw of
            None \<Rightarrow>
              Inl (raise_from
                (exn_of EmbeddingWorkerProtocolError ''embedding worker IPC message is not valid UTF-8'')
                (Exn (PyException (lit ''UnicodeDecodeError'')) (ip_decode_msg ip raw) [] None))
          | Some s \<Rightarrow>
              (case json_loads (strict_cfg (ip_text ip)) s of
                 Inl JSONDecodeError \<Rightarrow>
                   Inl (raise_from
                     (exn_of EmbeddingWorkerProtocolError ''embedding worker IPC message is not valid JSON'')
                     (json_decode_error (ip_text ip) s))
               | Inl JSONValueError \<Rightarrow>
                   Inl (raise_from
                     (exn_of EmbeddingWorkerProtocolError ''embedding worker IPC message is not valid JSON'')
                     (Exn PyValueError (pt_json_str (ip_text ip) s) [] None))
               | Inr (JObj payload) \<Rightarrow> Inr payload
               | Inr _ \<Rightarrow>
                   Inl (exn_of EmbeddingWorkerProtocolError
                     ''embedding worker IPC message must be a JSON object'')))"

text \<open>\<open>str(payload.get("type"))[:64]\<close>: a missing key reads as \<open>None\<close>.\<close>

definition type_text :: "ipc_env \<Rightarrow> (pystr, json) dict \<Rightarrow> pystr" where
  "type_text ip payload =
     take 64 (case dict_get payload (lit ''type'') of
        Some (JStr s) \<Rightarrow> s
      | Some v \<Rightarrow> pt_str (ip_text ip) v
      | None \<Rightarrow> lit ''None'')"

definition validate_model ::
  "ipc_env \<Rightarrow> string \<Rightarrow> ((pystr, json) dict \<Rightarrow> 'm option) \<Rightarrow> (pystr, json) dict \<Rightarrow> exn + 'm" where
  "validate_model ip name model payload =
     (case model payload of
        Some m \<Rightarrow> Inr m
      | None \<Rightarrow>
          Inl (raise_from
            (exn_ctx EmbeddingWorkerProtocolError
              ''embedding worker IPC message failed schema validation''
              [(lit ''message_type'', JStr (type_text ip payload)),
               (lit ''validation_error_count'', JInt (ip_error_count ip name payload))])
            (ip_error ip name payload)))"

definition unexpected_message_type :: "ipc_env \<Rightarrow> string \<Rightarrow> (pystr, json) dict \<Rightarrow> exn" where
  "unexpected_message_type ip direction payload =
     exn_ctx EmbeddingWorkerProtocolError
       (''unexpected embedding worker '' @ direction @ '' message type'')
       [(lit ''message_type'', JStr (type_text ip payload))]"

definition decode_worker_request :: "ipc_env \<Rightarrow> int \<Rightarrow> bytes \<Rightarrow> exn + embedding_request" where
  "decode_worker_request ip max_bytes raw =
     rbind (decode_json_object ip max_bytes raw) (\<lambda>payload.
       if dict_get payload (lit ''type'') \<noteq> Some (JStr (lit ''embed''))
       then Inl (unexpected_message_type ip ''request'' payload)
       else validate_model ip ''EmbeddingRequest'' (embedding_request_of ip) payload)"

definition decode_worker_response :: "ipc_env \<Rightarrow> int \<Rightarrow> bytes \<Rightarrow> exn + worker_response" where
  "decode_worker_response ip max_bytes raw =
     rbind (decode_json_object ip max_bytes raw) (\<lambda>payload.
       let message_type = dict_get payload (lit ''type'') in
       if message_type = Some (JStr (lit ''ready'')) then
         rmap Ready (validate_model ip ''WorkerReady'' (worker_ready_of ip) payload)
       else if message_type = Some (JStr (lit ''result'')) then
         rmap Result (validate_model ip ''EmbeddingResult'' (embedding_result_of ip) payload)
       else if message_type = Some (JStr (lit ''error'')) then
         rmap Failure (validate_model ip ''WorkerFailure'' (worker_failure_of ip) payload)
       else Inl (unexpected_message_type ip ''response'' payload))"

section \<open>What the validators accept\<close>

definition text_wf :: "pystr \<Rightarrow> bool" where
  "text_wf t \<longleftrightarrow> py_strip t \<noteq> [] \<and> len t \<le> max_text_chars"

definition texts_wf :: "pystr list \<Rightarrow> bool" where
  "texts_wf ts \<longleftrightarrow> ts \<noteq> [] \<and> len ts \<le> max_batch_size \<and> list_all text_wf ts"

definition vector_wf :: "int \<Rightarrow> pystr list \<Rightarrow> bool" where
  "vector_wf d v \<longleftrightarrow> len v = d \<and> list_all finite_float v \<and> \<not> list_all zero_float v"

definition vectors_wf :: "pystr list list \<Rightarrow> bool" where
  "vectors_wf vs \<longleftrightarrow> vs \<noteq> [] \<and> len vs \<le> max_batch_size \<and>
     (\<exists>d. 0 < d \<and> d \<le> max_vector_dimension \<and> list_all (vector_wf d) vs)"

definition request_wf :: "embedding_request \<Rightarrow> bool" where
  "request_wf r \<longleftrightarrow> 0 \<le> rq_generation r \<and> canonical_uuid (rq_request_id r) \<and> texts_wf (rq_texts r)"

fun response_wf :: "worker_response \<Rightarrow> bool" where
  "response_wf (Ready r) \<longleftrightarrow> 0 \<le> wr_generation r \<and> 0 < wr_dimension r \<and>
     wr_dimension r \<le> max_vector_dimension \<and> py_strip (wr_model_version r) \<noteq> [] \<and>
     len (wr_model_version r) \<le> 256"
| "response_wf (Result r) \<longleftrightarrow> 0 \<le> es_generation r \<and> canonical_uuid (es_request_id r) \<and>
     vectors_wf (es_vectors r)"
| "response_wf (Failure r) \<longleftrightarrow> 0 \<le> wf_generation r \<and>
     (case wf_request_id r of None \<Rightarrow> True | Some i \<Rightarrow> canonical_uuid i) \<and>
     error_type_pattern (wf_error_type r) \<and> len (wf_error_type r) \<le> 128 \<and>
     py_strip (wf_message r) \<noteq> [] \<and> len (wf_message r) \<le> 1024"

text \<open>Integers that fit print as finite floats, and only zero as a zero.\<close>

definition float_ints_ok :: "py_text \<Rightarrow> bool" where
  "float_ints_ok fl \<longleftrightarrow> (\<forall>i. \<not> float_overflows i \<longrightarrow>
     finite_float (pt_float fl (int_text i)) \<and> (zero_float (pt_float fl (int_text i)) \<longleftrightarrow> i = 0))"

lemma first_error_None [simp]: "first_error f xs = None \<longleftrightarrow> (\<forall>x\<in>set xs. f x = None)"
  by (induction xs) (auto split: option.splits)

lemma check_text_None: "check_text v = None \<longleftrightarrow> (\<exists>t. v = JStr t \<and> text_wf t)"
  by (cases v) (auto simp: text_wf_def)

lemma check_item_float:
  "float_ints_ok fl \<Longrightarrow> check_item v = None \<Longrightarrow>
   finite_float (float_of fl v) \<and> (nonzero_item v \<longleftrightarrow> \<not> zero_float (float_of fl v))"
  by (cases v) (auto simp: float_ints_ok_def split: if_splits)

lemma str_list_map: "str_list ok (map JStr ss) = (if list_all ok ss then Some ss else None)"
  by (induction ss) auto

lemma str_list_Some: "str_list ok vs = Some ss \<longleftrightarrow> vs = map JStr ss \<and> list_all ok ss"
proof
  show "str_list ok vs = Some ss \<Longrightarrow> vs = map JStr ss \<and> list_all ok ss"
    by (induction ok vs arbitrary: ss rule: str_list.induct) (auto split: if_splits)
qed (simp add: str_list_map)

lemma strict_int_Some: "strict_int ok v = Some i \<longleftrightarrow> v = Some (JInt i) \<and> ok i"
  by (cases "(ok, v)" rule: strict_int.cases) auto

lemma strict_str_Some: "strict_str ok v = Some s \<longleftrightarrow> v = Some (JStr s) \<and> ok s"
  by (cases "(ok, v)" rule: strict_str.cases) auto

lemmas strict_Some = strict_int_Some strict_str_Some

lemma validate_request_id_Inr: "isl (validate_request_id s) \<longleftrightarrow> \<not> canonical_uuid s"
  by (auto simp: validate_request_id_def)

lemma validate_texts_None:
  "validate_texts (JArr (map JStr ts)) = None \<longleftrightarrow> texts_wf ts"
  by (auto simp: texts_wf_def list_all_iff check_text_None simp del: check_text.simps)

lemma texts_field_Some:
  "texts_field ip payload = Some ts \<longleftrightarrow>
   dict_get payload (lit ''texts'') = Some (JArr (map JStr ts)) \<and> texts_wf ts \<and>
   list_all (ip_str ip ''texts'') ts"
proof
  assume h: "texts_field ip payload = Some ts"
  then obtain vs where vs: "dict_get payload (lit ''texts'') = Some (JArr vs)"
      "validate_texts (JArr vs) = None" "str_list (ip_str ip ''texts'') vs = Some ts"
    by (simp add: texts_field_def split: option.splits json.splits if_splits
        del: validate_texts.simps)
  from vs(3) have "vs = map JStr ts \<and> list_all (ip_str ip ''texts'') ts"
    by (simp only: str_list_Some)
  with vs(1,2) show "dict_get payload (lit ''texts'') = Some (JArr (map JStr ts)) \<and> texts_wf ts \<and>
      list_all (ip_str ip ''texts'') ts"
    by (simp only: validate_texts_None simp_thms)
qed (simp add: texts_field_def str_list_map validate_texts_None del: validate_texts.simps)

lemma check_vectors_None:
  assumes "check_vectors expected vs = None" "float_ints_ok fl"
  shows "\<forall>v\<in>set vs. \<exists>items. v = JArr items \<and> items \<noteq> [] \<and> len items \<le> max_vector_dimension \<and>
     len items = (case expected of Some d \<Rightarrow> d | None \<Rightarrow> len (case hd vs of JArr xs \<Rightarrow> xs | _ \<Rightarrow> [])) \<and>
     vector_wf (len items) (map (float_of fl) items)"
  using assms(1)
proof (induction expected vs rule: check_vectors.induct)
  case (2 expected items vs)
  then have h: "items \<noteq> []" "len items \<le> max_vector_dimension"
      "expected = None \<or> expected = Some (len items)" "\<forall>x\<in>set items. check_item x = None"
      "list_ex nonzero_item items" "check_vectors (Some (len items)) vs = None"
    by (auto split: if_splits option.splits)
  have "vector_wf (len items) (map (float_of fl) items)"
    using h(4,5) check_item_float [OF assms(2)]
    by (auto simp: vector_wf_def list_all_iff list_ex_iff)
  moreover have "\<forall>v\<in>set vs. \<exists>items'. v = JArr items' \<and> items' \<noteq> [] \<and>
      len items' \<le> max_vector_dimension \<and> len items' = len items \<and>
      vector_wf (len items') (map (float_of fl) items')"
    using "2.IH" h by simp
  ultimately show ?case using h(1-3) by auto
qed auto

lemma vectors_field_wf:
  assumes "vectors_field ip payload = Some vs" "float_ints_ok (ip_text ip)"
  shows "vectors_wf vs"
proof -
  obtain ws where ws: "ws \<noteq> []" "len ws \<le> max_batch_size" "check_vectors None ws = None"
      "vs = map (float_list (ip_text ip)) ws"
    using assms(1) by (auto simp: vectors_field_def split: option.splits json.splits if_splits)
  define d where "d = len (case hd ws of JArr xs \<Rightarrow> xs | _ \<Rightarrow> [])"
  have c: "\<exists>items. v = JArr items \<and> items \<noteq> [] \<and> len items \<le> max_vector_dimension \<and>
      len items = d \<and> vector_wf (len items) (map (float_of (ip_text ip)) items)" if "v \<in> set ws" for v
    using bspec [OF check_vectors_None [OF ws(3) assms(2)] that] by (simp add: d_def)
  have "vector_wf d (float_list (ip_text ip) v)" if "v \<in> set ws" for v using c [OF that] by auto
  then have "list_all (vector_wf d) vs" by (simp add: ws(4) list_all_iff)
  moreover have "0 < d \<and> d \<le> max_vector_dimension" using c [OF hd_in_set [OF ws(1)]] by auto
  ultimately show ?thesis using ws by (auto simp: vectors_wf_def)
qed

lemma embedding_request_of_Some:
  "embedding_request_of ip payload = Some r \<Longrightarrow> request_wf r \<and>
   dict_get payload (lit ''type'') = Some (JStr (lit ''embed''))"
  by (auto simp: embedding_request_of_def request_wf_def generation_field_def request_id_field_def
      strict_Some texts_field_Some request_id_ok_def validate_request_id_Inr fixed_fields_def
      bind_eq_Some_conv split: if_splits)

lemma worker_ready_of_Some: "worker_ready_of ip payload = Some r \<Longrightarrow> response_wf (Ready r)"
  by (auto simp: worker_ready_of_def generation_field_def strict_Some model_version_ok_def
      validate_model_version_def bind_eq_Some_conv split: if_splits)

lemma embedding_result_of_Some:
  "embedding_result_of ip payload = Some r \<Longrightarrow> float_ints_ok (ip_text ip) \<Longrightarrow>
   response_wf (Result r)"
  by (auto simp: embedding_result_of_def generation_field_def request_id_field_def
      strict_Some request_id_ok_def validate_request_id_Inr vectors_field_wf
      bind_eq_Some_conv split: if_splits)

lemma worker_failure_of_Some: "worker_failure_of ip payload = Some r \<Longrightarrow> response_wf (Failure r)"
  by (auto simp: worker_failure_of_def generation_field_def optional_request_id_def
      strict_Some request_id_ok_def validate_request_id_Inr error_type_ok_def message_ok_def
      validate_message_def bind_eq_Some_conv split: if_splits option.splits json.splits)

lemma validate_model_Inr [simp]: "validate_model ip name model p = Inr m \<longleftrightarrow> model p = Some m"
  by (simp add: validate_model_def split: option.split)

lemma validate_model_class: "validate_model ip name model p = Inl e \<Longrightarrow>
  exn_class e = EmbeddingWorkerProtocolError"
  by (auto simp: validate_model_def split: option.splits)

lemma decode_json_object_Inr:
  "decode_json_object ip mb raw = Inr payload \<Longrightarrow> 0 < mb \<and> 0 < len raw \<and> len raw \<le> mb"
  by (auto simp: decode_json_object_def validate_max_bytes_def split: if_splits)

lemma decode_json_object_class:
  "decode_json_object ip mb raw = Inl e \<Longrightarrow> 0 < mb \<Longrightarrow> exn_class e = EmbeddingWorkerProtocolError"
  by (auto simp: decode_json_object_def validate_max_bytes_def size_error_def
      split: if_splits option.splits sum.splits json_error.splits json.splits)

section \<open>Printed messages are read back\<close>

fun message_valid :: "ipc_env \<Rightarrow> protocol_message \<Rightarrow> bool" where
  "message_valid ip (Request r) \<longleftrightarrow> embedding_request_of ip (message_members (Request r)) = Some r"
| "message_valid ip (Response (Ready r)) \<longleftrightarrow>
     worker_ready_of ip (message_members (Response (Ready r))) = Some r"
| "message_valid ip (Response (Result r)) \<longleftrightarrow>
     embedding_result_of ip (message_members (Response (Result r))) = Some r"
| "message_valid ip (Response (Failure r)) \<longleftrightarrow>
     worker_failure_of ip (message_members (Response (Failure r))) = Some r"

text \<open>\<open>model_dump_json\<close> prints the members of the model as compact JSON.\<close>

definition prints_members :: "ipc_env \<Rightarrow> protocol_message \<Rightarrow> bool" where
  "prints_members ip m \<longleftrightarrow>
     ip_dump ip m = Inr (json_dumps compact_plain (JObj (message_members m)))"

lemma encode_message_Inr:
  "encode_message ip mb m = Inr raw \<longleftrightarrow> 0 < mb \<and>
   (\<exists>s. ip_dump ip m = Inr s \<and> utf8_encode (s @ [10]) = Some raw \<and> len raw \<le> mb)"
  by (auto simp: encode_message_def validate_max_bytes_def split: option.splits if_splits)

lemma decode_encoded:
  assumes "encode_message ip mb m = Inr raw" "prints_members ip m"
    and "json_ok (strict_cfg (ip_text ip)) (JObj (message_members m))"
  shows "decode_json_object ip mb raw = Inr (message_members m)"
proof -
  let ?s = "json_dumps compact_plain (JObj (message_members m))"
  have raw: "0 < mb" "utf8_encode (?s @ [10]) = Some raw" "len raw \<le> mb"
    using assms(1,2) by (auto simp: encode_message_Inr prints_members_def)
  from raw(2) have d: "utf8_decode raw = Some (?s @ [10])" by (rule utf8_decode_encode)
  then have "raw \<noteq> []" by auto
  moreover have "json_loads (strict_cfg (ip_text ip)) (?s @ [10]) = Inr (JObj (message_members m))"
    by (rule json_loads_dumps [OF _ assms(3)]) (simp_all add: json_ws_def)
  ultimately show ?thesis
    using raw d by (simp add: decode_json_object_def validate_max_bytes_def del: json_dumps.simps)
qed

lemma members_type [simp]:
  "dict_get (message_members (Request q)) (lit ''type'') = Some (JStr (lit ''embed''))"
  "dict_get (message_members (Response (Ready r))) (lit ''type'') = Some (JStr (lit ''ready''))"
  "dict_get (message_members (Response (Result s))) (lit ''type'') = Some (JStr (lit ''result''))"
  "dict_get (message_members (Response (Failure f))) (lit ''type'') = Some (JStr (lit ''error''))"
  by simp_all

section \<open>Properties of the protocol\<close>

text \<open>
  C24. A message the models accept, once encoded within the size limit, is decoded to the same
  message on the other side: requests by the worker, responses by the client.
\<close>

theorem message_round_trip:
  assumes "message_valid ip m" "prints_members ip m"
    and "json_ok (strict_cfg (ip_text ip)) (JObj (message_members m))"
    and "encode_message ip max_bytes m = Inr raw"
  shows "case m of
      Request r \<Rightarrow> decode_worker_request ip max_bytes raw = Inr r
    | Response r \<Rightarrow> decode_worker_response ip max_bytes raw = Inr r"
proof (cases m)
  case (Request r)
  with decode_encoded [OF assms(4,2,3)] assms(1) show ?thesis
    by (simp add: decode_worker_request_def del: message_members.simps)
next
  case (Response r)
  with decode_encoded [OF assms(4,2,3)] assms(1) show ?thesis
    by (cases r) (simp_all add: decode_worker_response_def del: message_members.simps)
qed

definition sample_uuid :: pystr where
  "sample_uuid = lit ''01234567-89ab-cdef-0123-456789abcdef''"

definition sample_float :: "pystr \<Rightarrow> pystr" where
  "sample_float s = (if list_all (\<lambda>c. c = 45 \<or> is_digit c) s then s @ lit ''.0'' else s)"

definition sample_ipc :: ipc_env where
  "sample_ipc =
     \<lparr>ip_text = sample_text\<lparr>pt_float := sample_float\<rparr>,
      ip_str = (\<lambda>_ s. list_all scalar_value s),
      ip_error = (\<lambda>_ _. exn_of (PyException (lit ''ValidationError'')) ''1 validation error''),
      ip_error_count = (\<lambda>_ _. 1),
      ip_dump = (\<lambda>m. Inr (json_dumps compact_plain (JObj (message_members m)))),
      ip_decode_msg = (\<lambda>_. [])\<rparr>"

definition sample_request :: embedding_request where
  "sample_request =
     \<lparr>rq_generation = 3, rq_request_id = sample_uuid, rq_texts = [lit ''a'', [233, 128512]]\<rparr>"

lemma sample_request_ok:
  "message_valid sample_ipc (Request sample_request)"
  "prints_members sample_ipc (Request sample_request)"
  "json_ok (strict_cfg (ip_text sample_ipc)) (JObj (message_members (Request sample_request)))"
proof -
  show "message_valid sample_ipc (Request sample_request)" by code_simp
  show "prints_members sample_ipc (Request sample_request)"
    by (simp add: prints_members_def sample_ipc_def)
  have "int_ok 1" "int_ok 3" by code_simp+
  then show "json_ok (strict_cfg (ip_text sample_ipc)) (JObj (message_members (Request sample_request)))"
    by (simp add: sample_request_def sample_uuid_def protocol_version_def lit_def)
qed

lemma sample_request_encodes:
  obtains raw where "encode_message sample_ipc 4096 (Request sample_request) = Inr raw"
proof -
  have "\<not> isl (encode_message sample_ipc 4096 (Request sample_request))" by code_simp
  then show thesis
    using that by (cases "encode_message sample_ipc 4096 (Request sample_request)") auto
qed

theorem message_round_trip_witness:
  "\<exists>raw. encode_message sample_ipc 4096 (Request sample_request) = Inr raw \<and>
     decode_worker_request sample_ipc 4096 raw = Inr sample_request"
proof -
  obtain raw where raw: "encode_message sample_ipc 4096 (Request sample_request) = Inr raw"
    by (rule sample_request_encodes)
  with message_round_trip [OF sample_request_ok raw] show ?thesis by auto
qed

text \<open>
  C25. What a decoder accepts is within the size limit and well formed: generations are not
  negative, request ids are canonical UUIDs, a request has 1 to 1024 texts of at most 65536
  characters that are not blank, and a result 1 to 1024 finite, non-zero vectors of one dimension
  from 1 to 4096. No line is accepted both as a request and as a response.
\<close>

theorem decoded_messages_valid:
  assumes "float_ints_ok (ip_text ip)"
  shows "(decode_worker_request ip max_bytes raw = Inr r \<longrightarrow>
      0 < len raw \<and> len raw \<le> max_bytes \<and> request_wf r \<and>
      decode_worker_response ip max_bytes raw \<noteq> Inr resp) \<and>
    (decode_worker_response ip max_bytes raw = Inr resp \<longrightarrow>
      0 < len raw \<and> len raw \<le> max_bytes \<and> response_wf resp)"
proof (intro conjI impI)
  assume "decode_worker_request ip max_bytes raw = Inr r"
  then obtain payload where p: "decode_json_object ip max_bytes raw = Inr payload"
      "embedding_request_of ip payload = Some r"
    by (auto simp: decode_worker_request_def split: if_splits)
  then show "0 < len raw" "len raw \<le> max_bytes" "request_wf r"
      "decode_worker_response ip max_bytes raw \<noteq> Inr resp"
    using decode_json_object_Inr [OF p(1)] embedding_request_of_Some [OF p(2)]
    by (simp_all add: decode_worker_response_def)
next
  assume "decode_worker_response ip max_bytes raw = Inr resp"
  then obtain payload where p: "decode_json_object ip max_bytes raw = Inr payload"
    and m: "(\<exists>r. worker_ready_of ip payload = Some r \<and> resp = Ready r) \<or>
      (\<exists>r. embedding_result_of ip payload = Some r \<and> resp = Result r) \<or>
      (\<exists>r. worker_failure_of ip payload = Some r \<and> resp = Failure r)"
    by (auto simp: decode_worker_response_def Let_def split: if_splits)
  from m show "response_wf resp"
    using worker_ready_of_Some embedding_result_of_Some [OF _ assms] worker_failure_of_Some by blast
  show "0 < len raw" "len raw \<le> max_bytes" using decode_json_object_Inr [OF p] by simp_all
qed

lemma int_text_chars: "list_all (\<lambda>c. c = 45 \<or> is_digit c) (int_text i)"
  using nat_digits_props [of "\<bar>i\<bar>"] by (auto simp: int_text_def list_all_iff)

lemma int_text_zero: "int_text i = [48] \<longleftrightarrow> i = 0" "int_text i \<noteq> [45, 48]"
proof -
  have v: "digits_value (nat_digits \<bar>i\<bar>) = \<bar>i\<bar>" "nat_digits \<bar>i\<bar> \<noteq> []"
    "list_all is_digit (nat_digits \<bar>i\<bar>)"
    using nat_digits_props [of "\<bar>i\<bar>"] by simp_all
  have z: "nat_digits \<bar>i\<bar> = [48] \<longleftrightarrow> i = 0"
  proof
    assume "nat_digits \<bar>i\<bar> = [48]"
    with v(1) show "i = 0" by (simp add: digits_value_def)
  qed (simp add: nat_digits.simps)
  show "int_text i = [48] \<longleftrightarrow> i = 0" using z by (auto simp: int_text_def)
  show "int_text i \<noteq> [45, 48]"
  proof (cases "i < 0")
    case True
    then show ?thesis using z by (auto simp: int_text_def)
  next
    case False
    then show ?thesis using v by (auto simp: int_text_def is_digit_def)
  qed
qed

lemma sample_float_ints: "float_ints_ok (ip_text sample_ipc)"
proof -
  have p: "pt_float (ip_text sample_ipc) (int_text i) = int_text i @ [46, 48]" for i
    using int_text_chars [of i] by (simp add: sample_ipc_def sample_float_def lit_def)
  have "finite_float (int_text i @ [46, 48])" for i
  proof -
    have "last (int_text i @ [46, 48]) = 48" by simp
    then show ?thesis by (force simp: finite_float_def lit_def simp del: last_append)
  qed
  moreover have "zero_float (int_text i @ [46, 48]) \<longleftrightarrow> i = 0" for i
    using int_text_zero [of i] append_same_eq [of "int_text i" "[46, 48]" "[48]"]
      append_same_eq [of "int_text i" "[46, 48]" "[45, 48]"]
    by (simp add: zero_float_def lit_def)
  ultimately show ?thesis by (simp add: float_ints_ok_def p)
qed

theorem decoded_messages_valid_witness:
  "\<exists>raw. decode_worker_request sample_ipc 4096 raw = Inr sample_request \<and> request_wf sample_request"
proof -
  obtain raw where raw: "encode_message sample_ipc 4096 (Request sample_request) = Inr raw"
    by (rule sample_request_encodes)
  have "decode_json_object sample_ipc 4096 raw = Inr (message_members (Request sample_request))"
    by (rule decode_encoded [OF raw sample_request_ok(2,3)])
  then have "decode_worker_request sample_ipc 4096 raw = Inr sample_request"
    using sample_request_ok(1) by (simp add: decode_worker_request_def del: message_members.simps)
  with decoded_messages_valid [OF sample_float_ints] show ?thesis by blast
qed

text \<open>
  A decoder fails only with \<open>EmbeddingWorkerProtocolError\<close>, whatever bytes arrive; the only
  exception is the caller's own mistake of a size limit that is not positive.
\<close>

theorem decoding_fails_closed:
  assumes "decode_worker_request ip max_bytes raw = Inl e \<or>
      decode_worker_response ip max_bytes raw = Inl e"
  shows "if 0 < max_bytes then exn_class e = EmbeddingWorkerProtocolError
    else exn_class e = PyValueError"
proof (cases "0 < max_bytes")
  case True
  from assms show ?thesis
    by (auto simp: True decode_worker_request_def decode_worker_response_def Let_def
        unexpected_message_type_def dest: decode_json_object_class validate_model_class
        split: if_splits)
next
  case False
  then have "decode_json_object ip max_bytes raw =
      Inl (exn_of PyValueError ''max_bytes must be a positive integer'')"
    by (simp add: decode_json_object_def validate_max_bytes_def)
  with assms False show ?thesis by (auto simp: decode_worker_request_def decode_worker_response_def)
qed

theorem decoding_fails_closed_witness:
  "\<exists>e. decode_worker_request sample_ipc 4096 [123, 255] = Inl e \<and>
     exn_class e = EmbeddingWorkerProtocolError"
proof -
  have "isl (decode_worker_request sample_ipc 4096 [123, 255])" by code_simp
  then obtain e where e: "decode_worker_request sample_ipc 4096 [123, 255] = Inl e"
    by (auto simp: isl_def)
  with decoding_fails_closed [OF disjI1, OF e] show ?thesis by simp
qed

end
