(* ===== verification/Embedding_Client.thy ===== *)
theory Embedding_Client
  imports Worker_Protocol
begin

text \<open>
  \<open>rag/process_embeddings.py\<close>: the client that owns the worker process. A method runs from one
  \<open>await\<close> to the next without interference, so it is cut there: a function per segment, which
  ends by waiting (\<open>Awaits\<close>) or by returning or raising (\<open>Returns\<close>). What the awaited call gives is
  the parameter of the next segment. Log events and durations are left out.
\<close>

section \<open>State\<close>

datatype worker_state = WNew | WStarting | WReady | WBusy | WStopping | WClosed

text \<open>
  The subprocess: its pid, the generation it was started with, whether its return code is still
  \<open>None\<close>, and how many requests were written to it whose reply was not read.
\<close>

record worker_process =
  wp_pid :: int
  wp_generation :: int
  wp_alive :: bool
  wp_pending :: int

record client_cfg =
  cc_command :: "pystr list"
  cc_model_version :: pystr
  cc_startup_timeout :: pystr
  cc_inference_timeout :: pystr
  cc_lock_timeout :: pystr
  cc_shutdown_timeout :: pystr
  cc_max_request_bytes :: int
  cc_max_response_bytes :: int
  cc_max_stderr_chars :: int

record client =
  cl_process :: "worker_process option"
  cl_stderr_task :: bool
  cl_stderr_tail :: pystr
  cl_generation :: int
  cl_dimension :: "int option"
  cl_state :: worker_state
  cl_closed :: bool
  cl_close_requested :: bool

definition new_client :: client where
  "new_client =
     \<lparr>cl_process = None, cl_stderr_task = False, cl_stderr_tail = [], cl_generation = 0,
      cl_dimension = None, cl_state = WNew, cl_closed = False, cl_close_requested = False\<rparr>"

definition worker_pid :: "client \<Rightarrow> int option" where
  "worker_pid c =
     (case cl_process c of Some p \<Rightarrow> if wp_alive p then Some (wp_pid p) else None | None \<Rightarrow> None)"

definition process_alive :: "client \<Rightarrow> bool" where
  "process_alive c \<longleftrightarrow> (case cl_process c of Some p \<Rightarrow> wp_alive p | None \<Rightarrow> False)"

section \<open>The constructor\<close>

text \<open>
  Arguments are checked as the values they are at run time; whether a float text is positive is
  the parameter \<open>positive\<close>.
\<close>

record client_args =
  ca_command :: "json list"
  ca_cwd_is_dir :: bool
  ca_model_version :: pystr
  ca_startup_timeout :: json
  ca_inference_timeout :: json
  ca_lock_timeout :: json
  ca_shutdown_timeout :: json
  ca_max_request_bytes :: json
  ca_max_response_bytes :: json
  ca_max_stderr_chars :: json

fun command_part :: "json \<Rightarrow> bool" where
  "command_part (JStr s) \<longleftrightarrow> s \<noteq> []"
| "command_part _ \<longleftrightarrow> False"

definition argument_error :: "string \<Rightarrow> string \<Rightarrow> exn" where
  "argument_error name m = exn_of PyValueError (name @ m)"

fun check_timeout :: "(pystr \<Rightarrow> bool) \<Rightarrow> string \<times> json \<Rightarrow> exn option" where
  "check_timeout positive (name, JInt i) =
     (if float_overflows i
      then Some (exn_of (PyException (lit ''OverflowError'')) ''int too large to convert to float'')
      else if i \<le> 0 then Some (argument_error name '' must be greater than 0'') else None)"
| "check_timeout positive (name, JFloat t) =
     (if finite_float t \<and> positive t then None
      else Some (argument_error name '' must be greater than 0''))"
| "check_timeout positive (name, _) = Some (argument_error name '' must be greater than 0'')"

fun check_size :: "string \<times> json \<Rightarrow> exn option" where
  "check_size (name, JInt i) =
     (if i \<le> 0 then Some (argument_error name '' must be a positive integer'') else None)"
| "check_size (name, _) = Some (argument_error name '' must be a positive integer'')"

fun int_of_json :: "json \<Rightarrow> int" where
  "int_of_json (JInt i) = i"
| "int_of_json _ = 0"

fun str_of_json :: "json \<Rightarrow> pystr" where
  "str_of_json (JStr s) = s"
| "str_of_json _ = []"

text \<open>The checks in their order.\<close>

definition check_client_args :: "(pystr \<Rightarrow> bool) \<Rightarrow> client_args \<Rightarrow> exn option" where
  "check_client_args positive a =
     first_error id
       [if ca_command a = [] \<or> \<not> list_all command_part (ca_command a)
        then Some (exn_of PyValueError ''command must contain non-empty string arguments'') else None,
        if ca_cwd_is_dir a then None
        else Some (exn_of PyValueError ''cwd must resolve to an existing directory''),
        if py_strip (ca_model_version a) = []
        then Some (exn_of PyValueError ''expected_model_version must be a non-empty string'') else None,
        check_timeout positive (''startup_timeout_s'', ca_startup_timeout a),
        check_timeout positive (''inference_timeout_s'', ca_inference_timeout a),
        check_timeout positive (''lock_timeout_s'', ca_lock_timeout a),
        check_timeout positive (''shutdown_timeout_s'', ca_shutdown_timeout a),
        check_size (''max_request_bytes'', ca_max_request_bytes a),
        check_size (''max_response_bytes'', ca_max_response_bytes a),
        check_size (''max_stderr_chars'', ca_max_stderr_chars a),
        if max_protocol_message_bytes < int_of_json (ca_max_request_bytes a)
        then Some (exn_of PyValueError ''max_request_bytes exceeds the protocol hard limit'') else None,
        if max_protocol_message_bytes < int_of_json (ca_max_response_bytes a)
        then Some (exn_of PyValueError ''max_response_bytes exceeds the protocol hard limit'') else None]"

definition client_init ::
  "py_text \<Rightarrow> (pystr \<Rightarrow> bool) \<Rightarrow> client_args \<Rightarrow> exn + client_cfg \<times> client" where
  "client_init fl positive a =
     (case check_client_args positive a of
        Some e \<Rightarrow> Inl e
      | None \<Rightarrow>
          Inr (\<lparr>cc_command = map str_of_json (ca_command a), cc_model_version = ca_model_version a,
                cc_startup_timeout = float_of fl (ca_startup_timeout a),
                cc_inference_timeout = float_of fl (ca_inference_timeout a),
                cc_lock_timeout = float_of fl (ca_lock_timeout a),
                cc_shutdown_timeout = float_of fl (ca_shutdown_timeout a),
                cc_max_request_bytes = int_of_json (ca_max_request_bytes a),
                cc_max_response_bytes = int_of_json (ca_max_response_bytes a),
                cc_max_stderr_chars = int_of_json (ca_max_stderr_chars a)\<rparr>, new_client))"

section \<open>Stopping the process\<close>

text \<open>
  How a wait ends: with the process (or the task) gone, by its timeout, or because the caller was
  canceled. \<open>_stop_process_locked\<close> waits up to three times.
\<close>

datatype wait_outcome = Gone | WaitTimedOut | WaitCanceled

record stop_script =
  sc_graceful :: wait_outcome
  sc_kill :: wait_outcome
  sc_stderr :: wait_outcome

definition canceled :: exn where
  "canceled = exn_of PyCancelledError ''''"

definition timeout_cause :: exn where
  "timeout_cause = exn_of PyTimeoutError ''''"

definition worker_timeout :: "string \<Rightarrow> pystr \<Rightarrow> exn" where
  "worker_timeout phase t = raise_from (worker_timeout_error phase t) timeout_cause"

definition set_alive :: "bool \<Rightarrow> client \<Rightarrow> client" where
  "set_alive b c = c\<lparr>cl_process := map_option (\<lambda>p. p\<lparr>wp_alive := b\<rparr>) (cl_process c)\<rparr>"

definition forget_process :: "client \<Rightarrow> client" where
  "forget_process c = c\<lparr>cl_process := None, cl_stderr_task := False, cl_dimension := None\<rparr>"

text \<open>\<open>_finish_stderr_task\<close> swallows what the task raises; only its caller's cancellation gets out.\<close>

definition finish_stderr :: "stop_script \<Rightarrow> client \<Rightarrow> client \<Rightarrow> (exn + unit) \<times> client" where
  "finish_stderr sc before c =
     (if cl_stderr_task before \<and> sc_stderr sc = WaitCanceled then Inl canceled else Inr (), c)"

definition kill_process :: "client_cfg \<Rightarrow> stop_script \<Rightarrow> client \<Rightarrow> (exn + unit) \<times> client" where
  "kill_process cfg sc c =
     (case sc_kill sc of
        Gone \<Rightarrow> (Inr (), set_alive False c)
      | WaitTimedOut \<Rightarrow> (Inl (worker_timeout ''shutdown'' (cc_shutdown_timeout cfg)), c)
      | WaitCanceled \<Rightarrow> (Inl canceled, c))"

definition stop_process ::
  "client_cfg \<Rightarrow> bool \<Rightarrow> stop_script \<Rightarrow> client \<Rightarrow> (exn + unit) \<times> client" where
  "stop_process cfg force sc c =
     (if cl_process c = None then finish_stderr sc c (forget_process c)
      else
        let graceful = process_alive c \<and> \<not> force in
        if graceful \<and> sc_graceful sc = WaitCanceled then (Inl canceled, c)
        else
          let c1 = (if graceful \<and> sc_graceful sc = Gone then set_alive False c else c);
              force' = (force \<or> graceful \<and> sc_graceful sc = WaitTimedOut) in
          case (if process_alive c1 \<and> force' then kill_process cfg sc c1 else (Inr (), c1)) of
            (Inl e, c2) \<Rightarrow> (Inl e, c2)
          | (Inr _, c2) \<Rightarrow> finish_stderr sc c2 (forget_process c2))"

text \<open>
  \<open>_run_cleanup_shielded\<close>: cancellations of the caller do not reach the cleanup, so its waits end
  only by their event or their timeout.
\<close>

definition shielded :: "stop_script \<Rightarrow> bool" where
  "shielded sc \<longleftrightarrow> sc_graceful sc \<noteq> WaitCanceled \<and> sc_kill sc \<noteq> WaitCanceled \<and>
     sc_stderr sc \<noteq> WaitCanceled"

text \<open>\<open>_interrupt_current_process_for_close\<close>.\<close>

definition interrupt_process :: "client_cfg \<Rightarrow> stop_script \<Rightarrow> client \<Rightarrow> (exn + unit) \<times> client" where
  "interrupt_process cfg sc c =
     (if process_alive c then kill_process cfg sc c else (Inr (), c))"

text \<open>\<open>_drain_stderr\<close>: what one chunk adds to the bounded tail.\<close>

definition drain_stderr :: "client_cfg \<Rightarrow> pystr \<Rightarrow> client \<Rightarrow> client" where
  "drain_stderr cfg decoded c =
     c\<lparr>cl_stderr_tail := take_last (nat (cc_max_stderr_chars cfg)) (cl_stderr_tail c @ decoded)\<rparr>"

section \<open>Waiting points\<close>

datatype job = Start | Embed "pystr list"

text \<open>
  Where the task that holds the operation lock waits: stopping an old process, for the new
  process, for its READY line, for the reply to a request, for the forced stop of a handler that
  then raises (\<open>Abort\<close>, shielded or not), for the stop of \<open>aclose\<close>.
\<close>

datatype await =
    StopOld job
  | Spawn job
  | ReadyLine job
  | Reply embedding_request
  | Abort bool exn
  | CloseStop

datatype progress = Awaits await | Returns "exn + pystr list list"

definition ensure_open :: "client \<Rightarrow> exn option" where
  "ensure_open c =
     (if cl_closed c \<or> cl_close_requested c
      then Some (exn_of EmbeddingWorkerError ''embedding worker client is closed'') else None)"

definition worker_error :: "exc_class \<Rightarrow> bool" where
  "worker_error k \<longleftrightarrow> k = EmbeddingWorkerError \<or> base_class k = Some EmbeddingWorkerError"

definition generation_context :: "client \<Rightarrow> (pystr, json) dict" where
  "generation_context c = [(lit ''generation'', JInt (cl_generation c))]"

section \<open>Requests\<close>

text \<open>\<open>_build_request\<close>; \<open>request_id\<close> is \<open>str(uuid4())\<close>.\<close>

definition request_fields :: "int \<Rightarrow> pystr \<Rightarrow> pystr list \<Rightarrow> (pystr, json) dict" where
  "request_fields generation request_id texts =
     message_members (Request
       \<lparr>rq_generation = generation, rq_request_id = request_id, rq_texts = texts\<rparr>)"

definition build_request :: "ipc_env \<Rightarrow> pystr \<Rightarrow> pystr list \<Rightarrow> client \<Rightarrow> exn + embedding_request" where
  "build_request ip request_id texts c =
     (let kwargs = request_fields (cl_generation c) request_id texts in
      case embedding_request_of ip kwargs of
        Some r \<Rightarrow> Inr r
      | None \<Rightarrow>
          Inl (raise_from
            (exn_ctx EmbeddingWorkerProtocolError ''embedding request failed protocol validation''
              [(lit ''validation_error_count'', JInt (ip_error_count ip ''EmbeddingRequest'' kwargs))])
            (ip_error ip ''EmbeddingRequest'' kwargs)))"

text \<open>The handlers around the exchange; another exception leaves the state as it is.\<close>

definition embed_handler :: "client_cfg \<Rightarrow> exn \<Rightarrow> client \<Rightarrow> progress \<times> client" where
  "embed_handler cfg e c =
     (if exn_class e = PyTimeoutError then
        (Awaits (Abort False
          (raise_from (worker_timeout_error ''inference'' (cc_inference_timeout cfg)) e)), c)
      else if exn_class e = PyCancelledError then (Awaits (Abort True e), c)
      else if worker_error (exn_class e) then (Awaits (Abort False e), c)
      else (Returns (Inl e), c))"

text \<open>\<open>_exchange_locked\<close> up to its first wait: \<open>_require_live_process\<close>, encoding, writing.\<close>

definition write_request ::
  "ipc_env \<Rightarrow> client_cfg \<Rightarrow> embedding_request \<Rightarrow> client \<Rightarrow> progress \<times> client" where
  "write_request ip cfg r c =
     (if \<not> process_alive c then
        embed_handler cfg
          (exn_ctx EmbeddingWorkerError ''embedding worker is not running'' (generation_context c)) c
      else case encode_message ip (cc_max_request_bytes cfg) (Request r) of
        Inl e \<Rightarrow> embed_handler cfg e c
      | Inr raw \<Rightarrow>
          (Awaits (Reply r),
           c\<lparr>cl_process := map_option (\<lambda>p. p\<lparr>wp_pending := wp_pending p + 1\<rparr>) (cl_process c)\<rparr>))"

definition embed_started ::
  "ipc_env \<Rightarrow> client_cfg \<Rightarrow> pystr \<Rightarrow> pystr list \<Rightarrow> client \<Rightarrow> progress \<times> client" where
  "embed_started ip cfg request_id texts c =
     (case build_request ip request_id texts c of
        Inl e \<Rightarrow> (Returns (Inl e), c)
      | Inr r \<Rightarrow> write_request ip cfg r (c\<lparr>cl_state := WBusy\<rparr>))"

definition job_started :: "ipc_env \<Rightarrow> client_cfg \<Rightarrow> pystr \<Rightarrow> job \<Rightarrow> client \<Rightarrow> progress \<times> client" where
  "job_started ip cfg request_id job c =
     (case job of
        Start \<Rightarrow> (Returns (Inr []), c)
      | Embed texts \<Rightarrow> embed_started ip cfg request_id texts c)"

section \<open>Starting\<close>

definition launch :: "job \<Rightarrow> client \<Rightarrow> progress \<times> client" where
  "launch job c =
     (Awaits (Spawn job), c\<lparr>cl_generation := cl_generation c + 1, cl_state := WStarting\<rparr>)"

definition ensure_started ::
  "ipc_env \<Rightarrow> client_cfg \<Rightarrow> pystr \<Rightarrow> job \<Rightarrow> client \<Rightarrow> progress \<times> client" where
  "ensure_started ip cfg request_id job c =
     (if cl_state c = WReady \<and> process_alive c then job_started ip cfg request_id job c
      else if cl_process c \<noteq> None then (Awaits (StopOld job), c)
      else launch job c)"

text \<open>\<open>start\<close> and \<open>embed_batch\<close> once the operation lock is theirs.\<close>

definition begin_job ::
  "ipc_env \<Rightarrow> client_cfg \<Rightarrow> pystr \<Rightarrow> job \<Rightarrow> client \<Rightarrow> progress \<times> client" where
  "begin_job ip cfg request_id job c =
     (case ensure_open c of
        Some e \<Rightarrow> (Returns (Inl e), c)
      | None \<Rightarrow> ensure_started ip cfg request_id job c)"

definition old_stopped :: "client_cfg \<Rightarrow> stop_script \<Rightarrow> job \<Rightarrow> client \<Rightarrow> progress \<times> client" where
  "old_stopped cfg sc job c =
     (case stop_process cfg True sc c of
        (Inl e, c') \<Rightarrow> (Returns (Inl e), c')
      | (Inr _, c') \<Rightarrow> launch job c')"

definition startup_handler :: "client_cfg \<Rightarrow> exn \<Rightarrow> client \<Rightarrow> progress \<times> client" where
  "startup_handler cfg e c =
     (if exn_class e = PyTimeoutError then
        (Awaits (Abort False
          (raise_from (worker_timeout_error ''startup'' (cc_startup_timeout cfg)) e)), c)
      else if exn_class e = PyCancelledError then (Awaits (Abort True e), c)
      else if worker_error (exn_class e) then (Awaits (Abort False e), c)
      else
        (Awaits (Abort False
          (raise_from
            (exn_ctx EmbeddingWorkerError ''embedding worker failed to start'' (generation_context c))
            e)), c))"

text \<open>\<open>create_subprocess_exec\<close> gives a process, or raises (a timeout or a cancellation too).\<close>

definition spawned :: "client_cfg \<Rightarrow> exn + int \<Rightarrow> job \<Rightarrow> client \<Rightarrow> progress \<times> client" where
  "spawned cfg outcome job c =
     (case outcome of
        Inl e \<Rightarrow> startup_handler cfg e c
      | Inr pid \<Rightarrow>
          (Awaits (ReadyLine job),
           c\<lparr>cl_process := Some \<lparr>wp_pid = pid, wp_generation = cl_generation c, wp_alive = True,
               wp_pending = 0\<rparr>, cl_stderr_task := True\<rparr>))"

text \<open>
  \<open>_read_stdout_line\<close>: a line (or its beginning), the end of the stream with the exit code, or an
  exception, of which the wait's timeout and cancellation are two.
\<close>

datatype line_outcome = Line bytes | Eof int | LineRaises exn

fun read_stdout_line :: "int \<Rightarrow> line_outcome \<Rightarrow> exn + bytes" where
  "read_stdout_line generation (LineRaises e) =
     (if exn_class e = PyValueError \<or> exn_class e = PyException (lit ''LimitOverrunError'')
      then Inl (raise_from (exn_of EmbeddingWorkerProtocolError
        ''embedding worker response exceeds the stream limit'') e)
      else Inl e)"
| "read_stdout_line generation (Eof code) =
     Inl (exn_ctx EmbeddingWorkerError ''embedding worker exited before sending a response''
       [(lit ''exit_code'', JInt code), (lit ''generation'', JInt generation)])"
| "read_stdout_line generation (Line raw) =
     (if raw = [] \<or> last raw \<noteq> 10
      then Inl (exn_of EmbeddingWorkerProtocolError
        ''embedding worker response is not newline terminated'')
      else Inr raw)"

definition line_read :: "line_outcome \<Rightarrow> client \<Rightarrow> client" where
  "line_read l c = (case l of Eof code \<Rightarrow> set_alive False c | _ \<Rightarrow> c)"

definition check_ready :: "client_cfg \<Rightarrow> int \<Rightarrow> worker_response \<Rightarrow> exn + int" where
  "check_ready cfg generation response =
     (case response of
        Failure f \<Rightarrow>
          Inl (exn_ctx EmbeddingWorkerError ''embedding worker reported a startup failure''
            [(lit ''error_type'', JStr (wf_error_type f)), (lit ''generation'', JInt generation)])
      | Result r \<Rightarrow>
          Inl (exn_of EmbeddingWorkerProtocolError ''worker did not send READY during startup'')
      | Ready r \<Rightarrow>
          if wr_generation r \<noteq> generation then
            Inl (exn_of EmbeddingWorkerProtocolError ''worker READY generation does not match'')
          else if wr_model_version r \<noteq> cc_model_version cfg then
            Inl (exn_ctx EmbeddingWorkerProtocolError ''worker READY model_version does not match''
              [(lit ''expected_model_version'', JStr (cc_model_version cfg)),
               (lit ''actual_model_version'', JStr (wr_model_version r))])
          else Inr (wr_dimension r))"

definition ready_line ::
  "ipc_env \<Rightarrow> client_cfg \<Rightarrow> pystr \<Rightarrow> line_outcome \<Rightarrow> job \<Rightarrow> client \<Rightarrow> progress \<times> client" where
  "ready_line ip cfg request_id l job c =
     (let c1 = line_read l c in
      case rbind (read_stdout_line (cl_generation c1) l) (\<lambda>raw.
          rbind (decode_worker_response ip (cc_max_response_bytes cfg) raw)
            (check_ready cfg (cl_generation c1))) of
        Inl e \<Rightarrow> startup_handler cfg e c1
      | Inr dimension \<Rightarrow>
          job_started ip cfg request_id job
            (c1\<lparr>cl_dimension := Some dimension, cl_state := WReady\<rparr>))"

section \<open>Replies\<close>

text \<open>The reply's wait also ends when draining the request pipe fails.\<close>

datatype reply_outcome = PipeClosed exn | ReplyLine line_outcome

fun read_reply :: "client \<Rightarrow> reply_outcome \<Rightarrow> exn + bytes" where
  "read_reply c (PipeClosed e) =
     Inl (raise_from (exn_ctx EmbeddingWorkerError
       ''embedding worker request pipe closed unexpectedly'' (generation_context c)) e)"
| "read_reply c (ReplyLine l) = read_stdout_line (cl_generation c) l"

definition reply_read :: "reply_outcome \<Rightarrow> client \<Rightarrow> client" where
  "reply_read out c =
     (case out of
        ReplyLine (Line raw) \<Rightarrow>
          c\<lparr>cl_process := map_option (\<lambda>p. p\<lparr>wp_pending := wp_pending p - 1\<rparr>) (cl_process c)\<rparr>
      | ReplyLine l \<Rightarrow> line_read l c
      | PipeClosed e \<Rightarrow> c)"

text \<open>\<open>_fail_protocol_locked\<close>: stop the worker, then raise.\<close>

definition fail_protocol :: "string \<Rightarrow> client \<Rightarrow> progress \<times> client" where
  "fail_protocol m c =
     (Awaits (Abort False (exn_ctx EmbeddingWorkerProtocolError m (generation_context c))), c)"

definition check_reply ::
  "embedding_request \<Rightarrow> worker_response \<Rightarrow> client \<Rightarrow> progress \<times> client" where
  "check_reply request response c =
     (case response of
        Failure f \<Rightarrow>
          (Returns (Inl (exn_ctx EmbeddingWorkerError ''embedding worker reported an inference failure''
             [(lit ''error_type'', JStr (wf_error_type f)),
              (lit ''generation'', JInt (wf_generation f))])),
           c\<lparr>cl_state := WReady\<rparr>)
      | Ready r \<Rightarrow> fail_protocol ''worker returned a non-result response'' c
      | Result r \<Rightarrow>
          if es_generation r \<noteq> cl_generation c then
            fail_protocol ''worker response generation does not match'' c
          else if es_request_id r \<noteq> rq_request_id request then
            fail_protocol ''worker response request_id does not match'' c
          else if len (es_vectors r) \<noteq> len (rq_texts request) then
            fail_protocol ''worker response batch size does not match'' c
          else if cl_dimension c = None \<or>
              list_ex (\<lambda>v. Some (len v) \<noteq> cl_dimension c) (es_vectors r) then
            fail_protocol ''worker response dimension does not match READY'' c
          else (Returns (Inr (es_vectors r)), c\<lparr>cl_state := WReady\<rparr>))"

definition reply ::
  "ipc_env \<Rightarrow> client_cfg \<Rightarrow> reply_outcome \<Rightarrow> embedding_request \<Rightarrow> client \<Rightarrow> progress \<times> client" where
  "reply ip cfg out request c =
     (let c1 = reply_read out c in
      case rbind (read_reply c1 out) (decode_worker_response ip (cc_max_response_bytes cfg)) of
        Inl e \<Rightarrow> embed_handler cfg e c1
      | Inr response \<Rightarrow> check_reply request response c1)"

text \<open>The end of a handler: the forced stop, the state \<open>NEW\<close>, the exception.\<close>

definition aborted :: "client_cfg \<Rightarrow> stop_script \<Rightarrow> exn \<Rightarrow> client \<Rightarrow> progress \<times> client" where
  "aborted cfg sc e c =
     (case stop_process cfg True sc c of
        (Inl e', c') \<Rightarrow> (Returns (Inl e'), c')
      | (Inr _, c') \<Rightarrow> (Returns (Inl e), c'\<lparr>cl_state := WNew\<rparr>))"

section \<open>The operation lock\<close>

text \<open>\<open>_acquire_operation_lock\<close> when its wait ends by the timeout.\<close>

definition lock_timed_out :: "pystr \<Rightarrow> exn" where
  "lock_timed_out timeout = worker_timeout ''lock'' timeout"

section \<open>Closing\<close>

text \<open>
  \<open>aclose\<close> before its wait for the lock, once it has the lock, after its stop, and when it is
  canceled; \<open>None\<close> where it goes on to wait for the lock.
\<close>

definition close_begin :: "client \<Rightarrow> (exn + unit) option \<times> client" where
  "close_begin c =
     (if cl_state c = WClosed then (Some (Inr ()), c) else (None, c\<lparr>cl_close_requested := True\<rparr>))"

definition close_locked :: "client \<Rightarrow> progress \<times> client" where
  "close_locked c =
     (if cl_state c = WClosed then (Returns (Inr []), c)
      else (Awaits CloseStop, c\<lparr>cl_closed := True, cl_state := WStopping\<rparr>))"

definition close_canceled :: "client_cfg \<Rightarrow> stop_script \<Rightarrow> client \<Rightarrow> (exn + unit) \<times> client" where
  "close_canceled cfg sc c =
     (case interrupt_process cfg sc (c\<lparr>cl_state := WStopping\<rparr>) of
        (Inl e, c') \<Rightarrow> (Inl e, c')
      | (Inr _, c') \<Rightarrow> (Inl canceled, c'))"

definition close_stopped ::
  "client_cfg \<Rightarrow> stop_script \<Rightarrow> stop_script \<Rightarrow> client \<Rightarrow> progress \<times> client" where
  "close_stopped cfg sc sc' c =
     (case stop_process cfg False sc c of
        (Inr _, c') \<Rightarrow> (Returns (Inr []), c'\<lparr>cl_state := WClosed\<rparr>)
      | (Inl e, c') \<Rightarrow>
          if exn_class e = PyCancelledError then
            (case close_canceled cfg sc' c' of (r, c'') \<Rightarrow> (Returns (rmap (\<lambda>_. []) r), c''))
          else (Returns (Inl e), c'))"

text \<open>\<open>_safe_error_fields\<close>: what a log event shows of an exception.\<close>

definition safe_error_fields :: "exn \<Rightarrow> (pystr, json) dict" where
  "safe_error_fields e =
     [(lit ''error_type'', JStr (class_name (exn_class e)))] @
     (case dict_get (exn_context e) (lit ''exit_code'') of
        Some (JInt i) \<Rightarrow> [(lit ''exit_code'', JInt i)] | _ \<Rightarrow> []) @
     (case dict_get (exn_context e) (lit ''error_type'') of
        Some (JStr s) \<Rightarrow> [(lit ''worker_error_type'', JStr s)] | _ \<Rightarrow> [])"

end
