(* ===== verification/Client_Steps.thy ===== *)
theory Client_Steps
  imports Embedding_Client
begin

text \<open>
  The embedding client under concurrency. One task at a time holds the operation lock and waits at
  one of the points of \<open>Embedding_Client\<close>; meanwhile other tasks may ask to close, interrupt the
  process, be canceled, and the process may die. Every step is a segment of the source between two
  waits; the invariant is proved segment by segment.
\<close>

section \<open>Worlds and steps\<close>

text \<open>The client, where the holder of the lock waits, and how many \<open>aclose\<close> calls wait for it.\<close>

record client_world =
  cw_client :: client
  cw_holder :: "await option"
  cw_closers :: nat

fun holder_of :: "progress \<Rightarrow> await option" where
  "holder_of (Awaits a) = Some a"
| "holder_of (Returns r) = None"

definition settle :: "progress \<times> client \<Rightarrow> client_world \<Rightarrow> client_world" where
  "settle pc w = w\<lparr>cw_client := snd pc, cw_holder := holder_of (fst pc)\<rparr>"

definition new_world :: client_world where
  "new_world = \<lparr>cw_client = new_client, cw_holder = None, cw_closers = 0\<rparr>"

inductive client_step :: "ipc_env \<Rightarrow> client_cfg \<Rightarrow> client_world \<Rightarrow> client_world \<Rightarrow> bool"
  for ip cfg where
  begin_step: "cw_holder w = None \<Longrightarrow>
    client_step ip cfg w (settle (begin_job ip cfg request_id job (cw_client w)) w)"
| old_step: "cw_holder w = Some (StopOld job) \<Longrightarrow>
    client_step ip cfg w (settle (old_stopped cfg sc job (cw_client w)) w)"
| spawn_step: "cw_holder w = Some (Spawn job) \<Longrightarrow>
    client_step ip cfg w (settle (spawned cfg outcome job (cw_client w)) w)"
| ready_step: "cw_holder w = Some (ReadyLine job) \<Longrightarrow>
    client_step ip cfg w (settle (ready_line ip cfg request_id l job (cw_client w)) w)"
| reply_step: "cw_holder w = Some (Reply request) \<Longrightarrow>
    client_step ip cfg w (settle (reply ip cfg out request (cw_client w)) w)"
| abort_step: "cw_holder w = Some (Abort b e) \<Longrightarrow> (b \<longrightarrow> shielded sc) \<Longrightarrow>
    client_step ip cfg w (settle (aborted cfg sc e (cw_client w)) w)"
| close_request: "close_begin (cw_client w) = (None, c) \<Longrightarrow>
    client_step ip cfg w (w\<lparr>cw_client := c, cw_closers := Suc (cw_closers w)\<rparr>)"
| close_lock: "cw_holder w = None \<Longrightarrow> cw_closers w = Suc n \<Longrightarrow>
    client_step ip cfg w (settle (close_locked (cw_client w)) (w\<lparr>cw_closers := n\<rparr>))"
| close_interrupt: "cw_closers w = Suc n \<Longrightarrow> shielded sc \<Longrightarrow>
    interrupt_process cfg sc (cw_client w) = (r, c) \<Longrightarrow>
    client_step ip cfg w (w\<lparr>cw_client := c, cw_closers := (if isl r then n else Suc n)\<rparr>)"
| close_times_out: "cw_closers w = Suc n \<Longrightarrow> client_step ip cfg w (w\<lparr>cw_closers := n\<rparr>)"
| close_cancel: "cw_closers w = Suc n \<Longrightarrow> shielded sc \<Longrightarrow>
    close_canceled cfg sc (cw_client w) = (r, c) \<Longrightarrow>
    client_step ip cfg w (w\<lparr>cw_client := c, cw_closers := n\<rparr>)"
| close_stop: "cw_holder w = Some CloseStop \<Longrightarrow> shielded sc' \<Longrightarrow>
    client_step ip cfg w (settle (close_stopped cfg sc sc' (cw_client w)) w)"
| process_dies: "client_step ip cfg w (w\<lparr>cw_client := set_alive False (cw_client w)\<rparr>)"
| stderr_chunk: "client_step ip cfg w (w\<lparr>cw_client := drain_stderr cfg chunk (cw_client w)\<rparr>)"

inductive client_reach :: "ipc_env \<Rightarrow> client_cfg \<Rightarrow> client_world \<Rightarrow> client_world \<Rightarrow> bool"
  for ip cfg where
  reach_refl: "client_reach ip cfg w w"
| reach_step: "client_reach ip cfg w w' \<Longrightarrow> client_step ip cfg w' w'' \<Longrightarrow> client_reach ip cfg w w''"

section \<open>The invariant\<close>

definition idle_ok :: "client \<Rightarrow> bool" where
  "idle_ok c \<longleftrightarrow> (cl_state c = WReady \<longrightarrow>
     (\<forall>p. cl_process c = Some p \<longrightarrow> wp_pending p = 0 \<and> cl_dimension c \<noteq> None))"

definition working :: "client \<Rightarrow> bool" where
  "working c \<longleftrightarrow> cl_state c \<noteq> WReady \<and> cl_state c \<noteq> WClosed"

fun holder_ok :: "client \<Rightarrow> await option \<Rightarrow> bool" where
  "holder_ok c None \<longleftrightarrow> idle_ok c"
| "holder_ok c (Some (StopOld job)) \<longleftrightarrow> idle_ok c"
| "holder_ok c (Some (Spawn job)) \<longleftrightarrow> working c \<and> cl_process c = None"
| "holder_ok c (Some (ReadyLine job)) \<longleftrightarrow> working c \<and>
     (\<exists>p. cl_process c = Some p \<and> wp_pending p = 0)"
| "holder_ok c (Some (Reply r)) \<longleftrightarrow> working c \<and> rq_generation r = cl_generation c \<and> request_wf r \<and>
     cl_dimension c \<noteq> None \<and> (\<exists>p. cl_process c = Some p \<and> wp_pending p = 1)"
| "holder_ok c (Some (Abort b e)) \<longleftrightarrow> working c"
| "holder_ok c (Some CloseStop) \<longleftrightarrow> cl_closed c \<and> working c"

definition process_ok :: "client \<Rightarrow> bool" where
  "process_ok c \<longleftrightarrow>
     (case cl_process c of
        None \<Rightarrow> cl_dimension c = None
      | Some p \<Rightarrow> wp_generation p = cl_generation c \<and> 0 \<le> wp_pending p \<and> wp_pending p \<le> 1)"

definition closing_ok :: "client \<Rightarrow> await option \<Rightarrow> bool" where
  "closing_ok c h \<longleftrightarrow> (cl_closed c \<longrightarrow> cl_close_requested c \<and> (h = None \<or> h = Some CloseStop)) \<and>
     (cl_state c = WClosed \<longrightarrow> cl_closed c \<and> cl_process c = None)"

definition client_ok :: "client \<Rightarrow> await option \<Rightarrow> bool" where
  "client_ok c h \<longleftrightarrow> process_ok c \<and> closing_ok c h \<and> holder_ok c h"

definition world_ok :: "client_world \<Rightarrow> bool" where
  "world_ok w \<longleftrightarrow> client_ok (cw_client w) (cw_holder w) \<and>
     (0 < cw_closers w \<longrightarrow> cl_close_requested (cw_client w))"

lemmas ok_defs = client_ok_def process_ok_def closing_ok_def idle_ok_def working_def

lemma process_ok_update [simp]:
  "process_ok (c\<lparr>cl_state := st\<rparr>) = process_ok c"
  "process_ok (c\<lparr>cl_close_requested := b\<rparr>) = process_ok c"
  by (simp_all add: process_ok_def split: option.split)

subsection \<open>The stop\<close>

text \<open>A stop that returns has no process left; one that raises only changed the process.\<close>

lemma set_alive_simps [simp]:
  "cl_generation (set_alive b c) = cl_generation c" "cl_dimension (set_alive b c) = cl_dimension c"
  "cl_state (set_alive b c) = cl_state c" "cl_closed (set_alive b c) = cl_closed c"
  "cl_close_requested (set_alive b c) = cl_close_requested c"
  "cl_process (set_alive b c) = map_option (\<lambda>p. p\<lparr>wp_alive := b\<rparr>) (cl_process c)"
  by (simp_all add: set_alive_def)

lemma forget_process_simps [simp]:
  "cl_process (forget_process c) = None" "cl_dimension (forget_process c) = None"
  "cl_generation (forget_process c) = cl_generation c" "cl_state (forget_process c) = cl_state c"
  "cl_closed (forget_process c) = cl_closed c"
  "cl_close_requested (forget_process c) = cl_close_requested c"
  by (simp_all add: forget_process_def)

definition same_but_process :: "client \<Rightarrow> client \<Rightarrow> bool" where
  "same_but_process c c' \<longleftrightarrow> cl_generation c' = cl_generation c \<and> cl_state c' = cl_state c \<and>
     cl_closed c' = cl_closed c \<and> cl_close_requested c' = cl_close_requested c"

definition process_kept :: "client \<Rightarrow> client \<Rightarrow> bool" where
  "process_kept c c' \<longleftrightarrow> cl_dimension c' = cl_dimension c \<and>
     (\<exists>b. cl_process c' = map_option (\<lambda>p. p\<lparr>wp_alive := b (wp_alive p)\<rparr>) (cl_process c))"

lemma process_kept_refl [simp]: "process_kept c c"
  unfolding process_kept_def by (rule conjI, simp, rule exI [of _ id]) (simp add: option.map_ident)

lemma process_kept_alive [simp]: "process_kept c (set_alive b c)"
  unfolding process_kept_def by (rule conjI, simp, rule exI [of _ "\<lambda>_. b"]) simp

lemma same_refl [simp]: "same_but_process c c" "same_but_process c (set_alive b c)"
  "same_but_process c (forget_process c)" "same_but_process c (forget_process (set_alive b c))"
  by (simp_all add: same_but_process_def)

lemma kill_process_kept:
  "kill_process cfg sc c = (r, c') \<Longrightarrow> same_but_process c c' \<and> process_kept c c'"
  by (auto simp: kill_process_def split: wait_outcome.splits)

lemma interrupt_kept:
  "interrupt_process cfg sc c = (r, c') \<Longrightarrow> same_but_process c c' \<and> process_kept c c'"
  by (auto simp: interrupt_process_def split: if_splits dest: kill_process_kept)

lemma kill_process_result:
  "kill_process cfg sc c = (Inl e, c') \<Longrightarrow> c' = c"
  "kill_process cfg sc c = (Inr u, c') \<Longrightarrow> c' = set_alive False c"
  by (auto simp: kill_process_def split: wait_outcome.splits)

lemma stop_process_result:
  assumes "stop_process cfg force sc c = (r, c')"
  shows "same_but_process c c' \<and> (case r of
      Inr _ \<Rightarrow> cl_process c' = None \<and> cl_dimension c' = None
    | Inl _ \<Rightarrow> cl_process c' = None \<and> cl_dimension c' = None \<or> process_kept c c')"
  using assms
  by (auto simp: stop_process_def finish_stderr_def Let_def dest!: kill_process_result
      split: if_splits sum.splits prod.splits)

subsection \<open>The segments\<close>

text \<open>What a segment must leave: the invariant where it now waits, and the close request as it was.\<close>

definition segment_ok :: "client \<Rightarrow> progress \<times> client \<Rightarrow> bool" where
  "segment_ok c pc \<longleftrightarrow> client_ok (snd pc) (holder_of (fst pc)) \<and>
     cl_close_requested (snd pc) = cl_close_requested c"

lemma launch_ok:
  assumes "process_ok c" "cl_process c = None" "\<not> cl_closed c"
  shows "segment_ok c (launch job c)"
  using assms by (simp add: segment_ok_def launch_def ok_defs)

text \<open>The segments that hand over to a handler leave the client as it is.\<close>

lemma handler_ok:
  assumes "process_ok c" "\<not> cl_closed c" "working c"
  shows "client_ok c None" "client_ok c (Some (Abort b e))"
  using assms by (auto simp: client_ok_def closing_ok_def working_def idle_ok_def)

lemma embed_handler_ok:
  assumes "process_ok c" "\<not> cl_closed c" "working c"
  shows "segment_ok c (embed_handler cfg e c)"
  using handler_ok [OF assms] by (simp add: segment_ok_def embed_handler_def)

lemma startup_handler_ok:
  assumes "process_ok c" "\<not> cl_closed c" "working c"
  shows "segment_ok c (startup_handler cfg e c)"
  using handler_ok [OF assms] by (simp add: segment_ok_def startup_handler_def)

lemma fail_protocol_ok:
  assumes "process_ok c" "\<not> cl_closed c" "working c"
  shows "segment_ok c (fail_protocol m c)"
  using handler_ok [OF assms] by (simp add: segment_ok_def fail_protocol_def)

lemma build_request_Inr:
  assumes "build_request ip i texts c = Inr r"
  shows "r = \<lparr>rq_generation = cl_generation c, rq_request_id = i, rq_texts = texts\<rparr> \<and> request_wf r"
proof -
  have r: "embedding_request_of ip (request_fields (cl_generation c) i texts) = Some r"
    using assms by (simp add: build_request_def Let_def split: option.splits)
  then have "rq_generation r = cl_generation c \<and> rq_request_id r = i \<and> rq_texts r = texts"
    by (auto simp: embedding_request_of_def request_fields_def generation_field_def
        request_id_field_def strict_Some texts_field_Some bind_eq_Some_conv inj_map_eq_map inj_def
        split: if_splits)
  with embedding_request_of_Some [OF r] show ?thesis by (cases r) auto
qed

lemma job_started_ok:
  assumes "process_ok c" "\<not> cl_closed c" "cl_state c = WReady"
    and "cl_process c = Some p" "wp_pending p = 0" "cl_dimension c \<noteq> None"
  shows "segment_ok c (job_started ip cfg i job c)"
proof (cases job)
  case Start
  with assms show ?thesis by (simp add: job_started_def segment_ok_def ok_defs)
next
  case (Embed texts)
  show ?thesis
  proof (cases "build_request ip i texts c")
    case (Inl e)
    with Embed assms show ?thesis
      by (simp add: job_started_def embed_started_def segment_ok_def ok_defs)
  next
    case (Inr r)
    let ?c = "c\<lparr>cl_state := WBusy\<rparr>"
    have c: "process_ok ?c" "\<not> cl_closed ?c" "working ?c" using assms by (simp_all add: ok_defs)
    have h: "segment_ok c (embed_handler cfg e ?c)" for e
      using embed_handler_ok [OF c] by (simp add: segment_ok_def)
    let ?w = "?c\<lparr>cl_process := map_option (\<lambda>p. p\<lparr>wp_pending := wp_pending p + 1\<rparr>) (cl_process ?c)\<rparr>"
    have "client_ok ?w (Some (Reply r))"
      using assms build_request_Inr [OF Inr] by (auto simp: ok_defs)
    then have "segment_ok c (Awaits (Reply r), ?w)" by (simp add: segment_ok_def)
    then have "segment_ok c (write_request ip cfg r ?c)"
      using h by (simp add: write_request_def split: sum.split)
    with Inr Embed show ?thesis by (simp add: job_started_def embed_started_def)
  qed
qed

lemma begin_job_ok:
  assumes "client_ok c None"
  shows "segment_ok c (begin_job ip cfg i job c)"
proof (cases "ensure_open c")
  case (Some e)
  with assms show ?thesis by (simp add: begin_job_def segment_ok_def)
next
  case None
  then have open_: "\<not> cl_closed c" by (simp add: ensure_open_def split: if_splits)
  have st: "cl_state c \<noteq> WClosed" using assms open_ by (simp add: ok_defs)
  show ?thesis
  proof (cases "cl_state c = WReady \<and> process_alive c")
    case True
    then obtain p where p: "cl_process c = Some p"
      by (auto simp: process_alive_def split: option.splits)
    with True assms have "wp_pending p = 0" "cl_dimension c \<noteq> None" "process_ok c"
      by (simp_all add: client_ok_def idle_ok_def)
    with job_started_ok [OF _ open_ _ p] True None show ?thesis
      by (simp add: begin_job_def ensure_started_def)
  next
    case False
    show ?thesis
    proof (cases "cl_process c = None")
      case True
      with launch_ok [OF _ True open_] False None assms show ?thesis
        by (auto simp: begin_job_def ensure_started_def client_ok_def)
    next
      case p: False
      have "segment_ok c (Awaits (StopOld job), c)"
        using assms open_ st by (simp add: segment_ok_def client_ok_def closing_ok_def)
      with False p None show ?thesis by (auto simp: begin_job_def ensure_started_def)
    qed
  qed
qed

text \<open>A stop that only changed the process keeps what the invariant says of it.\<close>

lemma kept_process_ok:
  "same_but_process c c' \<Longrightarrow> process_kept c c' \<Longrightarrow> process_ok c \<Longrightarrow> process_ok c'"
  by (cases "cl_process c") (auto simp: same_but_process_def process_kept_def process_ok_def)

lemma kept_idle_ok:
  "same_but_process c c' \<Longrightarrow> process_kept c c' \<Longrightarrow> idle_ok c \<Longrightarrow> idle_ok c'"
  by (cases "cl_process c") (auto simp: same_but_process_def process_kept_def idle_ok_def)

lemma kept_holder_ok:
  assumes "same_but_process c c'" "process_kept c c'" "holder_ok c h"
  shows "holder_ok c' h"
proof (cases h)
  case None
  with assms kept_idle_ok show ?thesis by simp
next
  case (Some a)
  have i: "idle_ok c \<Longrightarrow> idle_ok c'" by (rule kept_idle_ok [OF assms(1,2)])
  have w: "working c' = working c" "cl_generation c' = cl_generation c" "cl_closed c' = cl_closed c"
      "cl_dimension c' = cl_dimension c"
    using assms(1,2) by (simp_all add: same_but_process_def process_kept_def working_def)
  obtain b where p: "cl_process c' = map_option (\<lambda>p. p\<lparr>wp_alive := b (wp_alive p)\<rparr>) (cl_process c)"
    using assms(2) by (auto simp: process_kept_def)
  show ?thesis
    using assms(3) i unfolding Some by (cases a) (auto simp: w p simp del: holder_ok.simps(1))
qed

lemma kept_client_ok:
  assumes "same_but_process c c'" "process_kept c c'" "client_ok c h"
  shows "client_ok c' h"
proof -
  have "closing_ok c' h" using assms
    by (auto simp: same_but_process_def process_kept_def closing_ok_def client_ok_def)
  with assms kept_process_ok kept_holder_ok show ?thesis by (simp add: client_ok_def)
qed

lemma stop_process_failed:
  assumes "stop_process cfg force sc c = (Inl e, c')" "process_ok c" "\<not> cl_closed c"
    and "cl_state c \<noteq> WClosed" "idle_ok c"
  shows "client_ok c' None \<and> cl_close_requested c' = cl_close_requested c"
proof -
  from stop_process_result [OF assms(1)] have s: "same_but_process c c'"
    "cl_process c' = None \<and> cl_dimension c' = None \<or> process_kept c c'" by simp_all
  from s(2) have "process_ok c' \<and> idle_ok c'"
  proof
    assume "process_kept c c'"
    with s(1) assms kept_process_ok kept_idle_ok show ?thesis by blast
  qed (simp add: process_ok_def idle_ok_def)
  with s(1) assms(3,4) show ?thesis
    by (simp add: client_ok_def closing_ok_def same_but_process_def)
qed

lemma old_stopped_ok:
  assumes "client_ok c (Some (StopOld job))"
  shows "segment_ok c (old_stopped cfg sc job c)"
proof -
  have c: "process_ok c" "\<not> cl_closed c" "cl_state c \<noteq> WClosed" "idle_ok c"
    using assms by (auto simp: client_ok_def closing_ok_def)
  obtain r c' where s: "stop_process cfg True sc c = (r, c')" by fastforce
  show ?thesis
  proof (cases r)
    case (Inl e)
    from stop_process_failed [OF s [unfolded Inl] c] s Inl show ?thesis
      by (simp add: old_stopped_def segment_ok_def)
  next
    case (Inr u)
    from stop_process_result [OF s] Inr have "same_but_process c c'" "cl_process c' = None"
      "cl_dimension c' = None" by simp_all
    moreover from this c have "segment_ok c' (launch job c')"
      by (intro launch_ok) (simp_all add: process_ok_def same_but_process_def)
    ultimately show ?thesis using s Inr by (simp add: old_stopped_def segment_ok_def same_but_process_def)
  qed
qed

lemma spawned_ok:
  assumes "client_ok c (Some (Spawn job))"
  shows "segment_ok c (spawned cfg outcome job c)"
proof -
  have c: "process_ok c" "\<not> cl_closed c" "working c" "cl_process c = None"
    using assms by (auto simp: client_ok_def closing_ok_def)
  show ?thesis
  proof (cases outcome)
    case (Inl e)
    with startup_handler_ok [OF c(1-3)] show ?thesis by (simp add: spawned_def)
  next
    case (Inr pid)
    with c show ?thesis by (simp add: spawned_def segment_ok_def ok_defs)
  qed
qed

lemma line_read_kept [simp]: "same_but_process c (line_read l c)" "process_kept c (line_read l c)"
  by (simp_all add: line_read_def split: line_outcome.split)

lemma same_requested: "same_but_process c c' \<Longrightarrow> segment_ok c' pc \<Longrightarrow> segment_ok c pc"
  by (simp add: segment_ok_def same_but_process_def)

lemma ready_line_ok:
  assumes "client_ok c (Some (ReadyLine job))"
  shows "segment_ok c (ready_line ip cfg i l job c)"
proof -
  define c1 where "c1 = line_read l c"
  have "client_ok c1 (Some (ReadyLine job))"
    unfolding c1_def by (rule kept_client_ok [OF _ _ assms]) simp_all
  then obtain p where c: "process_ok c1" "\<not> cl_closed c1" "working c1" "cl_process c1 = Some p"
      "wp_pending p = 0"
    by (auto simp: client_ok_def closing_ok_def)
  have r: "segment_ok c1 (job_started ip cfg i job (c1\<lparr>cl_dimension := Some d, cl_state := WReady\<rparr>))" for d
  proof -
    have "segment_ok (c1\<lparr>cl_dimension := Some d, cl_state := WReady\<rparr>)
        (job_started ip cfg i job (c1\<lparr>cl_dimension := Some d, cl_state := WReady\<rparr>))"
      by (rule job_started_ok) (use c in \<open>simp_all add: process_ok_def\<close>)
    then show ?thesis by (simp add: segment_ok_def)
  qed
  have "segment_ok c1 (ready_line ip cfg i l job c)"
    using r startup_handler_ok [OF c(1-3)]
    by (simp add: ready_line_def Let_def c1_def [symmetric] split: sum.split)
  then show ?thesis using same_requested [of c c1] by (simp add: c1_def)
qed

text \<open>After a reply was read (or not), the request is still the one written last.\<close>

definition replying :: "client \<Rightarrow> embedding_request \<Rightarrow> client \<Rightarrow> bool" where
  "replying c r c1 \<longleftrightarrow> process_ok c1 \<and> \<not> cl_closed c1 \<and> working c1 \<and> cl_dimension c1 \<noteq> None \<and>
     cl_close_requested c1 = cl_close_requested c \<and>
     cl_generation c1 = cl_generation c \<and> cl_dimension c1 = cl_dimension c \<and>
     (\<exists>p. cl_process c1 = Some p)"

lemma reply_read_ok:
  assumes "client_ok c (Some (Reply r))"
  shows "replying c r (reply_read out c) \<and>
    (\<forall>raw. out = ReplyLine (Line raw) \<longrightarrow>
      (\<forall>p. cl_process (reply_read out c) = Some p \<longrightarrow> wp_pending p = 0))"
proof -
  obtain p where c: "process_ok c" "\<not> cl_closed c" "working c" "cl_process c = Some p"
      "wp_pending p = 1" "cl_dimension c \<noteq> None"
    using assms by (auto simp: client_ok_def closing_ok_def)
  show ?thesis
  proof (cases out)
    case (PipeClosed e)
    with c show ?thesis by (simp add: reply_read_def replying_def)
  next
    case (ReplyLine l)
    show ?thesis
    proof (cases l)
      case (Line raw)
      with ReplyLine c show ?thesis
        by (simp add: reply_read_def replying_def process_ok_def working_def)
    next
      case (Eof code)
      with ReplyLine c show ?thesis
        by (simp add: reply_read_def line_read_def replying_def process_ok_def working_def)
    next
      case (LineRaises e)
      with ReplyLine c show ?thesis by (simp add: reply_read_def line_read_def replying_def)
    qed
  qed
qed

lemma reply_line:
  "read_reply c out = Inr raw \<Longrightarrow> out = ReplyLine (Line raw) \<and> raw \<noteq> [] \<and> last raw = 10"
  by (cases "(c, out)" rule: read_reply.cases; cases "case out of ReplyLine l \<Rightarrow> l | _ \<Rightarrow> Eof 0")
    (auto split: if_splits)

lemma returned_ok:
  assumes "replying c r c1" "\<forall>p. cl_process c1 = Some p \<longrightarrow> wp_pending p = 0"
  shows "segment_ok c (Returns res, c1\<lparr>cl_state := WReady\<rparr>)"
  using assms
  by (auto simp: segment_ok_def client_ok_def closing_ok_def idle_ok_def process_ok_def replying_def)

lemma reply_ok:
  assumes "client_ok c (Some (Reply r))"
  shows "segment_ok c (reply ip cfg out r c)"
proof -
  define c1 where "c1 = reply_read out c"
  have c1: "replying c r c1" using reply_read_ok [OF assms] by (simp add: c1_def)
  then have ok: "process_ok c1" "\<not> cl_closed c1" "working c1" by (simp_all add: replying_def)
  have up: "segment_ok c1 pc \<Longrightarrow> segment_ok c pc" for pc
    using c1 by (simp add: segment_ok_def replying_def)
  have fails: "segment_ok c (fail_protocol m c1)" for m by (rule up [OF fail_protocol_ok [OF ok]])
  show ?thesis
  proof (cases "rbind (read_reply c1 out) (decode_worker_response ip (cc_max_response_bytes cfg))")
    case (Inl e)
    with up [OF embed_handler_ok [OF ok]] show ?thesis
      by (simp only: reply_def Let_def c1_def [symmetric] Inl sum.case)
  next
    case (Inr response)
    then obtain raw where "read_reply c1 out = Inr raw" by auto
    with reply_line have "out = ReplyLine (Line raw)" by blast
    with reply_read_ok [OF assms] have "\<forall>p. cl_process c1 = Some p \<longrightarrow> wp_pending p = 0"
      by (simp add: c1_def)
    note ret = returned_ok [OF c1 this]
    have "segment_ok c (check_reply r response c1)"
    proof (cases response)
      case (Ready x)
      with fails show ?thesis by (simp add: check_reply_def)
    next
      case (Result x)
      with fails ret show ?thesis by (simp add: check_reply_def)
    next
      case (Failure x)
      with ret show ?thesis by (simp add: check_reply_def)
    qed
    then show ?thesis by (simp only: reply_def Let_def c1_def [symmetric] Inr sum.case)
  qed
qed

lemma aborted_ok:
  assumes "client_ok c (Some (Abort b e))"
  shows "segment_ok c (aborted cfg sc e c)"
proof -
  have c: "process_ok c" "\<not> cl_closed c" "cl_state c \<noteq> WClosed" "idle_ok c"
    using assms by (auto simp: client_ok_def closing_ok_def working_def idle_ok_def)
  obtain r c' where s: "stop_process cfg True sc c = (r, c')" by fastforce
  show ?thesis
  proof (cases r)
    case (Inl x)
    from stop_process_failed [OF s [unfolded Inl] c] s Inl show ?thesis
      by (simp add: aborted_def segment_ok_def)
  next
    case (Inr u)
    from stop_process_result [OF s] Inr have "same_but_process c c'" "cl_process c' = None"
      "cl_dimension c' = None" by simp_all
    with s Inr c(2) show ?thesis
      by (simp add: aborted_def segment_ok_def ok_defs same_but_process_def)
  qed
qed

lemma close_locked_ok:
  assumes "client_ok c None" "cl_close_requested c"
  shows "segment_ok c (close_locked c)"
  using assms by (auto simp: close_locked_def segment_ok_def client_ok_def process_ok_def
      closing_ok_def working_def split: option.splits)

lemma close_canceled_kept:
  assumes "close_canceled cfg sc c = (r, c')"
  shows "same_but_process (c\<lparr>cl_state := WStopping\<rparr>) c' \<and> process_kept (c\<lparr>cl_state := WStopping\<rparr>) c'"
proof -
  obtain x where "interrupt_process cfg sc (c\<lparr>cl_state := WStopping\<rparr>) = (x, c')"
    using assms by (auto simp: close_canceled_def split: sum.splits prod.splits)
  then show ?thesis by (rule interrupt_kept)
qed

lemma stopping_ok:
  assumes "client_ok c h"
  shows "client_ok (c\<lparr>cl_state := WStopping\<rparr>) h"
proof -
  have "holder_ok (c\<lparr>cl_state := WStopping\<rparr>) h"
    using assms by (cases "(c, h)" rule: holder_ok.cases)
      (auto simp: client_ok_def idle_ok_def working_def)
  with assms show ?thesis by (simp add: client_ok_def closing_ok_def)
qed

lemma close_canceled_ok:
  assumes "close_canceled cfg sc c = (r, c')" "client_ok c h"
  shows "client_ok c' h \<and> cl_close_requested c' = cl_close_requested c"
  using kept_client_ok [OF _ _ stopping_ok [OF assms(2)]] close_canceled_kept [OF assms(1)]
  by (auto simp: same_but_process_def)

lemma close_stopped_ok:
  assumes "client_ok c (Some CloseStop)"
  shows "segment_ok c (close_stopped cfg sc sc' c)"
proof -
  have c: "process_ok c" "cl_closed c" "cl_close_requested c" "working c"
    using assms by (auto simp: client_ok_def closing_ok_def)
  obtain r c' where s: "stop_process cfg False sc c = (r, c')" by fastforce
  from stop_process_result [OF s] have same: "same_but_process c c'" by simp
  show ?thesis
  proof (cases r)
    case (Inr u)
    from stop_process_result [OF s] Inr same c s show ?thesis
      by (simp add: close_stopped_def segment_ok_def ok_defs same_but_process_def)
  next
    case (Inl e)
    have "process_ok c'" using stop_process_result [OF s] Inl kept_process_ok [OF same _ c(1)]
      by (auto simp: process_ok_def)
    with same c have ok: "client_ok c' None"
      by (auto simp: client_ok_def closing_ok_def same_but_process_def working_def idle_ok_def)
    obtain x c2 where x: "close_canceled cfg sc' c' = (x, c2)" by fastforce
    from close_canceled_ok [OF x ok] ok s Inl x same show ?thesis
      by (simp add: close_stopped_def segment_ok_def same_but_process_def)
  qed
qed

section \<open>Every reachable world\<close>

lemma settle_ok:
  assumes "world_ok w" "cw_holder w = h"
    and "client_ok (cw_client w) h \<Longrightarrow> segment_ok (cw_client w) pc"
  shows "world_ok (settle pc w)"
  using assms by (auto simp: world_ok_def settle_def segment_ok_def)

lemma new_world_ok: "world_ok new_world"
  by (simp add: world_ok_def new_world_def new_client_def ok_defs)

lemma client_step_ok:
  assumes "client_step ip cfg w w'" "world_ok w"
  shows "world_ok w'"
  using assms(1)
proof cases
  case (begin_step i job)
  show ?thesis unfolding begin_step(1) by (rule settle_ok [OF assms(2) begin_step(2) begin_job_ok])
next
  case (old_step job sc)
  show ?thesis unfolding old_step(1) by (rule settle_ok [OF assms(2) old_step(2) old_stopped_ok])
next
  case (spawn_step job out)
  show ?thesis unfolding spawn_step(1) by (rule settle_ok [OF assms(2) spawn_step(2) spawned_ok])
next
  case (ready_step job i l)
  show ?thesis unfolding ready_step(1) by (rule settle_ok [OF assms(2) ready_step(2) ready_line_ok])
next
  case (reply_step r out)
  show ?thesis unfolding reply_step(1) by (rule settle_ok [OF assms(2) reply_step(2) reply_ok])
next
  case (abort_step b e sc)
  show ?thesis unfolding abort_step(1) by (rule settle_ok [OF assms(2) abort_step(2) aborted_ok])
next
  case (close_request c)
  then have c: "c = cw_client w\<lparr>cl_close_requested := True\<rparr>"
    by (simp add: close_begin_def split: if_splits)
  have "client_ok c (cw_holder w)"
  proof -
    have "holder_ok c (cw_holder w)"
      using assms(2) by (cases "(c, cw_holder w)" rule: holder_ok.cases)
        (auto simp: c world_ok_def client_ok_def idle_ok_def working_def)
    with assms(2) show ?thesis by (simp add: c world_ok_def client_ok_def closing_ok_def)
  qed
  with close_request c show ?thesis by (simp add: world_ok_def)
next
  case (close_lock n)
  have "segment_ok (cw_client w) (close_locked (cw_client w))"
    using assms(2) close_lock by (intro close_locked_ok) (simp_all add: world_ok_def)
  then show ?thesis unfolding close_lock
    by (simp add: settle_def segment_ok_def world_ok_def)
      (use assms(2) close_lock in \<open>auto simp: world_ok_def\<close>)
next
  case (close_interrupt n sc r c)
  from interrupt_kept [OF close_interrupt(4)] have k: "same_but_process (cw_client w) c"
    "process_kept (cw_client w) c" by simp_all
  with assms(2) kept_client_ok [OF k] close_interrupt show ?thesis
    by (simp add: world_ok_def same_but_process_def)
next
  case (close_times_out n)
  with assms(2) show ?thesis by (simp add: world_ok_def)
next
  case (close_cancel n sc r c)
  with assms(2) close_canceled_ok [OF close_cancel(4)] show ?thesis by (auto simp: world_ok_def)
next
  case (close_stop sc' sc)
  show ?thesis unfolding close_stop(1) by (rule settle_ok [OF assms(2) close_stop(2) close_stopped_ok])
next
  case process_dies
  with assms(2) kept_client_ok [of "cw_client w" "set_alive False (cw_client w)"] show ?thesis
    by (simp add: world_ok_def)
next
  case (stderr_chunk chunk)
  have "same_but_process (cw_client w) (drain_stderr cfg chunk (cw_client w)) \<and>
      process_kept (cw_client w) (drain_stderr cfg chunk (cw_client w))"
    unfolding same_but_process_def process_kept_def
    by (simp add: drain_stderr_def, rule exI [of _ id]) (simp add: option.map_ident)
  with assms(2) kept_client_ok stderr_chunk show ?thesis
    by (simp add: world_ok_def) (auto simp: drain_stderr_def)
qed

lemma client_reach_ok: "client_reach ip cfg w w' \<Longrightarrow> world_ok w \<Longrightarrow> world_ok w'"
  by (induction rule: client_reach.induct) (blast intro: client_step_ok)+

section \<open>Closing is final\<close>

definition shut :: "client_world \<Rightarrow> bool" where
  "shut w \<longleftrightarrow> cl_closed (cw_client w) \<and> cl_process (cw_client w) = None"

definition closed_error :: exn where
  "closed_error = exn_of EmbeddingWorkerError ''embedding worker client is closed''"

lemma begin_job_closed:
  "cl_closed c \<Longrightarrow> begin_job ip cfg i job c = (Returns (Inl closed_error), c)"
  by (simp add: begin_job_def ensure_open_def closed_error_def)

lemma shut_step:
  assumes "client_step ip cfg w w'" "world_ok w" "shut w"
  shows "shut w'"
proof -
  have h: "cw_holder w = None \<or> cw_holder w = Some CloseStop"
    using assms(2,3) by (simp add: world_ok_def client_ok_def closing_ok_def shut_def)
  have none: "cl_process c' = None" if "process_kept c c'" "cl_process c = None" for c c'
    using that by (auto simp: process_kept_def)
  note sh = assms(3) [unfolded shut_def]
  from assms(1) show ?thesis
  proof cases
    case (begin_step i job)
    with sh begin_job_closed show ?thesis by (simp add: shut_def settle_def)
  next
    case (close_request c)
    with sh show ?thesis by (auto simp: shut_def close_begin_def split: if_splits)
  next
    case (close_lock n)
    with sh show ?thesis by (simp add: shut_def settle_def close_locked_def)
  next
    case (close_interrupt n sc r c)
    with interrupt_kept [OF close_interrupt(4)] sh none show ?thesis
      by (auto simp: shut_def same_but_process_def)
  next
    case (close_cancel n sc r c)
    with close_canceled_kept [OF close_cancel(4)] sh none show ?thesis
      by (fastforce simp: shut_def same_but_process_def)
  next
    case (close_stop sc' sc)
    obtain r c' where s: "stop_process cfg False sc (cw_client w) = (r, c')" by fastforce
    have c': "cl_closed c' \<and> cl_process c' = None"
      using stop_process_result [OF s] sh none
      by (auto simp: same_but_process_def split: sum.splits)
    obtain x c2 where x: "close_canceled cfg sc' c' = (x, c2)" by fastforce
    have "cl_closed c2 \<and> cl_process c2 = None"
      using close_canceled_kept [OF x] c' none by (fastforce simp: same_but_process_def)
    with close_stop s x c' show ?thesis
      by (simp add: shut_def settle_def close_stopped_def split: sum.split)
  qed (use h sh in \<open>auto simp: shut_def drain_stderr_def\<close>)
qed

lemma shut_reach:
  assumes "client_reach ip cfg w w'" "world_ok w" "shut w"
  shows "shut w'"
  using assms
proof (induction rule: client_reach.induct)
  case (reach_step w w' w'')
  with client_reach_ok shut_step show ?case by blast
qed

section \<open>Properties of the client\<close>

text \<open>
  C26. In every state the client can reach, its process was started for its current generation and
  at most one request is unanswered; while a task waits for the reply to a request, that request
  is well formed, carries that generation and is the only one unanswered; and a worker that is
  taken as READY for the next request is one that announced its dimension and owes no reply.
\<close>

theorem exchange_exclusive:
  assumes "client_reach ip cfg new_world w"
  shows "(\<forall>p. cl_process (cw_client w) = Some p \<longrightarrow>
      wp_generation p = cl_generation (cw_client w) \<and> 0 \<le> wp_pending p \<and> wp_pending p \<le> 1) \<and>
    (\<forall>r. cw_holder w = Some (Reply r) \<longrightarrow>
      (\<exists>p. cl_process (cw_client w) = Some p \<and> wp_pending p = 1 \<and>
        rq_generation r = wp_generation p \<and> request_wf r)) \<and>
    (cw_holder w = None \<and> cl_state (cw_client w) = WReady \<and> process_alive (cw_client w) \<longrightarrow>
      (\<exists>p. cl_process (cw_client w) = Some p \<and> wp_pending p = 0 \<and>
        cl_dimension (cw_client w) \<noteq> None))"
proof -
  have c: "client_ok (cw_client w) (cw_holder w)"
    using client_reach_ok [OF assms new_world_ok] by (simp add: world_ok_def)
  then have p: "wp_generation p = cl_generation (cw_client w) \<and> 0 \<le> wp_pending p \<and> wp_pending p \<le> 1"
    if "cl_process (cw_client w) = Some p" for p
    using that by (simp add: client_ok_def process_ok_def)
  moreover have "\<exists>p. cl_process (cw_client w) = Some p \<and> wp_pending p = 1 \<and>
      rq_generation r = wp_generation p \<and> request_wf r" if "cw_holder w = Some (Reply r)" for r
    using that c p by (auto simp: client_ok_def)
  moreover have "\<exists>p. cl_process (cw_client w) = Some p \<and> wp_pending p = 0 \<and>
      cl_dimension (cw_client w) \<noteq> None"
    if "cw_holder w = None" "cl_state (cw_client w) = WReady" "process_alive (cw_client w)"
    using that c
    by (cases "cl_process (cw_client w)") (auto simp: client_ok_def idle_ok_def process_alive_def)
  ultimately show ?thesis by blast
qed

text \<open>
  C27. A closed client stays closed: after \<open>aclose\<close> has reached \<open>CLOSED\<close>, no process exists and
  none is ever started again, whatever the other tasks do, and every further call raises the
  error of a closed client.
\<close>

theorem closed_for_good:
  assumes "client_reach ip cfg new_world w" "cl_state (cw_client w) = WClosed"
    and "client_reach ip cfg w w'"
  shows "cl_process (cw_client w') = None \<and> cl_dimension (cw_client w') = None \<and>
    begin_job ip cfg request_id job (cw_client w') = (Returns (Inl closed_error), cw_client w')"
proof -
  have w: "world_ok w" by (rule client_reach_ok [OF assms(1) new_world_ok])
  with assms(2) have "shut w" by (simp add: shut_def world_ok_def client_ok_def closing_ok_def)
  with shut_reach [OF assms(3) w] have "shut w'" by blast
  moreover have "process_ok (cw_client w')"
    using client_reach_ok [OF assms(3) w] by (simp add: world_ok_def client_ok_def)
  ultimately show ?thesis
    using begin_job_closed by (simp add: shut_def process_ok_def)
qed

text \<open>
  Exactly when a batch is embedded: the vectors \<open>embed_batch\<close> returns are those of a complete
  line that decodes to a result of this client's generation with the id of the request, with one
  vector for every text and each of the dimension announced by READY.
\<close>

theorem batch_accepted_iff:
  "reply ip cfg out r c = (Returns (Inr vs), c') \<longleftrightarrow>
     (\<exists>raw x. out = ReplyLine (Line raw) \<and> raw \<noteq> [] \<and> last raw = 10 \<and>
       decode_worker_response ip (cc_max_response_bytes cfg) raw = Inr (Result x) \<and>
       es_generation x = cl_generation c \<and> es_request_id x = rq_request_id r \<and>
       len (es_vectors x) = len (rq_texts r) \<and> cl_dimension c \<noteq> None \<and>
       (\<forall>v\<in>set (es_vectors x). cl_dimension c = Some (len v)) \<and>
       vs = es_vectors x \<and> c' = (reply_read out c)\<lparr>cl_state := WReady\<rparr>)"
proof -
  have h: "embed_handler cfg e d \<noteq> (Returns (Inr vs), c')" for e d
    by (simp add: embed_handler_def)
  have same: "cl_generation (reply_read out c) = cl_generation c"
    "cl_dimension (reply_read out c) = cl_dimension c"
    by (simp_all add: reply_read_def line_read_def split: reply_outcome.split line_outcome.split)
  have ch: "check_reply r resp (reply_read out c) = (Returns (Inr vs), c') \<longleftrightarrow>
      (\<exists>x. resp = Result x \<and> es_generation x = cl_generation c \<and> es_request_id x = rq_request_id r \<and>
        len (es_vectors x) = len (rq_texts r) \<and> cl_dimension c \<noteq> None \<and>
        (\<forall>v\<in>set (es_vectors x). cl_dimension c = Some (len v)) \<and>
        vs = es_vectors x \<and> c' = (reply_read out c)\<lparr>cl_state := WReady\<rparr>)" for resp
    by (cases resp) (auto simp: check_reply_def fail_protocol_def same list_ex_iff)
  have "read_reply (reply_read out c) out = Inr raw \<longleftrightarrow>
      out = ReplyLine (Line raw) \<and> raw \<noteq> [] \<and> last raw = 10" for raw
    using reply_line [of "reply_read out c" out raw] by auto
  then show ?thesis
    by (auto simp: reply_def Let_def h ch split: sum.split)
qed

section \<open>A client at work\<close>

text \<open>One batch from the first call to the wait for its reply.\<close>

definition sample_cfg :: client_cfg where
  "sample_cfg =
     \<lparr>cc_command = [lit ''python''], cc_model_version = lit ''v1'', cc_startup_timeout = lit ''30.0'',
      cc_inference_timeout = lit ''10.0'', cc_lock_timeout = lit ''5.0'',
      cc_shutdown_timeout = lit ''2.0'', cc_max_request_bytes = 4096, cc_max_response_bytes = 4096,
      cc_max_stderr_chars = 100\<rparr>"

definition sample_ready :: bytes where
  "sample_ready =
     (case encode_message sample_ipc 4096 (Response (Ready
        \<lparr>wr_generation = 1, wr_model_version = lit ''v1'', wr_dimension = 2\<rparr>)) of
        Inr raw \<Rightarrow> raw | Inl e \<Rightarrow> [])"

definition sample_job :: job where
  "sample_job = Embed [lit ''a'']"

definition client_world_at :: "nat \<Rightarrow> client_world" where
  "client_world_at n =
     (let w1 = settle (begin_job sample_ipc sample_cfg sample_uuid sample_job new_client) new_world;
          w2 = settle (spawned sample_cfg (Inr 7) sample_job (cw_client w1)) w1;
          w3 = settle (ready_line sample_ipc sample_cfg sample_uuid (Line sample_ready) sample_job
                 (cw_client w2)) w2
      in if n = 0 then w1 else if n = 1 then w2 else w3)"

lemma client_holders:
  "cw_holder (client_world_at 0) = Some (Spawn sample_job)"
  "cw_holder (client_world_at 1) = Some (ReadyLine sample_job)"
  "case cw_holder (client_world_at 2) of Some (Reply r) \<Rightarrow> rq_generation r = 1 | _ \<Rightarrow> False"
  by code_simp+

lemma client_world_at_steps:
  "client_world_at 1 = settle (spawned sample_cfg (Inr 7) sample_job (cw_client (client_world_at 0))) (client_world_at 0)"
  "client_world_at 2 = settle (ready_line sample_ipc sample_cfg sample_uuid (Line sample_ready) sample_job
     (cw_client (client_world_at 1))) (client_world_at 1)"
  by (simp_all add: client_world_at_def Let_def)

lemma client_work_reach: "client_reach sample_ipc sample_cfg new_world (client_world_at 2)"
proof -
  have "client_step sample_ipc sample_cfg new_world (client_world_at 0)"
    using client_step.begin_step [of new_world sample_ipc sample_cfg sample_uuid sample_job]
    by (simp add: client_world_at_def Let_def new_world_def)
  then have "client_reach sample_ipc sample_cfg new_world (client_world_at 0)"
    by (rule reach_step [OF reach_refl])
  from reach_step [OF this client_step.spawn_step [OF client_holders(1)]]
  have "client_reach sample_ipc sample_cfg new_world (client_world_at 1)"
    unfolding client_world_at_steps(1) .
  from reach_step [OF this client_step.ready_step [OF client_holders(2)]]
  show ?thesis unfolding client_world_at_steps(2) .
qed

theorem exchange_exclusive_witness:
  "\<exists>r p. cw_holder (client_world_at 2) = Some (Reply r) \<and> rq_generation r = 1 \<and>
     cl_process (cw_client (client_world_at 2)) = Some p \<and> wp_pending p = 1"
  using exchange_exclusive [OF client_work_reach] client_holders(3)
  by (auto split: option.splits await.splits)

text \<open>
  Two tasks close a new client, the first succeeds; then the second, which had its turn coming,
  is canceled, and the state of the closed client becomes \<open>STOPPING\<close> again.
\<close>

definition closing_world :: "nat \<Rightarrow> client_world" where
  "closing_world n =
     (let c1 = new_client\<lparr>cl_close_requested := True\<rparr>;
          w1 = new_world\<lparr>cw_client := c1, cw_closers := 1\<rparr>;
          w2 = new_world\<lparr>cw_client := c1, cw_closers := Suc (Suc 0)\<rparr>;
          w3 = settle (close_locked c1) (w2\<lparr>cw_closers := 1\<rparr>);
          w4 = settle (close_stopped sample_cfg \<lparr>sc_graceful = Gone, sc_kill = Gone, sc_stderr = Gone\<rparr>
                 \<lparr>sc_graceful = Gone, sc_kill = Gone, sc_stderr = Gone\<rparr> (cw_client w3)) w3
      in if n = 1 then w1 else if n = 2 then w2 else if n = 3 then w3 else w4)"

lemma closing_reach:
  "client_reach ip sample_cfg new_world (closing_world 4)"
  "cl_state (cw_client (closing_world 4)) = WClosed" "cw_closers (closing_world 4) = 1"
proof -
  let ?sc = "\<lparr>sc_graceful = Gone, sc_kill = Gone, sc_stderr = Gone\<rparr>"
  note w = closing_world_def Let_def settle_def new_world_def new_client_def close_locked_def
  have "client_step ip sample_cfg new_world (closing_world 1)"
    using client_step.close_request [of new_world "new_client\<lparr>cl_close_requested := True\<rparr>" ip sample_cfg]
    by (simp add: w close_begin_def)
  then have "client_reach ip sample_cfg new_world (closing_world 1)"
    by (rule reach_step [OF reach_refl])
  moreover have "client_step ip sample_cfg (closing_world 1) (closing_world 2)"
    using client_step.close_request [of "closing_world 1" "new_client\<lparr>cl_close_requested := True\<rparr>" ip sample_cfg]
    by (simp add: w close_begin_def)
  ultimately have "client_reach ip sample_cfg new_world (closing_world 2)" by (rule reach_step)
  moreover have "client_step ip sample_cfg (closing_world 2) (closing_world 3)"
    using client_step.close_lock [of "closing_world 2" 1 ip sample_cfg] by (simp add: w)
  ultimately have "client_reach ip sample_cfg new_world (closing_world 3)" by (rule reach_step)
  moreover have "client_step ip sample_cfg (closing_world 3) (closing_world 4)"
    using client_step.close_stop [of "closing_world 3" ?sc ip sample_cfg ?sc]
    by (simp add: w shielded_def)
  ultimately show "client_reach ip sample_cfg new_world (closing_world 4)" by (rule reach_step)
  show "cl_state (cw_client (closing_world 4)) = WClosed" "cw_closers (closing_world 4) = 1"
    by (simp_all add: w close_stopped_def stop_process_def finish_stderr_def forget_process_def)
qed

lemma closed_state_lost:
  "\<exists>w. client_step ip sample_cfg (closing_world 4) w \<and> cl_state (cw_client w) = WStopping"
proof -
  let ?sc = "\<lparr>sc_graceful = Gone, sc_kill = Gone, sc_stderr = Gone\<rparr>"
  obtain r c where c: "close_canceled sample_cfg ?sc (cw_client (closing_world 4)) = (r, c)"
    by fastforce
  then have "cl_state c = WStopping"
    using close_canceled_kept [OF c] by (simp add: same_but_process_def)
  moreover have "client_step ip sample_cfg (closing_world 4)
      ((closing_world 4)\<lparr>cw_client := c, cw_closers := 0\<rparr>)"
    by (rule client_step.close_cancel [OF _ _ c]) (simp_all add: closing_reach shielded_def)
  ultimately show ?thesis by force
qed

theorem closed_for_good_witness:
  "cl_process (cw_client (closing_world 4)) = None \<and>
   begin_job sample_ipc sample_cfg sample_uuid Start (cw_client (closing_world 4)) =
     (Returns (Inl closed_error), cw_client (closing_world 4))"
  using closed_for_good [OF closing_reach(1) [of sample_ipc] closing_reach(2) reach_refl] by simp

end
