(* ===== verification/Embedding_Worker.thy ===== *)
theory Embedding_Worker
  imports Worker_Protocol
begin

text \<open>
  \<open>rag/embedding_worker.py\<close>: the worker process. It loads one model, announces it with a READY
  message and answers one JSON line after the other until its input ends. The model, the streams'
  failures and what argparse does before \<open>serve\<close> are parameters.
\<close>

section \<open>The process\<close>

definition exit_ok :: int where "exit_ok = 0"
definition exit_startup_failure :: int where "exit_startup_failure = 20"
definition exit_protocol_failure :: int where "exit_protocol_failure = 30"
definition exit_output_failure :: int where "exit_output_failure = 40"

text \<open>
  What \<open>encode\<close> returns: an object without a callable \<open>tolist\<close>, or what \<open>tolist()\<close> does. A call of
  the model is numbered, for it may answer the same batch differently another time.
\<close>

datatype model_output = No_tolist | Tolist "exn + json"

record worker_env =
  we_ipc :: ipc_env
  we_load :: "pystr \<Rightarrow> exn + json"
  we_encode :: "nat \<Rightarrow> pystr list \<Rightarrow> exn + model_output"
  we_write :: "nat \<Rightarrow> exn option"
  we_value_error :: "exc_class \<Rightarrow> bool"

text \<open>
  The streams: the input not read yet, the messages written, the diagnostics, and how many calls
  of the model and writes were made.
\<close>

record worker_io =
  wk_in :: bytes
  wk_sent :: "worker_response list"
  wk_log :: "(string \<times> exc_class) list"
  wk_calls :: nat
  wk_writes :: nat

definition write_diagnostic :: "string \<Rightarrow> exn \<Rightarrow> worker_io \<Rightarrow> worker_io" where
  "write_diagnostic marker e io = io\<lparr>wk_log := wk_log io @ [(marker, exn_class e)]\<rparr>"

definition os_error :: "exc_class \<Rightarrow> bool" where
  "os_error c \<longleftrightarrow> c = PyException (lit ''BrokenPipeError'') \<or> c = PyException (lit ''OSError'')"

text \<open>\<open>_emit\<close>: whether the message was written; what is no \<open>OSError\<close> goes through.\<close>

definition emit_message :: "worker_env \<Rightarrow> worker_response \<Rightarrow> worker_io \<Rightarrow> (exn + bool) \<times> worker_io" where
  "emit_message env message io =
     (case encode_message (we_ipc env) max_protocol_message_bytes (Response message) of
        Inl e \<Rightarrow> (if os_error (exn_class e) then Inr False else Inl e, io)
      | Inr encoded \<Rightarrow>
          (let io' = io\<lparr>wk_writes := Suc (wk_writes io)\<rparr> in
           case we_write env (wk_writes io) of
             Some e \<Rightarrow> (if os_error (exn_class e) then Inr False else Inl e, io')
           | None \<Rightarrow> (Inr True, io'\<lparr>wk_sent := wk_sent io @ [message]\<rparr>)))"

text \<open>A model built from fields, or pydantic's \<open>ValidationError\<close>.\<close>

definition construct ::
  "ipc_env \<Rightarrow> string \<Rightarrow> ((pystr, json) dict \<Rightarrow> 'm option) \<Rightarrow> (pystr, json) dict \<Rightarrow> exn + 'm" where
  "construct ip name model kwargs =
     (case model kwargs of Some m \<Rightarrow> Inr m | None \<Rightarrow> Inl (ip_error ip name kwargs))"

definition worker_failure_fields ::
  "int \<Rightarrow> pystr option \<Rightarrow> string \<Rightarrow> string \<Rightarrow> (pystr, json) dict" where
  "worker_failure_fields generation request_id error_type message =
     message_members (Response (Failure
       \<lparr>wf_generation = generation, wf_request_id = request_id,
        wf_error_type = lit error_type, wf_message = lit message\<rparr>))"

definition new_failure ::
  "worker_env \<Rightarrow> int \<Rightarrow> pystr option \<Rightarrow> string \<Rightarrow> string \<Rightarrow> exn + worker_failure" where
  "new_failure env generation request_id error_type message =
     construct (we_ipc env) ''WorkerFailure'' (worker_failure_of (we_ipc env))
       (worker_failure_fields generation request_id error_type message)"

text \<open>Build a failure message, write it, and give the exit code.\<close>

definition fail_with ::
  "worker_env \<Rightarrow> int \<Rightarrow> pystr option \<Rightarrow> string \<Rightarrow> string \<Rightarrow> int \<Rightarrow> worker_io \<Rightarrow>
   (exn + int) \<times> worker_io" where
  "fail_with env generation request_id error_type message code io =
     (case new_failure env generation request_id error_type message of
        Inl e \<Rightarrow> (Inl e, io)
      | Inr failure \<Rightarrow>
          (case emit_message env (Failure failure) io of
             (Inl e, io') \<Rightarrow> (Inl e, io')
           | (Inr written, io') \<Rightarrow> (Inr (if written then code else exit_output_failure), io')))"

definition terminate_for_protocol_error ::
  "worker_env \<Rightarrow> int \<Rightarrow> pystr option \<Rightarrow> exn \<Rightarrow> worker_io \<Rightarrow> (exn + int) \<times> worker_io" where
  "terminate_for_protocol_error env generation request_id cause io =
     fail_with env generation request_id ''protocol_error''
       ''embedding worker rejected an invalid request'' exit_protocol_failure
       (write_diagnostic ''PROTOCOL_ERROR'' cause io)"

section \<open>Inference\<close>

fun coerce_vector :: "int \<Rightarrow> json \<Rightarrow> exn + json" where
  "coerce_vector expected_dimension (JArr raw_vector) =
     (if len raw_vector = expected_dimension then Inr (JArr raw_vector)
      else Inl (exn_of PyValueError ''model output dimension does not match READY''))"
| "coerce_vector expected_dimension _ =
     Inl (exn_of PyValueError ''model output dimension does not match READY'')"

definition coerce_vectors :: "model_output \<Rightarrow> int \<Rightarrow> int \<Rightarrow> exn + json list" where
  "coerce_vectors output expected_batch_size expected_dimension =
     (case output of
        No_tolist \<Rightarrow> Inl (exn_of PyTypeError ''model output must expose tolist()'')
      | Tolist raw \<Rightarrow>
          rbind raw (\<lambda>raw_vectors.
            case raw_vectors of
              JArr vs \<Rightarrow>
                if len vs = expected_batch_size then rmap_list (coerce_vector expected_dimension) vs
                else Inl (exn_of PyValueError ''model output batch size does not match request'')
            | _ \<Rightarrow> Inl (exn_of PyValueError ''model output batch size does not match request'')))"

definition output_invalid :: "worker_env \<Rightarrow> exc_class \<Rightarrow> bool" where
  "output_invalid env c \<longleftrightarrow> c = PyTypeError \<or> c = PyValueError \<or>
     c = PyException (lit ''ValidationError'') \<or> we_value_error env c"

definition result_fields :: "embedding_request \<Rightarrow> json list \<Rightarrow> (pystr, json) dict" where
  "result_fields request vectors =
     [(lit ''protocol_version'', JInt protocol_version), (lit ''type'', JStr (lit ''result'')),
      (lit ''generation'', JInt (rq_generation request)),
      (lit ''request_id'', JStr (rq_request_id request)), (lit ''vectors'', JArr vectors)]"

definition run_inference ::
  "worker_env \<Rightarrow> embedding_request \<Rightarrow> int \<Rightarrow> worker_io \<Rightarrow> (exn + worker_response) \<times> worker_io" where
  "run_inference env request dimension io =
     (let result = rbind (we_encode env (wk_calls io) (rq_texts request)) (\<lambda>output.
            rbind (coerce_vectors output (len (rq_texts request)) dimension) (\<lambda>vectors.
            construct (we_ipc env) ''EmbeddingResult'' (embedding_result_of (we_ipc env))
              (result_fields request vectors)));
          io' = io\<lparr>wk_calls := Suc (wk_calls io)\<rparr>;
          failure = (\<lambda>error_type message.
            rmap Failure (new_failure env (rq_generation request) (Some (rq_request_id request))
              error_type message))
      in case result of
           Inr r \<Rightarrow> (Inr (Result r), io')
         | Inl e \<Rightarrow>
             if output_invalid env (exn_class e) then
               (failure ''model_output_invalid'' ''embedding model returned an invalid result'',
                write_diagnostic ''MODEL_OUTPUT_INVALID'' e io')
             else if is_exception (exn_class e) then
               (failure ''model_inference_failed'' ''embedding model inference failed'',
                write_diagnostic ''MODEL_INFERENCE_FAILED'' e io')
             else (Inl e, io'))"

section \<open>The serve loop\<close>

text \<open>\<open>readline(limit)\<close>: up to and with the next line feed, at most \<open>limit\<close> bytes.\<close>

definition readline :: "int \<Rightarrow> bytes \<Rightarrow> bytes \<times> bytes" where
  "readline limit s =
     (let n = nat (min limit (len (takeWhile (\<lambda>b. b \<noteq> 10) s) + 1)) in (take n s, drop n s))"

text \<open>One pass of the loop: \<open>None\<close> when it goes on.\<close>

definition serve_step ::
  "worker_env \<Rightarrow> int \<Rightarrow> int \<Rightarrow> worker_io \<Rightarrow> (exn + int) option \<times> worker_io" where
  "serve_step env generation dimension io =
     (let (raw_request, rest) = readline (max_protocol_message_bytes + 1) (wk_in io);
          io0 = io\<lparr>wk_in := rest\<rparr> in
      if raw_request = [] then (Some (Inr exit_ok), io0)
      else if max_protocol_message_bytes < len raw_request \<or> last raw_request \<noteq> 10 then
        apfst Some (terminate_for_protocol_error env generation None
          (exn_of EmbeddingWorkerProtocolError
            ''embedding worker request is oversized or not newline terminated'') io0)
      else case decode_worker_request (we_ipc env) max_protocol_message_bytes raw_request of
        Inl e \<Rightarrow>
          if exn_class e = EmbeddingWorkerProtocolError
          then apfst Some (terminate_for_protocol_error env generation None e io0)
          else (Some (Inl e), io0)
      | Inr request \<Rightarrow>
          if rq_generation request \<noteq> generation then
            apfst Some (terminate_for_protocol_error env generation (Some (rq_request_id request))
              (exn_of EmbeddingWorkerProtocolError
                ''embedding request generation does not match worker generation'') io0)
          else case run_inference env request dimension io0 of
            (Inl e, io1) \<Rightarrow> (Some (Inl e), io1)
          | (Inr response, io1) \<Rightarrow>
              (case emit_message env response io1 of
                 (Inl e, io2) \<Rightarrow> (Some (Inl e), io2)
               | (Inr written, io2) \<Rightarrow>
                   (if written then None else Some (Inr exit_output_failure), io2)))"

lemma readline_append: "readline n s = (a, b) \<Longrightarrow> s = a @ b"
  by (auto simp: readline_def Let_def)

lemma readline_shorter: "readline n s = (a, b) \<Longrightarrow> a \<noteq> [] \<Longrightarrow> length b < length s"
  using readline_append [of n s a b] by (cases a) auto

lemma write_diagnostic_frame [simp]:
  "wk_in (write_diagnostic m e io) = wk_in io" "wk_sent (write_diagnostic m e io) = wk_sent io"
  "wk_writes (write_diagnostic m e io) = wk_writes io"
  by (simp_all add: write_diagnostic_def)

lemma emit_message_frame: "emit_message env m io = (r, io') \<Longrightarrow> wk_in io' = wk_in io"
  by (auto simp: emit_message_def Let_def split: sum.splits option.splits if_splits)

lemma run_inference_frame:
  "run_inference env q d io = (r, io') \<Longrightarrow> wk_in io' = wk_in io \<and> wk_sent io' = wk_sent io"
  by (auto simp: run_inference_def Let_def split: sum.splits if_splits)

lemma serve_step_consumes:
  assumes "serve_step env g d io = (None, io')"
  shows "length (wk_in io') < length (wk_in io)"
proof -
  obtain a b where r: "readline (max_protocol_message_bytes + 1) (wk_in io) = (a, b)" by fastforce
  with assms have "a \<noteq> []" "wk_in io' = b"
    by (auto simp: serve_step_def Let_def apfst_def map_prod_def dest!: emit_message_frame run_inference_frame
        split: if_splits sum.splits prod.splits)
  with readline_shorter [OF r] show ?thesis by simp
qed

text \<open>The loop ends because every pass that goes on has read a line.\<close>

function serve_loop :: "worker_env \<Rightarrow> int \<Rightarrow> int \<Rightarrow> worker_io \<Rightarrow> (exn + int) \<times> worker_io" where
  "serve_loop env generation dimension io =
     (case serve_step env generation dimension io of
        (Some r, io') \<Rightarrow> (r, io')
      | (None, io') \<Rightarrow> serve_loop env generation dimension io')"
  by pat_completeness auto
termination
  by (relation "measure (\<lambda>(env, g, d, io). length (wk_in io))") (auto dest: serve_step_consumes [OF sym])

declare serve_loop.simps [simp del]

text \<open>The READY message of a loaded model, or the exception the start-up handler sees.\<close>

fun valid_dimension :: "json \<Rightarrow> bool" where
  "valid_dimension (JInt d) \<longleftrightarrow> 1 \<le> d \<and> d \<le> max_vector_dimension"
| "valid_dimension _ \<longleftrightarrow> False"

definition ready_fields :: "int \<Rightarrow> pystr \<Rightarrow> json \<Rightarrow> (pystr, json) dict" where
  "ready_fields generation model_version dimension =
     [(lit ''protocol_version'', JInt protocol_version), (lit ''type'', JStr (lit ''ready'')),
      (lit ''generation'', JInt generation), (lit ''model_version'', JStr model_version),
      (lit ''dimension'', dimension)]"

definition load_model :: "worker_env \<Rightarrow> int \<Rightarrow> pystr \<Rightarrow> pystr \<Rightarrow> exn + worker_ready" where
  "load_model env generation model_name model_version =
     rbind (we_load env model_name) (\<lambda>dimension.
       if \<not> valid_dimension dimension
       then Inl (exn_of PyValueError ''embedding model returned an invalid dimension'')
       else construct (we_ipc env) ''WorkerReady'' (worker_ready_of (we_ipc env))
         (ready_fields generation model_version dimension))"

definition serve :: "worker_env \<Rightarrow> int \<Rightarrow> pystr \<Rightarrow> pystr \<Rightarrow> worker_io \<Rightarrow> (exn + int) \<times> worker_io" where
  "serve env generation model_name model_version io =
     (case load_model env generation model_name model_version of
        Inl e \<Rightarrow>
          if is_exception (exn_class e) then
            fail_with env (max generation 0) None ''model_startup_failed''
              ''embedding model failed to initialize'' exit_startup_failure
              (write_diagnostic ''MODEL_STARTUP_FAILED'' e io)
          else (Inl e, io)
      | Inr ready \<Rightarrow>
          (case emit_message env (Ready ready) io of
             (Inl e, io') \<Rightarrow> (Inl e, io')
           | (Inr written, io') \<Rightarrow>
               if written then serve_loop env generation (wr_dimension ready) io'
               else (Inr exit_output_failure, io')))"

section \<open>The command line\<close>

text \<open>
  The types of the arguments, on what \<open>int(value)\<close> gives. argparse turns their errors into a usage
  message; the arguments stand in the order of the parser.
\<close>

definition argument_type_error :: "string \<Rightarrow> exn" where
  "argument_type_error m = exn_of (PyException (lit ''ArgumentTypeError'')) m"

definition non_negative_int :: "(pystr \<Rightarrow> exn + int) \<Rightarrow> pystr \<Rightarrow> exn + int" where
  "non_negative_int parse_int value =
     rbind (parse_int value) (\<lambda>parsed.
       if parsed < 0 then Inl (argument_type_error ''must be greater than or equal to 0'')
       else Inr parsed)"

definition bounded_non_blank :: "pystr \<Rightarrow> exn + pystr" where
  "bounded_non_blank value =
     (if py_strip value = [] \<or> 256 < len value
      then Inl (argument_type_error ''must contain 1 to 256 non-blank characters'')
      else Inr value)"

definition worker_main ::
  "worker_env \<Rightarrow> (pystr \<Rightarrow> exn + int) \<Rightarrow> pystr \<Rightarrow> pystr \<Rightarrow> pystr \<Rightarrow> worker_io \<Rightarrow>
   (exn + int) \<times> worker_io" where
  "worker_main env parse_int generation model_name model_version io =
     (case rbind (non_negative_int parse_int generation) (\<lambda>g.
         rbind (bounded_non_blank model_name) (\<lambda>n.
         rmap (\<lambda>v. (g, n, v)) (bounded_non_blank model_version))) of
        Inl e \<Rightarrow> (Inl e, io)
      | Inr (g, n, v) \<Rightarrow> serve env g n v io)"

section \<open>Answers\<close>

text \<open>What the worker may send back for a request, with the dimension READY announced.\<close>

fun answers :: "int \<Rightarrow> embedding_request \<Rightarrow> worker_response \<Rightarrow> bool" where
  "answers d q (Result r) \<longleftrightarrow>
     es_generation r = rq_generation q \<and> es_request_id r = rq_request_id q \<and>
     len (es_vectors r) = len (rq_texts q) \<and> (\<forall>v\<in>set (es_vectors r). len v = d)"
| "answers d q (Failure f) \<longleftrightarrow>
     wf_generation f = rq_generation q \<and> wf_request_id f = Some (rq_request_id q) \<and>
     wf_error_type f \<in> {lit ''model_output_invalid'', lit ''model_inference_failed''}"
| "answers d q (Ready r) \<longleftrightarrow> False"

lemma construct_Inr [simp]: "construct ip name model kwargs = Inr m \<longleftrightarrow> model kwargs = Some m"
  by (simp add: construct_def split: option.split)

lemma new_failure_Inr:
  assumes "new_failure env g i t m = Inr f"
  shows "f = \<lparr>wf_generation = g, wf_request_id = i, wf_error_type = lit t, wf_message = lit m\<rparr>"
  using assms
  by (cases i) (auto simp: new_failure_def worker_failure_of_def worker_failure_fields_def
      generation_field_def optional_request_id_def strict_Some bind_eq_Some_conv
      split: if_splits)

lemma coerce_vector_Inr: "coerce_vector d v = Inr w \<longleftrightarrow> (\<exists>xs. v = JArr xs \<and> w = v \<and> len xs = d)"
  by (cases v) auto

lemma coerce_vectors_Inr:
  assumes "coerce_vectors output n d = Inr vs"
  shows "len vs = n \<and> (\<forall>v\<in>set vs. \<exists>xs. v = JArr xs \<and> len xs = d)"
proof -
  obtain ws where ws: "len ws = n" "rmap_list (coerce_vector d) ws = Inr vs"
  proof (cases "output")
    case No_tolist
    with assms show ?thesis by (simp add: coerce_vectors_def)
  next
    case (Tolist raw)
    with assms obtain v where v: "raw = Inr v" by (auto simp: coerce_vectors_def)
    with assms Tolist that show ?thesis
      by (cases v) (auto simp: coerce_vectors_def split: if_splits)
  qed
  then have "list_all2 (\<lambda>w v. coerce_vector d w = Inr v) ws vs" by (simp add: rmap_list_Inr)
  then have "\<forall>v\<in>set vs. \<exists>xs. v = JArr xs \<and> len xs = d"
    by (induction rule: list_all2_induct) (auto simp: coerce_vector_Inr)
  with ws rmap_list_length [OF ws(2)] show ?thesis by simp
qed

lemma result_fields_Some:
  assumes "embedding_result_of ip (result_fields q vs) = Some r"
  shows "es_generation r = rq_generation q \<and> es_request_id r = rq_request_id q \<and>
    es_vectors r = map (float_list (ip_text ip)) vs"
  using assms
  by (auto simp: embedding_result_of_def result_fields_def generation_field_def request_id_field_def
      strict_Some vectors_field_def bind_eq_Some_conv split: if_splits)

lemma run_inference_answers:
  assumes "run_inference env q d io = (Inr resp, io')"
  shows "answers d q resp"
proof -
  let ?result = "rbind (we_encode env (wk_calls io) (rq_texts q)) (\<lambda>output.
      rbind (coerce_vectors output (len (rq_texts q)) d) (\<lambda>vectors.
      construct (we_ipc env) ''EmbeddingResult'' (embedding_result_of (we_ipc env))
        (result_fields q vectors)))"
  show ?thesis
  proof (cases ?result)
    case (Inr r)
    with assms have resp: "resp = Result r" by (simp add: run_inference_def Let_def)
    from Inr obtain out vs where vs: "coerce_vectors out (len (rq_texts q)) d = Inr vs"
        "embedding_result_of (we_ipc env) (result_fields q vs) = Some r"
      by auto
    from coerce_vectors_Inr [OF vs(1)] result_fields_Some [OF vs(2)] show ?thesis
      unfolding resp by fastforce
  next
    case (Inl e)
    with assms obtain t m f where "resp = Failure f"
        "new_failure env (rq_generation q) (Some (rq_request_id q)) t m = Inr f"
        "t \<in> {''model_output_invalid'', ''model_inference_failed''}"
      by (auto simp: run_inference_def Let_def split: if_splits)
    with new_failure_Inr show ?thesis by fastforce
  qed
qed

lemma emit_message_sent:
  "emit_message env m io = (Inr written, io') \<Longrightarrow>
   wk_sent io' = wk_sent io @ (if written then [m] else [])"
  by (auto simp: emit_message_def Let_def split: sum.splits option.splits if_splits)

definition failure_of_type :: "string \<Rightarrow> int \<Rightarrow> worker_response list \<Rightarrow> bool" where
  "failure_of_type t g ms \<longleftrightarrow>
     (\<exists>f. ms = [Failure f] \<and> wf_error_type f = lit t \<and> wf_generation f = g)"

lemma fail_with_sent:
  assumes "fail_with env g i t m code io = (Inr c, io')"
  shows "wk_in io' = wk_in io \<and>
    (c = code \<and> (\<exists>ms. wk_sent io' = wk_sent io @ ms \<and> failure_of_type t g ms) \<or>
     c = exit_output_failure \<and> wk_sent io' = wk_sent io)"
proof -
  obtain f written where f: "new_failure env g i t m = Inr f"
      "emit_message env (Failure f) io = (Inr written, io')"
      "c = (if written then code else exit_output_failure)"
    using assms by (auto simp: fail_with_def split: sum.splits prod.splits)
  from emit_message_frame [OF f(2)] emit_message_sent [OF f(2)] new_failure_Inr [OF f(1)] f(3) show ?thesis
    by (auto simp: failure_of_type_def)
qed

lemma terminate_sent:
  assumes "terminate_for_protocol_error env g i cause io = (Inr c, io')"
  shows "wk_in io' = wk_in io \<and>
    (c = exit_protocol_failure \<and>
       (\<exists>ms. wk_sent io' = wk_sent io @ ms \<and> failure_of_type ''protocol_error'' g ms) \<or>
     c = exit_output_failure \<and> wk_sent io' = wk_sent io)"
  using fail_with_sent [OF assms [unfolded terminate_for_protocol_error_def]] by simp

text \<open>A line of the input that carries a request of this generation.\<close>

definition line_request :: "worker_env \<Rightarrow> int \<Rightarrow> bytes \<Rightarrow> embedding_request \<Rightarrow> bool" where
  "line_request env g line q \<longleftrightarrow> line \<noteq> [] \<and> last line = 10 \<and>
     decode_worker_request (we_ipc env) max_protocol_message_bytes line = Inr q \<and>
     rq_generation q = g"

lemma serve_step_goes_on:
  assumes "serve_step env g d io = (None, io')"
  shows "\<exists>line q resp. wk_in io = line @ wk_in io' \<and> line_request env g line q \<and>
    answers d q resp \<and> wk_sent io' = wk_sent io @ [resp]"
proof -
  obtain a b where r: "readline (max_protocol_message_bytes + 1) (wk_in io) = (a, b)" by fastforce
  let ?io0 = "io\<lparr>wk_in := b\<rparr>"
  from assms r obtain q resp io1 where q: "a \<noteq> []" "last a = 10"
      "decode_worker_request (we_ipc env) max_protocol_message_bytes a = Inr q"
      "rq_generation q = g" "run_inference env q d ?io0 = (Inr resp, io1)"
      "emit_message env resp io1 = (Inr True, io')"
    by (auto simp: serve_step_def Let_def apfst_def map_prod_def
        split: if_splits sum.splits prod.splits)
  from q(1-4) have "line_request env g a q" by (simp add: line_request_def)
  moreover have "answers d q resp" using q(5) by (rule run_inference_answers)
  ultimately show ?thesis
    using readline_append [OF r] run_inference_frame [OF q(5)] emit_message_frame [OF q(6)]
      emit_message_sent [OF q(6)]
    by (intro exI [of _ a] exI [of _ q] exI [of _ resp]) simp
qed

lemma serve_step_ends:
  assumes "serve_step env g d io = (Some (Inr code), io')"
  shows "code = exit_ok \<and> wk_in io = [] \<and> wk_sent io' = wk_sent io \<or>
    code = exit_protocol_failure \<and> wk_in io \<noteq> [] \<and>
      (\<exists>ms. wk_sent io' = wk_sent io @ ms \<and> failure_of_type ''protocol_error'' g ms) \<or>
    code = exit_output_failure \<and> wk_sent io' = wk_sent io"
proof -
  obtain a b where r: "readline (max_protocol_message_bytes + 1) (wk_in io) = (a, b)" by fastforce
  have empty: "a = [] \<longleftrightarrow> wk_in io = []"
    using r by (auto simp: readline_def Let_def max_protocol_message_bytes_def)
  let ?io0 = "io\<lparr>wk_in := b\<rparr>"
  from assms r consider "a = []" "code = exit_ok" "io' = ?io0"
    | i cause where "a \<noteq> []" "terminate_for_protocol_error env g i cause ?io0 = (Inr code, io')"
    | q resp io1 where "a \<noteq> []" "run_inference env q d ?io0 = (Inr resp, io1)"
        "emit_message env resp io1 = (Inr False, io')" "code = exit_output_failure"
    by (auto simp: serve_step_def Let_def apfst_def map_prod_def
        split: if_splits sum.splits prod.splits)
  then show ?thesis
  proof cases
    case 2
    with terminate_sent [OF 2(2)] empty show ?thesis by auto
  next
    case 3
    with run_inference_frame [OF 3(2)] emit_message_sent [OF 3(3)] show ?thesis by simp
  qed (use empty in simp)
qed

text \<open>The messages of a loop from the first line on.\<close>

definition loop_served ::
  "worker_env \<Rightarrow> int \<Rightarrow> int \<Rightarrow> bytes \<Rightarrow> int \<Rightarrow> worker_response list \<Rightarrow> bool" where
  "loop_served env g d input code ms \<longleftrightarrow>
     (\<exists>lines rest reqs resps final. ms = resps @ final \<and> input = concat lines @ rest \<and>
        list_all2 (line_request env g) lines reqs \<and> list_all2 (answers d) reqs resps \<and>
        (code = exit_ok \<and> rest = [] \<and> final = [] \<or>
         code = exit_protocol_failure \<and> rest \<noteq> [] \<and> failure_of_type ''protocol_error'' g final \<or>
         code = exit_output_failure \<and> final = []))"

lemma loop_served_Cons:
  assumes "loop_served env g d input code ms" "line_request env g line q" "answers d q resp"
  shows "loop_served env g d (line @ input) code (resp # ms)"
proof -
  obtain lines rest reqs resps final where l: "ms = resps @ final" "input = concat lines @ rest"
      "list_all2 (line_request env g) lines reqs" "list_all2 (answers d) reqs resps"
      "code = exit_ok \<and> rest = [] \<and> final = [] \<or>
       code = exit_protocol_failure \<and> rest \<noteq> [] \<and> failure_of_type ''protocol_error'' g final \<or>
       code = exit_output_failure \<and> final = []"
    using assms(1) unfolding loop_served_def by blast
  show ?thesis
    unfolding loop_served_def
    by (rule exI [of _ "line # lines"], rule exI [of _ rest], rule exI [of _ "q # reqs"],
        rule exI [of _ "resp # resps"], rule exI [of _ final])
      (use l assms(2,3) in simp)
qed

lemma serve_loop_served:
  "serve_loop env g d io = (Inr code, io') \<Longrightarrow>
   \<exists>ms. wk_sent io' = wk_sent io @ ms \<and> loop_served env g d (wk_in io) code ms"
proof (induction env g d io rule: serve_loop.induct)
  case (1 env g d io)
  obtain r io1 where s: "serve_step env g d io = (r, io1)" by fastforce
  show ?case
  proof (cases r)
    case None
    with s "1.prems" have "serve_loop env g d io1 = (Inr code, io')"
      by (simp add: serve_loop.simps [of env g d io])
    with "1.IH" [OF s [symmetric] None] obtain ms where
      ms: "wk_sent io' = wk_sent io1 @ ms" "loop_served env g d (wk_in io1) code ms" by blast
    obtain line q resp where l: "wk_in io = line @ wk_in io1" "line_request env g line q"
        "answers d q resp" "wk_sent io1 = wk_sent io @ [resp]"
      using serve_step_goes_on s None by blast
    from loop_served_Cons [OF ms(2) l(2,3)] l ms(1) show ?thesis by auto
  next
    case (Some x)
    with s "1.prems" have x: "x = Inr code" "io1 = io'"
      by (simp_all add: serve_loop.simps [of env g d io])
    from serve_step_ends s Some x
    have e: "code = exit_ok \<and> wk_in io = [] \<and> wk_sent io' = wk_sent io \<or>
      code = exit_protocol_failure \<and> wk_in io \<noteq> [] \<and>
        (\<exists>ms. wk_sent io' = wk_sent io @ ms \<and> failure_of_type ''protocol_error'' g ms) \<or>
      code = exit_output_failure \<and> wk_sent io' = wk_sent io" by blast
    then obtain final where "wk_sent io' = wk_sent io @ final"
      "code = exit_ok \<and> wk_in io = [] \<and> final = [] \<or>
       code = exit_protocol_failure \<and> wk_in io \<noteq> [] \<and> failure_of_type ''protocol_error'' g final \<or>
       code = exit_output_failure \<and> final = []"
      by auto
    then show ?thesis
      unfolding loop_served_def
      by (intro exI [of _ final] conjI)
        (assumption, rule exI [of _ "[]"], rule exI [of _ "wk_in io"], rule exI [of _ "[]"],
          rule exI [of _ "[]"], rule exI [of _ final], simp)
  qed
qed

section \<open>Property of the worker\<close>


text \<open>A worker with a model of two dimensions on one request, and the same request in another generation.\<close>

definition sample_worker :: worker_env where
  "sample_worker =
     \<lparr>we_ipc = sample_ipc, we_load = (\<lambda>_. Inr (JInt 2)),
      we_encode = (\<lambda>_ ts. Inr (Tolist (Inr (JArr
        (map (\<lambda>_. JArr [JFloat (lit ''0.5''), JFloat (lit ''0.25'')]) ts))))),
      we_write = (\<lambda>_. None), we_value_error = (\<lambda>_. False)\<rparr>"

definition sample_line :: bytes where
  "sample_line =
     (case encode_message sample_ipc 4096 (Request sample_request) of Inr raw \<Rightarrow> raw | Inl e \<Rightarrow> [])"

definition sample_io :: worker_io where
  "sample_io = \<lparr>wk_in = sample_line, wk_sent = [], wk_log = [], wk_calls = 0, wk_writes = 0\<rparr>"

lemma sample_serve:
  "map_prod (\<lambda>r. case r of Inr c \<Rightarrow> c | Inl e \<Rightarrow> -1) (\<lambda>io. length (wk_sent io))
     (serve sample_worker 3 [] (lit ''v1'') sample_io) = (0, 2)"
  by code_simp


end
