(* ===== verification/Embedding_Service.thy ===== *)
theory Embedding_Service
  imports Client_Steps Embedding_Worker
begin

text \<open>
  Client and worker together: a request the client wrote is read by the worker as one line and
  decoded to the same request, and the answer the worker sends passes every check of the client.
\<close>

section \<open>Lines\<close>

text \<open>Printed JSON has no line feed of its own, and UTF-8 makes none.\<close>

fun floats_inline :: "json \<Rightarrow> bool" where
  "floats_inline (JFloat t) \<longleftrightarrow> 10 \<notin> set t"
| "floats_inline (JArr vs) \<longleftrightarrow> (\<forall>v\<in>set vs. floats_inline v)"
| "floats_inline (JObj kvs) \<longleftrightarrow> (\<forall>(k, v)\<in>set kvs. floats_inline v)"
| "floats_inline _ \<longleftrightarrow> True"

lemma nat_digits_no_lf: "0 \<le> n \<Longrightarrow> 10 \<notin> set (nat_digits n)"
  using nat_digits_props [of n] by (auto simp: list_all_iff is_digit_def)

lemma escape_no_lf:
  assumes "0 \<le> c"
  shows "10 \<notin> set (escape_char c)"
proof -
  have "hex_digit (c div 16) \<noteq> 10 \<and> hex_digit (c mod 16) \<noteq> 10" if "c < 32"
    using that assms by (auto simp: hex_digit_def)
  then show ?thesis by (auto simp: escape_char_def)
qed

lemma quote_no_lf: "\<forall>c\<in>set s. 0 \<le> c \<Longrightarrow> 10 \<notin> set (quote_str s)"
  using escape_no_lf by (auto simp: quote_str_def)

lemma join_no_lf: "10 \<notin> set sep \<Longrightarrow> \<forall>s\<in>set ss. 10 \<notin> set s \<Longrightarrow> 10 \<notin> set (py_join sep ss)"
  by (induction sep ss rule: py_join.induct) auto

lemma dumps_no_lf:
  "json_ok cfg v \<Longrightarrow> floats_inline v \<Longrightarrow> 10 \<notin> set (json_dumps compact_plain v)"
proof (induction v)
  case (JInt i)
  show ?case using int_text_chars [of i] by (auto simp: list_all_iff is_digit_def)
next
  case (JStr s)
  then show ?case using quote_no_lf by simp
next
  case (JArr vs)
  then have "\<forall>t\<in>set (map (json_dumps compact_plain) vs). 10 \<notin> set t" by auto
  with join_no_lf [of "dc_item_sep compact_plain"] show ?case
    by (simp add: compact_plain_def lit_def)
next
  case (JObj kvs)
  have "10 \<notin> set (quote_str k @ lit '':'' @ json_dumps compact_plain v)" if "(k, v) \<in> set kvs" for k v
    using that JObj.prems JObj.IH [of "(k, v)" v] quote_no_lf [of k] by (force simp: lit_def)
  then have "\<forall>t\<in>set (map (\<lambda>(k, t). quote_str k @ lit '':'' @ t)
      (map (\<lambda>(k, v). (k, json_dumps compact_plain v)) kvs)). 10 \<notin> set t"
    by auto
  with join_no_lf [of "lit '',''"] show ?case
    by (simp add: compact_plain_def lit_def Let_def)
qed (auto simp: lit_def)

lemma utf8_char_no_lf: "scalar_value c \<Longrightarrow> c \<noteq> 10 \<Longrightarrow> 10 \<notin> set (utf8_encode_char c)"
  by (auto simp: utf8_encode_char_def scalar_value_def)

lemma encode_one_line:
  assumes "encode_message ip mb m = Inr raw" "prints_members ip m"
    and "json_ok cfg (JObj (message_members m))" "floats_inline (JObj (message_members m))"
  shows "\<exists>body. raw = body @ [10] \<and> 10 \<notin> set body"
proof -
  let ?s = "json_dumps compact_plain (JObj (message_members m))"
  have "utf8_encode (?s @ [10]) = Some raw"
    using assms(1,2) by (auto simp: encode_message_Inr prints_members_def)
  then have s: "list_all scalar_value ?s" "raw = concat (map utf8_encode_char ?s) @ utf8_encode_char 10"
    by (auto simp: utf8_encode_def simp del: json_dumps.simps split: if_splits)
  have "10 \<notin> set ?s" by (rule dumps_no_lf [OF assms(3,4)])
  with s(1) utf8_char_no_lf have "10 \<notin> set (concat (map utf8_encode_char ?s))"
    by (auto simp: list_all_iff simp del: json_dumps.simps)
  with s(2) show ?thesis by (simp add: utf8_encode_char_def del: json_dumps.simps)
qed

section \<open>Answers are valid messages\<close>

lemma check_vectors_floats:
  assumes "0 < d" "d \<le> max_vector_dimension" "list_all (vector_wf d) vs"
  shows "check_vectors (if b then Some d else None) (map (\<lambda>v. JArr (map JFloat v)) vs) = None"
  using assms(3)
proof (induction vs arbitrary: b)
  case (Cons v vs)
  then have v: "len v = d" "list_all finite_float v" "\<not> list_all zero_float v"
    by (simp_all add: vector_wf_def)
  then have "first_error check_item (map JFloat v) = None" "list_ex nonzero_item (map JFloat v)"
    by (auto simp: list_all_iff list_ex_iff)
  moreover have "v \<noteq> []" using v(1) assms(1) by auto
  ultimately show ?case using Cons.IH [of True] Cons.prems v(1) assms(2)
    by (simp del: first_error_None)
qed simp

lemma float_list_floats: "map (float_list fl \<circ> (\<lambda>v. JArr (map JFloat v))) vs = vs"
  by (simp add: comp_def map_idI)

lemma vectors_field_floats:
  assumes "vectors_wf vs"
    and "dict_get payload (lit ''vectors'') = Some (JArr (map (\<lambda>v. JArr (map JFloat v)) vs))"
  shows "vectors_field ip payload = Some vs"
proof -
  obtain d where d: "0 < d" "d \<le> max_vector_dimension" "list_all (vector_wf d) vs"
      "vs \<noteq> []" "len vs \<le> max_batch_size"
    using assms(1) by (auto simp: vectors_wf_def)
  have "validate_vectors (JArr (map (\<lambda>v. JArr (map JFloat v)) vs)) = None"
    using check_vectors_floats [OF d(1-3), of False] d(4,5) by simp
  then show ?thesis
    using assms(2) by (simp add: vectors_field_def float_list_floats del: validate_vectors.simps)
qed

lemma result_valid:
  assumes "embedding_result_of ip (result_fields q vs) = Some r" "float_ints_ok (ip_text ip)"
  shows "message_valid ip (Response (Result r))"
proof -
  have wf: "vectors_wf (es_vectors r)" using embedding_result_of_Some [OF assms] by simp
  have e: "es_generation r = rq_generation q" "es_request_id r = rq_request_id q"
    using result_fields_Some [OF assms(1)] by simp_all
  have f: "0 \<le> rq_generation q" "request_id_ok ip (rq_request_id q)"
    using assms(1) by (auto simp: embedding_result_of_def result_fields_def generation_field_def
        request_id_field_def strict_Some bind_eq_Some_conv split: if_splits)
  have "vectors_field ip (message_members (Response (Result r))) = Some (es_vectors r)"
    by (rule vectors_field_floats [OF wf]) simp
  with e f show ?thesis
    by (simp add: embedding_result_of_def only_fields_def fixed_fields_def dict_keys_def
        generation_field_def request_id_field_def)
qed

lemma new_failure_valid:
  assumes "new_failure env g i t m = Inr f"
  shows "message_valid (we_ipc env) (Response (Failure f))"
proof -
  have "worker_failure_of (we_ipc env) (worker_failure_fields g i t m) = Some f"
    using assms by (simp add: new_failure_def)
  moreover have "worker_failure_fields g i t m = message_members (Response (Failure f))"
    using new_failure_Inr [OF assms] by (simp add: worker_failure_fields_def)
  ultimately show ?thesis by simp
qed

lemma run_inference_valid:
  assumes "run_inference env q d io = (Inr resp, io')" "float_ints_ok (ip_text (we_ipc env))"
  shows "message_valid (we_ipc env) (Response resp)"
proof -
  from assms(1) consider
      vs r where "embedding_result_of (we_ipc env) (result_fields q vs) = Some r" "resp = Result r"
    | t m f where "new_failure env (rq_generation q) (Some (rq_request_id q)) t m = Inr f"
        "resp = Failure f"
    by (auto simp: run_inference_def Let_def split: sum.splits if_splits)
  then show ?thesis
    using result_valid [OF _ assms(2)] new_failure_valid by cases simp_all
qed

section \<open>From the client to the worker and back\<close>

lemma readline_line:
  assumes "10 \<notin> set body" "len body + 1 \<le> n"
  shows "readline n ((body @ [10]) @ rest) = (body @ [10], rest)"
proof -
  have "takeWhile (\<lambda>b. b \<noteq> 10) ((body @ [10]) @ rest) = body"
    using assms(1) by (induction body) auto
  then show ?thesis using assms(2) by (simp add: readline_def Let_def nat_add_distrib)
qed

lemma built_request_valid:
  "build_request ip i texts c = Inr q \<Longrightarrow> message_valid ip (Request q)"
proof -
  assume h: "build_request ip i texts c = Inr q"
  then have "embedding_request_of ip (request_fields (cl_generation c) i texts) = Some q"
    by (simp add: build_request_def Let_def split: option.splits)
  with build_request_Inr [OF h] show ?thesis by (simp add: request_fields_def)
qed

lemma message_valid_decodes:
  assumes "message_valid ip (Request q)" "prints_members ip (Request q)"
    and "json_ok (strict_cfg (ip_text ip)) (JObj (message_members (Request q)))"
    and "encode_message ip mb (Request q) = Inr raw"
  shows "decode_worker_request ip mb raw = Inr q"
  using decode_encoded [OF assms(4,2,3)] assms(1)
  by (simp add: decode_worker_request_def del: message_members.simps)

lemma response_valid_decodes:
  assumes "message_valid ip (Response r)" "prints_members ip (Response r)"
    and "json_ok (strict_cfg (ip_text ip)) (JObj (message_members (Response r)))"
    and "encode_message ip mb (Response r) = Inr raw"
  shows "decode_worker_response ip mb raw = Inr r"
  using decode_encoded [OF assms(4,2,3)] assms(1)
  by (cases r) (simp_all add: decode_worker_response_def del: message_members.simps)

text \<open>The worker reads the client's line as the client's request and answers it.\<close>

lemma worker_reads_request:
  assumes "build_request (we_ipc env) i texts c = Inr q"
    and "prints_members (we_ipc env) (Request q)"
    and "json_ok (strict_cfg (ip_text (we_ipc env))) (JObj (message_members (Request q)))"
    and "encode_message (we_ipc env) max_request (Request q) = Inr line"
    and "max_request \<le> max_protocol_message_bytes"
    and "wk_in io = line @ rest"
    and "serve_step env (cl_generation c) d io = (None, io')"
  shows "\<exists>resp io1. run_inference env q d (io\<lparr>wk_in := rest\<rparr>) = (Inr resp, io1) \<and>
    wk_sent io' = wk_sent io @ [resp] \<and> wk_in io' = rest"
proof -
  have "floats_inline (JObj (message_members (Request q)))" by simp
  with encode_one_line [OF assms(4,2,3)] obtain body where
    line: "line = body @ [10]" "10 \<notin> set body" by blast
  have n: "len line \<le> max_protocol_message_bytes"
    using assms(4,5) by (auto simp: encode_message_Inr)
  then have read: "readline (max_protocol_message_bytes + 1) (wk_in io) = (line, rest)"
    using readline_line [OF line(2), of "max_protocol_message_bytes + 1" rest] assms(6) line(1) by simp
  have "encode_message (we_ipc env) max_protocol_message_bytes (Request q) = Inr line"
    using assms(4) n by (auto simp: encode_message_Inr max_protocol_message_bytes_def)
  with message_valid_decodes built_request_valid [OF assms(1)] assms(2,3)
  have dec: "decode_worker_request (we_ipc env) max_protocol_message_bytes line = Inr q" by blast
  have g: "rq_generation q = cl_generation c" using build_request_Inr [OF assms(1)] by simp
  from assms(7) read n line(1) dec g obtain resp io1 where r:
      "run_inference env q d (io\<lparr>wk_in := rest\<rparr>) = (Inr resp, io1)"
      "emit_message env resp io1 = (Inr True, io')"
    by (auto simp: serve_step_def split: sum.splits prod.splits if_splits)
  from r run_inference_frame [OF r(1)] emit_message_frame [OF r(2)] emit_message_sent [OF r(2)]
  show ?thesis by auto
qed

lemma encoded_line_end:
  assumes "encode_message ip mb m = Inr raw"
  shows "raw \<noteq> [] \<and> last raw = 10"
proof -
  obtain s where "utf8_encode (s @ [10]) = Some raw" using assms by (auto simp: encode_message_Inr)
  then have "raw = concat (map utf8_encode_char s) @ [10]"
    by (auto simp: utf8_encode_def utf8_encode_char_def split: if_splits)
  then show ?thesis by simp
qed

text \<open>A complete line with an acceptable response is accepted.\<close>

lemma reply_accepts:
  assumes "raw \<noteq> [] \<and> last raw = 10"
    and "decode_worker_response ip (cc_max_response_bytes cfg) raw = Inr (Result x)"
    and "es_generation x = cl_generation c" "es_request_id x = rq_request_id q"
    and "len (es_vectors x) = len (rq_texts q)" "\<forall>v\<in>set (es_vectors x). cl_dimension c = Some (len v)"
    and "cl_dimension c \<noteq> None"
  shows "reply ip cfg (ReplyLine (Line raw)) q c =
    (Returns (Inr (es_vectors x)), (reply_read (ReplyLine (Line raw)) c)\<lparr>cl_state := WReady\<rparr>)"
  using assms by (auto simp: reply_def check_reply_def reply_read_def fail_protocol_def list_ex_iff)

lemma reply_reports:
  assumes "raw \<noteq> [] \<and> last raw = 10"
    and "decode_worker_response ip (cc_max_response_bytes cfg) raw = Inr (Failure f)"
  shows "\<exists>e c'. reply ip cfg (ReplyLine (Line raw)) q c = (Returns (Inl e), c') \<and>
    exn_class e = EmbeddingWorkerError \<and> cl_state c' = WReady"
  using assms by (simp add: reply_def check_reply_def)

section \<open>Property\<close>


definition sample_client :: client where
  "sample_client = new_client\<lparr>cl_generation := 3, cl_dimension := Some 2\<rparr>"

definition sample_result :: worker_response where
  "sample_result = Result
     \<lparr>es_generation = 3, es_request_id = sample_uuid,
      es_vectors = [[lit ''0.5'', lit ''0.25''], [lit ''0.5'', lit ''0.25'']]\<rparr>"

lemma sample_result_ok:
  "json_ok (strict_cfg (ip_text sample_ipc)) (JObj (message_members (Response sample_result)))"
proof -
  let ?cfg = "strict_cfg (ip_text sample_ipc)"
  have f: "jc_float ?cfg (48 # 46 # ds) = 48 # 46 # ds" for ds
    by (simp add: strict_cfg_def sample_ipc_def sample_float_def is_digit_def)
  have "float_ok ?cfg ([48] @ 46 # [53])" "float_ok ?cfg ([48] @ 46 # [50, 53])"
    by (rule float_ok_fraction; simp add: is_digit_def f)+
  moreover have "int_ok 1" "int_ok 3" by code_simp+
  ultimately show ?thesis
    by (simp add: sample_result_def sample_uuid_def protocol_version_def lit_def)
qed


end
