(* ===== verification/Shell_Tools.thy ===== *)
theory Shell_Tools
  imports Agent_Errors
begin

text \<open>
  \<open>tools/builtin/shell_tools.py\<close>: the one tool that starts processes, and the filter in front of
  it. \<open>shlex.split\<close> is written out; the file system, the environment and \<open>subprocess.run\<close> are
  parameters. Paths are POSIX paths.
\<close>

section \<open>Splitting a command\<close>

text \<open>
  \<open>shlex.split(s, posix=True)\<close>: the states of \<open>read_token\<close>. Inside double quotes a backslash escapes
  only a quote or a backslash.
\<close>

datatype shlex_state = Blank | InWord | InQuote int | InEscape "int option"

definition shlex_space :: "int \<Rightarrow> bool" where
  "shlex_space c \<longleftrightarrow> c = 32 \<or> c = 9 \<or> c = 13 \<or> c = 10"

definition shlex_quote :: "int \<Rightarrow> bool" where
  "shlex_quote c \<longleftrightarrow> c = 34 \<or> c = 39"

text \<open>\<open>token\<close> is the token so far; it is emitted when not empty or when it was quoted.\<close>

fun shlex_read :: "shlex_state \<Rightarrow> pystr \<Rightarrow> bool \<Rightarrow> pystr \<Rightarrow> exn + pystr list" where
  "shlex_read Blank token quoted [] = Inr []"
| "shlex_read Blank token quoted (c # cs) =
     (if shlex_space c then shlex_read Blank [] False cs
      else if c = 92 then shlex_read (InEscape None) [] False cs
      else if shlex_quote c then shlex_read (InQuote c) [] True cs
      else shlex_read InWord [c] False cs)"
| "shlex_read InWord token quoted [] = Inr (if token = [] \<and> \<not> quoted then [] else [token])"
| "shlex_read InWord token quoted (c # cs) =
     (if shlex_space c then
        rmap (\<lambda>ts. if token = [] \<and> \<not> quoted then ts else token # ts) (shlex_read Blank [] False cs)
      else if shlex_quote c then shlex_read (InQuote c) token True cs
      else if c = 92 then shlex_read (InEscape None) token quoted cs
      else shlex_read InWord (token @ [c]) quoted cs)"
| "shlex_read (InQuote q) token quoted [] = Inl (exn_of PyValueError ''No closing quotation'')"
| "shlex_read (InQuote q) token quoted (c # cs) =
     (if c = q then shlex_read InWord token quoted cs
      else if c = 92 \<and> q = 34 then shlex_read (InEscape (Some q)) token quoted cs
      else shlex_read (InQuote q) (token @ [c]) quoted cs)"
| "shlex_read (InEscape e) token quoted [] = Inl (exn_of PyValueError ''No escaped character'')"
| "shlex_read (InEscape None) token quoted (c # cs) = shlex_read InWord (token @ [c]) quoted cs"
| "shlex_read (InEscape (Some q)) token quoted (c # cs) =
     shlex_read (InQuote q)
       (token @ (if c \<noteq> 92 \<and> c \<noteq> q then [92, c] else [c])) quoted cs"

definition shlex_split :: "pystr \<Rightarrow> exn + pystr list" where
  "shlex_split s = shlex_read Blank [] False s"

section \<open>Policy\<close>

definition max_output_bytes :: int where "max_output_bytes = 5000"
definition max_arg_count :: int where "max_arg_count = 8"
definition max_arg_length :: int where "max_arg_length = 200"

definition forbidden_extensions :: "pystr list" where
  "forbidden_extensions =
     map lit [''.bat'', ''.cmd'', ''.ps1'', ''.vbs'', ''.com'', ''.exe'']"

definition git_forbidden_args :: "pystr list" where
  "git_forbidden_args = map lit
     [''-C'', ''-c'', ''--git-dir'', ''--work-tree'', ''--exec-path'',
      ''-d'', ''-D'', ''-m'', ''-M'', ''--delete'', ''--move'', ''--copy'',
      ''--set-upstream-to'', ''--unset-upstream'', ''--edit-description'',
      ''--ext-diff'', ''--textconv'', ''--output'', ''-o'', ''--paginate'']"

definition git_forbidden_short :: "pystr list" where
  "git_forbidden_short =
     map lit [''-c'', ''-C'', ''-d'', ''-D'', ''-m'', ''-M'', ''-o'', ''-O'']"

record command_policy =
  cp_executable :: pystr
  cp_allowed_subcommands :: "pystr list"
  cp_timeout :: pystr

definition git_policy :: command_policy where
  "git_policy =
     \<lparr>cp_executable = lit ''git'',
      cp_allowed_subcommands = map lit [''status'', ''diff'', ''log'', ''show'', ''branch''],
      cp_timeout = lit ''30.0''\<rparr>"

definition command_policies :: "(pystr, command_policy) dict" where
  "command_policies = [(lit ''git'', git_policy)]"

definition env_whitelist :: "pystr list" where
  "env_whitelist = map lit [''PATH'', ''SystemRoot'', ''TEMP'', ''TMP'', ''HOME'', ''USERPROFILE'']"

section \<open>Validation\<close>

definition msg_error :: "pystr \<Rightarrow> exn" where
  "msg_error m = Exn PyValueError m [] None"

definition parse_argv :: "pystr \<Rightarrow> exn + pystr list" where
  "parse_argv command =
     (if py_strip command = [] then Inl (msg_error ([21629, 20196, 19981, 33021, 20026, 31354]))
      else rbind (shlex_split command) (\<lambda>argv.
        if argv = [] then Inl (msg_error ([21629, 20196, 19981, 33021, 20026, 31354])) else Inr argv))"

definition split_subcommand ::
  "pystr list \<Rightarrow> command_policy \<Rightarrow> exn + (pystr \<times> pystr list)" where
  "split_subcommand argv policy =
     (case argv of
        _ # subcommand # rest \<Rightarrow>
          if subcommand \<in> set (cp_allowed_subcommands policy) then Inr (subcommand, rest)
          else Inl (msg_error ([19981, 20801, 35768, 30340, 23376, 21629, 20196] @ lit '': '' @ subcommand @ lit '' ('' @ [20801, 35768] @ lit '': '' @
            py_join (lit '', '') (sort (cp_allowed_subcommands policy)) @ lit '')''))
      | _ \<Rightarrow> Inl (msg_error ([21629, 20196, 32570, 23569, 23376, 21629, 20196] @ lit '': '' @ concat (take 1 argv))))"

text \<open>Three channels: the argument itself, what stands before an equals sign, its first two characters.\<close>

definition arg_is_forbidden :: "pystr \<Rightarrow> bool" where
  "arg_is_forbidden arg \<longleftrightarrow>
     arg \<in> set git_forbidden_args \<or>
     takeWhile (\<lambda>c. c \<noteq> 61) arg \<in> set git_forbidden_args \<or>
     take 2 arg \<in> set git_forbidden_short"

text \<open>
  \<open>Path(arg).suffix.lower()\<close>: the name is the last part that is neither empty nor a dot; a suffix
  starts at its last dot, when that is neither its first nor its last character. Lower case
  matters only for the letters of the forbidden extensions, which come from ASCII letters alone.
\<close>

fun split_on :: "int \<Rightarrow> pystr \<Rightarrow> pystr list" where
  "split_on d [] = [[]]"
| "split_on d (c # cs) =
     (if c = d then [] # split_on d cs
      else case split_on d cs of p # ps \<Rightarrow> (c # p) # ps | [] \<Rightarrow> [[c]])"

definition path_name :: "pystr \<Rightarrow> pystr" where
  "path_name p =
     (let parts = filter (\<lambda>x. x \<noteq> [] \<and> x \<noteq> [46]) (split_on 47 p)
      in if parts = [] then [] else last parts)"

definition path_suffix :: "pystr \<Rightarrow> pystr" where
  "path_suffix p =
     (let name = path_name p;
          ext = rev (takeWhile (\<lambda>c. c \<noteq> 46) (rev name))
      in if 46 \<in> set name \<and> ext \<noteq> [] \<and> length ext + 1 < length name then 46 # ext else [])"

definition ascii_lower :: "pystr \<Rightarrow> pystr" where
  "ascii_lower s = map (\<lambda>c. if 65 \<le> c \<and> c \<le> 90 then c + 32 else c) s"

definition check_arg :: "pystr \<Rightarrow> exn option" where
  "check_arg arg =
     (if max_arg_length < len arg then
        Some (msg_error ([21442, 25968, 36807, 38271] @ lit '': '' @ int_text (len arg) @ lit '' > '' @ int_text max_arg_length @ lit '' '' @ [23383, 31526]))
      else if arg_is_forbidden arg then Some (msg_error ([31105, 27490, 30340, 21442, 25968] @ lit '': '' @ arg))
      else if ascii_lower (path_suffix arg) \<in> set forbidden_extensions then
        Some (msg_error ([31105, 27490, 24341, 29992, 21487, 25191, 34892] @ lit ''/'' @ [33050, 26412, 25991, 20214] @ lit '': '' @ arg))
      else None)"

fun check_each :: "pystr list \<Rightarrow> exn option" where
  "check_each [] = None"
| "check_each (a # as) = (case check_arg a of Some e \<Rightarrow> Some e | None \<Rightarrow> check_each as)"

definition validate_args :: "pystr list \<Rightarrow> exn option" where
  "validate_args args =
     (if max_arg_count < len args then
        Some (msg_error ([21442, 25968, 36807, 22810] @ lit '': '' @ int_text (len args) @ lit '' > '' @ int_text max_arg_count))
      else check_each args)"

section \<open>Execution\<close>

text \<open>What \<open>subprocess.run\<close> is given (never a shell), and how it ends.\<close>

record process_launch =
  la_argv :: "pystr list"
  la_cwd :: pystr
  la_env :: "(pystr, pystr) dict"
  la_timeout :: pystr

datatype run_outcome = Completed int pystr pystr | RunTimedOut | RunRaises exn

text \<open>\<open>Completed\<close> carries the streams decoded with \<open>errors="replace"\<close>.\<close>

record shell_env =
  sh_which :: "pystr \<Rightarrow> pystr option"
  sh_abspath :: "pystr \<Rightarrow> pystr"
  sh_environ :: "(pystr, pystr) dict"
  sh_exec_cwd :: pystr
  sh_resolve :: "pystr \<Rightarrow> pystr"
  sh_cwd :: pystr
  sh_run :: "process_launch \<Rightarrow> run_outcome"

definition exec_cwd :: "shell_env \<Rightarrow> pystr" where
  "exec_cwd env =
     (let configured = py_strip (sh_exec_cwd env)
      in if configured \<noteq> [] then sh_resolve env configured else sh_resolve env (sh_cwd env))"

definition resolve_executable ::
  "shell_env \<Rightarrow> pystr \<Rightarrow> (pystr, pystr) dict \<Rightarrow> (exn + pystr) \<times> (pystr, pystr) dict" where
  "resolve_executable env name cache =
     (case dict_get cache name of
        Some p \<Rightarrow> (Inr p, cache)
      | None \<Rightarrow>
          (case sh_which env name of
             None \<Rightarrow>
               (Inl (Exn (PyException (lit ''RuntimeError'')) (lit ''executable not found: '' @ name) [] None),
                cache)
           | Some path \<Rightarrow> (Inr (sh_abspath env path), dict_set name (sh_abspath env path) cache)))"

definition build_env :: "shell_env \<Rightarrow> (pystr, pystr) dict" where
  "build_env env =
     dict_set (lit ''LC_ALL'') (lit ''C'')
       (dict_set (lit ''GIT_CONFIG_NOSYSTEM'') (lit ''1'')
         (concat (map (\<lambda>k. case dict_get (sh_environ env) k of Some v \<Rightarrow> [(k, v)] | None \<Rightarrow> [])
           env_whitelist)))"

definition cap_output :: "pystr \<Rightarrow> pystr" where
  "cap_output s =
     (if max_output_bytes < len s
      then take (nat max_output_bytes) s @ [10] @ lit ''...[trimmed, original '' @ int_text (len s) @ lit '' chars]''
      else s)"

definition shell_result :: "pystr \<Rightarrow> int \<Rightarrow> pystr \<Rightarrow> pystr \<Rightarrow> (pystr, json) dict" where
  "shell_result command code out err =
     [(lit ''command'', JStr command), (lit ''return_code'', JInt code),
      (lit ''stdout'', JStr out), (lit ''stderr'', JStr err)]"

text \<open>The checks of \<open>shell_exec\<close> before anything is started.\<close>

definition shell_checks :: "pystr \<Rightarrow> exn + (command_policy \<times> pystr \<times> pystr list)" where
  "shell_checks command =
     rbind (parse_argv command) (\<lambda>argv.
       case dict_get command_policies (hd argv) of
         None \<Rightarrow>
           Inl (msg_error ([19981, 20801, 35768, 30340, 21629, 20196] @ lit '': '' @ hd argv @ lit '' ('' @ [20165, 20801, 35768] @ lit '': '' @
             py_join (lit '', '') (sort (dict_keys command_policies)) @ lit '')''))
       | Some policy \<Rightarrow>
           rbind (split_subcommand argv policy) (\<lambda>(subcommand, args).
             case validate_args args of
               Some e \<Rightarrow> Inl e
             | None \<Rightarrow> Inr (policy, subcommand, args)))"

text \<open>What is launched, if anything, then the result, then the cache of executables.\<close>

definition shell_exec ::
  "shell_env \<Rightarrow> (pystr, pystr) dict \<Rightarrow> pystr \<Rightarrow>
   process_launch option \<times> (exn + (pystr, json) dict) \<times> (pystr, pystr) dict" where
  "shell_exec env cache command =
     (case shell_checks command of
        Inl e \<Rightarrow> (None, Inl e, cache)
      | Inr (policy, subcommand, args) \<Rightarrow>
          (case resolve_executable env (cp_executable policy) cache of
             (Inl e, cache') \<Rightarrow> (None, Inl e, cache')
           | (Inr path, cache') \<Rightarrow>
               (let l = \<lparr>la_argv = [path, lit ''--no-pager'', subcommand] @ args, la_cwd = exec_cwd env,
                         la_env = build_env env, la_timeout = cp_timeout policy\<rparr>
                in (Some l,
                    (case sh_run env l of
                       RunTimedOut \<Rightarrow>
                         Inr (shell_result command (-1) []
                           ([21629, 20196, 36229, 26102] @ lit '' ('' @ cp_timeout policy @ lit ''s)'' @ [65292, 24050, 32456, 27490]))
                     | RunRaises e \<Rightarrow> Inl e
                     | Completed code out err \<Rightarrow>
                         Inr (shell_result command code (cap_output out) (cap_output err))),
                    cache'))))"

section \<open>What a command can start\<close>

definition plain_word :: "pystr \<Rightarrow> bool" where
  "plain_word w \<longleftrightarrow> w \<noteq> [] \<and> list_all (\<lambda>c. \<not> shlex_space c \<and> \<not> shlex_quote c \<and> c \<noteq> 92) w"

text \<open>Words without white space, quotes and backslashes are split at the blanks between them.\<close>

lemma shlex_word:
  assumes "list_all (\<lambda>c. \<not> shlex_space c \<and> \<not> shlex_quote c \<and> c \<noteq> 92) w" "t @ w \<noteq> []"
  shows "shlex_read InWord t False w = Inr [t @ w]"
    "shlex_read InWord t False (w @ 32 # r) = rmap (\<lambda>ts. (t @ w) # ts) (shlex_read Blank [] False r)"
  using assms by (induction w arbitrary: t) (auto simp: shlex_space_def)

lemma shlex_words:
  "list_all plain_word ws \<Longrightarrow> shlex_split (py_join [32] ws) = Inr ws"
proof (induction ws)
  case (Cons w ws)
  then obtain c v where w: "w = c # v" "\<not> shlex_space c" "\<not> shlex_quote c" "c \<noteq> 92"
      "list_all (\<lambda>c. \<not> shlex_space c \<and> \<not> shlex_quote c \<and> c \<noteq> 92) v"
    by (cases w) (auto simp: plain_word_def)
  show ?case
  proof (cases ws)
    case Nil
    with w shlex_word(1) [OF w(5), of "[c]"] show ?thesis by (simp add: shlex_split_def)
  next
    case (Cons w' ws')
    then have "py_join [32] (w # ws) = w @ 32 # py_join [32] ws" by simp
    with Cons.prems Cons.IH w shlex_word(2) [OF w(5), of "[c]"] show ?thesis
      by (simp add: shlex_split_def)
  qed
qed (simp add: shlex_split_def)

definition arg_accepted :: "pystr \<Rightarrow> bool" where
  "arg_accepted a \<longleftrightarrow> len a \<le> max_arg_length \<and> \<not> arg_is_forbidden a \<and>
     ascii_lower (path_suffix a) \<notin> set forbidden_extensions"

lemma git_policy_sel [simp]:
  "cp_executable git_policy = lit ''git''" "cp_timeout git_policy = lit ''30.0''"
  by (simp_all add: git_policy_def)

lemma get_policy [simp]:
  "dict_get command_policies name = (if name = lit ''git'' then Some git_policy else None)"
  by (simp add: command_policies_def)

lemma check_each_None: "check_each as = None \<longleftrightarrow> list_all arg_accepted as"
  by (induction as) (auto simp: check_arg_def arg_accepted_def split: option.splits)

lemma shell_checks_Inr:
  "shell_checks command = Inr (policy, sub, args) \<longleftrightarrow>
     py_strip command \<noteq> [] \<and> shlex_split command = Inr (lit ''git'' # sub # args) \<and>
     policy = git_policy \<and>
     sub \<in> set (cp_allowed_subcommands policy) \<and>
     len args \<le> max_arg_count \<and> list_all arg_accepted args"
proof
  assume h: "shell_checks command = Inr (policy, sub, args)"
  then obtain argv where argv: "parse_argv command = Inr argv"
      "dict_get command_policies (hd argv) = Some policy"
      "split_subcommand argv policy = Inr (sub, args)" "validate_args args = None"
    by (auto simp: shell_checks_def split: option.splits)
  from argv(1) have p: "py_strip command \<noteq> []" "shlex_split command = Inr argv"
    by (auto simp: parse_argv_def split: if_splits)
  from argv(3) obtain c where a: "argv = c # sub # args" "sub \<in> set (cp_allowed_subcommands policy)"
    by (auto simp: split_subcommand_def split: list.splits if_splits)
  with argv(2) have "c = lit ''git''" by (auto split: if_splits)
  with p a argv(2,4) show "py_strip command \<noteq> [] \<and>
      shlex_split command = Inr (lit ''git'' # sub # args) \<and>
      policy = git_policy \<and>
      sub \<in> set (cp_allowed_subcommands policy) \<and>
      len args \<le> max_arg_count \<and> list_all arg_accepted args"
    by (auto simp: validate_args_def check_each_None split: if_splits)
next
  assume h: "py_strip command \<noteq> [] \<and> shlex_split command = Inr (lit ''git'' # sub # args) \<and>
      policy = git_policy \<and>
      sub \<in> set (cp_allowed_subcommands policy) \<and>
      len args \<le> max_arg_count \<and> list_all arg_accepted args"
  then have "validate_args args = None" by (simp add: validate_args_def check_each_None)
  moreover from h have "sub \<in> set (cp_allowed_subcommands git_policy)" by blast
  ultimately show "shell_checks command = Inr (policy, sub, args)"
    using h by (simp add: shell_checks_def parse_argv_def split_subcommand_def del: set_map)
qed

lemma build_env_keys:
  "set (dict_keys (build_env env)) \<subseteq>
   set env_whitelist \<union> {lit ''GIT_CONFIG_NOSYSTEM'', lit ''LC_ALL''}"
  by (auto simp: build_env_def dict_keys_def AList.update_keys split: if_splits option.splits)

lemma build_env_fixed:
  "dict_get (build_env env) (lit ''GIT_CONFIG_NOSYSTEM'') = Some (lit ''1'')"
  "dict_get (build_env env) (lit ''LC_ALL'') = Some (lit ''C'')"
  by (simp_all add: build_env_def)


text \<open>A command that passes, and git found: what is launched, whatever comes of it.\<close>

lemma shell_exec_started:
  "(\<exists>r cache'. shell_exec env cache command = (Some l, r, cache')) \<longleftrightarrow>
   (\<exists>exe sub args. shell_checks command = Inr (git_policy, sub, args) \<and>
      fst (resolve_executable env (lit ''git'') cache) = Inr exe \<and>
      l = \<lparr>la_argv = [exe, lit ''--no-pager'', sub] @ args, la_cwd = exec_cwd env,
           la_env = build_env env, la_timeout = lit ''30.0''\<rparr>)" (is "?l = ?r")
proof
  assume ?l
  then obtain policy sub args exe cache' where h: "shell_checks command = Inr (policy, sub, args)"
      "resolve_executable env (cp_executable policy) cache = (Inr exe, cache')"
      "l = \<lparr>la_argv = [exe, lit ''--no-pager'', sub] @ args, la_cwd = exec_cwd env,
            la_env = build_env env, la_timeout = cp_timeout policy\<rparr>"
    by (auto simp: shell_exec_def Let_def split: sum.splits prod.splits)
  moreover from h(1) have "policy = git_policy" by (simp add: shell_checks_Inr)
  ultimately show ?r by auto
next
  assume ?r
  then show ?l
    by (cases "resolve_executable env (lit ''git'') cache") (auto simp: shell_exec_def Let_def)
qed

section \<open>Properties\<close>


text \<open>
  Whatever is started keeps to the limits: no argument is one of the dangerous options or
  starts with a dangerous short one, every variable of its environment is in the white list or
  one of the two fixed ones, and the system configuration is switched off.
\<close>

lemma shell_exec_confined:
  assumes "shell_exec env cache command = (Some l, r, cache')"
  shows "set (dict_keys (la_env l)) \<subseteq>
           set env_whitelist \<union> {lit ''GIT_CONFIG_NOSYSTEM'', lit ''LC_ALL''} \<and>
         dict_get (la_env l) (lit ''GIT_CONFIG_NOSYSTEM'') = Some (lit ''1'') \<and>
         list_all (\<lambda>a. a \<notin> set git_forbidden_args \<and> take 2 a \<notin> set git_forbidden_short)
           (drop 3 (la_argv l)) \<and>
         la_cwd l = exec_cwd env"
proof -
  from assms obtain exe sub args where "shell_checks command = Inr (git_policy, sub, args)"
      and l: "l = \<lparr>la_argv = [exe, lit ''--no-pager'', sub] @ args, la_cwd = exec_cwd env,
           la_env = build_env env, la_timeout = lit ''30.0''\<rparr>"
    using shell_exec_started [of env cache command l] by blast
  then have "list_all arg_accepted args" by (simp add: shell_checks_Inr)
  then have "list_all (\<lambda>a. a \<notin> set git_forbidden_args \<and> take 2 a \<notin> set git_forbidden_short) args"
    by (rule list.pred_mono_strong) (simp add: arg_accepted_def arg_is_forbidden_def)
  then show ?thesis using l build_env_keys [of env] build_env_fixed(1) [of env] by simp
qed

text \<open>An environment where git is found and answers at once.\<close>

definition quick_shell :: shell_env where
  "quick_shell =
     \<lparr>sh_which = (\<lambda>name. Some (lit ''/usr/bin/'' @ name)), sh_abspath = (\<lambda>p. p),
      sh_environ = [(lit ''PATH'', lit ''/usr/bin''), (lit ''GIT_DIR'', lit ''/tmp'')],
      sh_exec_cwd = [], sh_resolve = (\<lambda>p. p), sh_cwd = lit ''/srv'',
      sh_run = (\<lambda>l. Completed 0 [] [])\<rparr>"

lemma quick_status:
  "shell_exec quick_shell [] (lit ''git status --short'') =
   (Some \<lparr>la_argv = [lit ''/usr/bin/git'', lit ''--no-pager'', lit ''status'', lit ''--short''],
          la_cwd = lit ''/srv'',
          la_env = [(lit ''PATH'', lit ''/usr/bin''), (lit ''GIT_CONFIG_NOSYSTEM'', lit ''1''),
                    (lit ''LC_ALL'', lit ''C'')],
          la_timeout = lit ''30.0''\<rparr>,
    Inr (shell_result (lit ''git status --short'') 0 [] []),
    [(lit ''git'', lit ''/usr/bin/git'')])"
  by code_simp

lemma shell_exec_confined_witness:
  "let l = the (fst (shell_exec quick_shell [] (lit ''git status --short'')))
   in set (dict_keys (la_env l)) \<subseteq>
        set env_whitelist \<union> {lit ''GIT_CONFIG_NOSYSTEM'', lit ''LC_ALL''} \<and> la_cwd l = lit ''/srv''"
  using shell_exec_confined [OF quick_status] quick_status
  by (simp add: quick_shell_def exec_cwd_def)

text \<open>
  The filter does not keep commands read-only: \<open>git branch NAME\<close> makes a branch, and short
  options bundled behind another letter are not recognised, so \<open>git branch -fD NAME\<close>, which deletes
  one, is started like \<open>git status\<close> is. Only \<open>-D\<close> alone is refused.
\<close>

lemma shell_filter_admits_writes:
  "shell_checks (lit ''git branch release'') =
     Inr (git_policy, lit ''branch'', [lit ''release'']) \<and>
   shell_checks (lit ''git branch -fD main'') =
     Inr (git_policy, lit ''branch'', [lit ''-fD'', lit ''main'']) \<and>
   shell_checks (lit ''git branch -f main HEAD~3'') =
     Inr (git_policy, lit ''branch'', [lit ''-f'', lit ''main'', lit ''HEAD~3'']) \<and>
   (\<exists>e. shell_checks (lit ''git branch -Df main'') = Inl e) \<and>
   (\<exists>e. shell_checks (lit ''git branch -D main'') = Inl e)"
  apply (intro conjI)
  subgoal by code_simp
  subgoal by code_simp
  subgoal by code_simp
  subgoal by (rule exI) code_simp
  subgoal by (rule exI) code_simp
  done

end
