(* ===== verification/Builtin_Tools.thy ===== *)
theory Builtin_Tools
  imports Shell_Tools Py_Utf8
begin

text \<open>
  \<open>tools/builtin/file_tools.py\<close>, \<open>tools/builtin/network_tools.py\<close> and \<open>tools/calculator.py\<close>: the tools
  that touch files and the network, with the sandboxes in front of them. The file system, name
  resolution, \<open>ipaddress\<close>, \<open>httpx\<close> and the search service are parameters. Paths are POSIX paths.
\<close>

section \<open>Paths\<close>

text \<open>An absolute path is the list of its parts; \<open>root / raw\<close> starts afresh when raw is absolute.\<close>

type_synonym path = "pystr list"

definition path_parts :: "pystr \<Rightarrow> path" where
  "path_parts s = filter (\<lambda>p. p \<noteq> [] \<and> p \<noteq> [46]) (split_on 47 s)"

definition path_join :: "path \<Rightarrow> pystr \<Rightarrow> path" where
  "path_join base raw = (if take 1 raw = [47] then path_parts raw else base @ path_parts raw)"

definition path_str :: "path \<Rightarrow> pystr" where
  "path_str p = 47 # py_join [47] p"

definition inside :: "path \<Rightarrow> path \<Rightarrow> bool" where
  "inside base p \<longleftrightarrow> take (length base) p = base"

text \<open>
  The operations of the file system: \<open>Path.resolve\<close> (it follows links), tests, the bytes of a file,
  opening for writing with the bytes written, and the names in a directory.
\<close>

record 'fs file_ops =
  fo_resolve :: "'fs \<Rightarrow> path \<Rightarrow> exn + path"
  fo_exists :: "'fs \<Rightarrow> path \<Rightarrow> bool"
  fo_is_dir :: "'fs \<Rightarrow> path \<Rightarrow> bool"
  fo_read :: "'fs \<Rightarrow> path \<Rightarrow> exn + bytes"
  fo_write :: "'fs \<Rightarrow> path \<Rightarrow> bytes \<Rightarrow> exn + 'fs"
  fo_names :: "'fs \<Rightarrow> path \<Rightarrow> exn + pystr list"

definition safe_path :: "'fs file_ops \<Rightarrow> 'fs \<Rightarrow> pystr \<Rightarrow> path \<Rightarrow> exn + path" where
  "safe_path fo fs raw base =
     rbind (fo_resolve fo fs base) (\<lambda>re_base.
     rbind (fo_resolve fo fs (path_join re_base raw)) (\<lambda>resolved.
       if \<not> inside re_base resolved then Inl (msg_error ([36335, 24452, 36234, 30028] @ lit '': '' @ raw))
       else Inr resolved))"

section \<open>Files\<close>

definition allowed_extensions :: "pystr list" where
  "allowed_extensions = map lit
     [''.py'', ''.md'', ''.txt'', ''.json'', ''.yaml'', ''.yml'', ''.toml'', ''.cfg'', ''.ini'', ''.csv'', ''.html'',
      ''.css'', ''.js'', ''.ts'', ''.log'']"

definition max_write_bytes :: int where "max_write_bytes = 1000000"

definition protected_files :: "pystr list" where
  "protected_files = map lit [''.env'', ''.gitignore'', ''.git/config'', ''.ssh'', ''.venv'']"

definition file_suffix :: "path \<Rightarrow> pystr" where
  "file_suffix p = (if p = [] then [] else path_suffix (last p))"

definition permission_error :: "pystr \<Rightarrow> exn" where
  "permission_error m = Exn (PyException (lit ''PermissionError'')) m [] None"

definition unicode_error :: "string \<Rightarrow> exn" where
  "unicode_error c = Exn (PyException (lit c)) [] [] None"

text \<open>Text mode: a carriage return, alone or before a line feed, is read as a line feed.\<close>

fun universal_newlines :: "pystr \<Rightarrow> pystr" where
  "universal_newlines [] = []"
| "universal_newlines [c] = [if c = 13 then 10 else c]"
| "universal_newlines (c # d # cs) =
     (if c = 13 then
        if d = 10 then 10 # universal_newlines cs else 10 # universal_newlines (d # cs)
      else c # universal_newlines (d # cs))"

definition truncated_content :: "pystr \<Rightarrow> pystr" where
  "truncated_content content =
     (if 10000 < len content then take (nat 10000) content @ [10] @ lit ''...[truncated]'' else content)"

definition read_file :: "'fs file_ops \<Rightarrow> 'fs \<Rightarrow> path \<Rightarrow> pystr \<Rightarrow> exn + pystr" where
  "read_file fo fs base raw =
     rbind (safe_path fo fs raw base) (\<lambda>safe.
       if \<not> fo_exists fo fs safe then
         Inl (Exn (PyException (lit ''FileNotFoundError'')) ([25991, 20214, 19981, 23384, 22312] @ lit '': '' @ raw) [] None)
       else if file_suffix safe \<notin> set allowed_extensions then
         Inl (permission_error ([19981, 20801, 35768, 30340, 25991, 20214, 31867, 22411] @ lit '': '' @ file_suffix safe))
       else rbind (fo_read fo fs safe) (\<lambda>data.
         if 0 \<in> set (take 512 data) then
           Inl (permission_error ([30097, 20284, 20108, 36827, 21046, 25991, 20214, 65292, 25298, 32477, 35835, 21462] @ lit '': '' @ raw))
         else case utf8_decode data of
             None \<Rightarrow> Inl (unicode_error ''UnicodeDecodeError'')
           | Some content \<Rightarrow> Inr (truncated_content (universal_newlines content))))"

text \<open>\<open>protected in str(safe)\<close>.\<close>

fun is_infix :: "pystr \<Rightarrow> pystr \<Rightarrow> bool" where
  "is_infix w [] = (w = [])"
| "is_infix w (c # cs) = (take (length w) (c # cs) = w \<or> is_infix w cs)"

definition is_suffix :: "pystr \<Rightarrow> pystr \<Rightarrow> bool" where
  "is_suffix w s \<longleftrightarrow> take (length w) (rev s) = rev w"

text \<open>
  \<open>order\<close> is the order in which the frozenset is walked, which only decides the message. A content
  that cannot be encoded is noticed when the file has been opened, and so emptied.
\<close>

definition write_file ::
  "'fs file_ops \<Rightarrow> 'fs \<Rightarrow> path \<Rightarrow> pystr list \<Rightarrow> pystr \<Rightarrow> pystr \<Rightarrow> (exn + pystr) \<times> 'fs" where
  "write_file fo fs base order raw content =
     (case safe_path fo fs raw base of
        Inl e \<Rightarrow> (Inl e, fs)
      | Inr safe \<Rightarrow>
          (case filter (\<lambda>w. is_suffix w (path_str safe) \<or> is_infix w (path_str safe)) order of
             w # _ \<Rightarrow> (Inl (permission_error ([31105, 27490, 20462, 25913, 21463, 20445, 25252, 25991, 20214] @ lit '': '' @ w)), fs)
           | [] \<Rightarrow>
               if max_write_bytes < len content then
                 (Inl (msg_error ([20869, 23481, 36807, 22823] @ lit '': '' @ int_text (len content) @ lit '' > '' @ int_text max_write_bytes @ lit '' '' @ [23383, 33410])), fs)
               else
                 (case utf8_encode content of
                    None \<Rightarrow>
                      (case fo_write fo fs safe [] of
                         Inl e \<Rightarrow> (Inl e, fs)
                       | Inr fs' \<Rightarrow> (Inl (unicode_error ''UnicodeEncodeError''), fs'))
                  | Some data \<Rightarrow>
                      (case fo_write fo fs safe data of
                         Inl e \<Rightarrow> (Inl e, fs)
                       | Inr fs' \<Rightarrow>
                           (Inr ([24050, 20889, 20837] @ lit '': '' @ raw @ lit '' ('' @ int_text (len content) @ [23383, 31526] @ lit '')''),
                            fs')))))"

definition list_dir :: "'fs file_ops \<Rightarrow> 'fs \<Rightarrow> path \<Rightarrow> pystr \<Rightarrow> exn + pystr list" where
  "list_dir fo fs base raw =
     rbind (safe_path fo fs raw base) (\<lambda>safe.
       if \<not> fo_is_dir fo fs safe then Inl (msg_error ([19981, 26159, 30446, 24405] @ lit '': '' @ raw))
       else fo_names fo fs safe)"

section \<open>Confinement\<close>

lemma safe_path_inside:
  "safe_path fo fs raw base = Inr p \<longleftrightarrow>
     (\<exists>re_base. fo_resolve fo fs base = Inr re_base \<and>
        fo_resolve fo fs (path_join re_base raw) = Inr p \<and> inside re_base p)"
  by (auto simp: safe_path_def split: if_splits)

text \<open>Every call of the file system that depends on the request is made on a path in the root.\<close>

definition same_elsewhere :: "'fs file_ops \<Rightarrow> 'fs file_ops \<Rightarrow> path \<Rightarrow> bool" where
  "same_elsewhere fo fo' base \<longleftrightarrow>
     fo_resolve fo = fo_resolve fo' \<and>
     (\<forall>fs p. (\<exists>re_base. fo_resolve fo fs base = Inr re_base \<and> inside re_base p) \<longrightarrow>
        fo_exists fo fs p = fo_exists fo' fs p \<and> fo_is_dir fo fs p = fo_is_dir fo' fs p \<and>
        fo_read fo fs p = fo_read fo' fs p \<and> fo_write fo fs p = fo_write fo' fs p \<and>
        fo_names fo fs p = fo_names fo' fs p)"


section \<open>Writing and reading\<close>

text \<open>What the file system promises after a write.\<close>

definition write_takes_effect :: "'fs file_ops \<Rightarrow> bool" where
  "write_takes_effect fo \<longleftrightarrow>
     (\<forall>fs p data fs'. fo_write fo fs p data = Inr fs' \<longrightarrow>
        fo_resolve fo fs' = fo_resolve fo fs \<and> fo_exists fo fs' p \<and> fo_read fo fs' p = Inr data)"

lemma universal_newlines_none: "13 \<notin> set s \<Longrightarrow> universal_newlines s = s"
  by (induction s rule: universal_newlines.induct) auto

text \<open>
  What was written is read back: after \<open>write_file\<close> succeeds, \<open>read_file\<close> of the same path
  returns the content, cut after ten thousand characters, when the extension may be read, the
  content has no carriage return and no null byte in its first 512 bytes.
\<close>

lemma written_file_reads_back:
  assumes "write_takes_effect fo" "write_file fo fs base order raw content = (Inr m, fs')"
    and "safe_path fo fs raw base = Inr p" "file_suffix p \<in> set allowed_extensions"
    and "13 \<notin> set content" "\<forall>data. utf8_encode content = Some data \<longrightarrow> 0 \<notin> set (take 512 data)"
  shows "read_file fo fs' base raw = Inr (truncated_content content)"
proof -
  from assms(2,3) obtain data where d: "utf8_encode content = Some data" "fo_write fo fs p data = Inr fs'"
    by (auto simp: write_file_def split: list.splits option.splits sum.splits if_splits)
  with assms(1) have f: "fo_resolve fo fs' = fo_resolve fo fs" "fo_exists fo fs' p" "fo_read fo fs' p = Inr data"
    unfolding write_takes_effect_def by blast+
  from f(1) assms(3) have "safe_path fo fs' raw base = Inr p" by (simp add: safe_path_def)
  with f(2,3) assms(4-6) d(1) show ?thesis
    by (simp add: read_file_def utf8_decode_encode [OF d(1)] universal_newlines_none)
qed

text \<open>
  The limit of a million, which the source calls bytes, counts characters: a text of a million
  Chinese characters is accepted and written as three million bytes.
\<close>

lemma write_limit_counts_characters:
  assumes "safe_path fo fs raw base = Inr p" "order = protected_files"
    and "\<forall>w \<in> set protected_files. \<not> is_suffix w (path_str p) \<and> \<not> is_infix w (path_str p)"
    and "fo_write fo fs p (concat (replicate 1000000 [228, 184, 173])) = Inr fs'"
  shows "(\<exists>m. write_file fo fs base order raw (replicate 1000000 20013) = (Inr m, fs')) \<and>
         len (concat (replicate 1000000 [228, 184, 173 :: int])) = 3 * max_write_bytes"
proof -
  have c: "utf8_encode_char 20013 = [228, 184, 173]" by (simp add: utf8_encode_char_def)
  have e: "utf8_encode (replicate n 20013) = Some (concat (replicate n [228, 184, 173]))" for n
    by (simp add: utf8_encode_def list_all_iff scalar_value_def map_replicate c)
  have l: "length (concat (replicate n xs)) = n * length xs" for n and xs :: "int list"
    by (induction n) simp_all
  have f: "filter (\<lambda>w. is_suffix w (path_str p) \<or> is_infix w (path_str p)) order = []"
    using assms(2,3) by (simp add: filter_empty_conv)
  have n: "\<not> max_write_bytes < len (replicate 1000000 (20013 :: int))"
    by (simp add: max_write_bytes_def)
  have "write_file fo fs base order raw (replicate 1000000 20013) =
      (Inr ([24050, 20889, 20837] @ lit '': '' @ raw @ lit '' ('' @ int_text (len (replicate 1000000 (20013 :: int))) @ [23383, 31526] @ lit '')''), fs')"
    using n by (simp only: write_file_def assms(1) f e assms(4) sum.case list.case option.case if_False)
  moreover have "len (concat (replicate 1000000 [228, 184, 173 :: int])) = 3 * max_write_bytes"
    by (simp add: l max_write_bytes_def)
  ultimately show ?thesis by blast
qed

section \<open>The network\<close>

text \<open>
  \<open>urllib.parse.urlparse\<close>, as far as the scheme and the host name go. Leading control characters
  and blanks are dropped, and so are tabs and line breaks. The checks the library makes of the
  network location (brackets, characters that normalise to delimiters) are a parameter.
\<close>

definition scheme_char :: "int \<Rightarrow> bool" where
  "scheme_char c \<longleftrightarrow> (97 \<le> c \<and> c \<le> 122) \<or> (65 \<le> c \<and> c \<le> 90) \<or> (48 \<le> c \<and> c \<le> 57) \<or>
     c = 43 \<or> c = 45 \<or> c = 46"

definition ascii_letter :: "int \<Rightarrow> bool" where
  "ascii_letter c \<longleftrightarrow> (97 \<le> c \<and> c \<le> 122) \<or> (65 \<le> c \<and> c \<le> 90)"

definition split_scheme :: "pystr \<Rightarrow> pystr \<times> pystr" where
  "split_scheme url =
     (let before = takeWhile (\<lambda>c. c \<noteq> 58) url
      in if 58 \<in> set url \<and> before \<noteq> [] \<and> ascii_letter (hd before) \<and> list_all scheme_char before
         then (ascii_lower before, drop (length before + 1) url) else ([], url))"

definition clean_url :: "pystr \<Rightarrow> pystr" where
  "clean_url raw = filter (\<lambda>c. c \<noteq> 9 \<and> c \<noteq> 10 \<and> c \<noteq> 13) (dropWhile (\<lambda>c. c \<le> 32) raw)"

definition url_netloc :: "pystr \<Rightarrow> pystr" where
  "url_netloc rest =
     (if take 2 rest = lit ''//'' then takeWhile (\<lambda>c. c \<notin> set (lit ''/?#'')) (drop 2 rest) else [])"

text \<open>\<open>hostname\<close>: without user information, brackets and port, in lower case.\<close>

definition after_last :: "int \<Rightarrow> pystr \<Rightarrow> pystr" where
  "after_last d s = rev (takeWhile (\<lambda>c. c \<noteq> d) (rev s))"

definition url_hostname :: "(pystr \<Rightarrow> pystr) \<Rightarrow> pystr \<Rightarrow> pystr" where
  "url_hostname lower netloc =
     (let hostinfo = after_last 64 netloc;
          host = (if 91 \<in> set hostinfo
                  then takeWhile (\<lambda>c. c \<noteq> 93) (drop 1 (dropWhile (\<lambda>c. c \<noteq> 91) hostinfo))
                  else takeWhile (\<lambda>c. c \<noteq> 58) hostinfo);
          name = takeWhile (\<lambda>c. c \<noteq> 37) host
      in lower name @ drop (length name) host)"

text \<open>What \<open>ipaddress\<close> says of an address.\<close>

record ip_flags =
  ip_private :: bool
  ip_loopback :: bool
  ip_link_local :: bool
  ip_reserved :: bool
  ip_unspecified :: bool

datatype http_outcome =
    HttpText pystr
  | HttpStatus int pystr
  | HttpTimeout
  | HttpRequestError pystr pystr
  | HttpOther exn

record net_env =
  ne_lower :: "pystr \<Rightarrow> pystr"
  ne_netloc_check :: "pystr \<Rightarrow> exn option"
  ne_getaddrinfo :: "pystr \<Rightarrow> exn + pystr list"
  ne_ip :: "pystr \<Rightarrow> exn + ip_flags"
  ne_get :: "pystr \<Rightarrow> http_outcome"
  ne_search_key :: pystr
  ne_search :: "pystr \<Rightarrow> int \<Rightarrow> exn + json list option"

definition url_parts :: "net_env \<Rightarrow> pystr \<Rightarrow> exn + (pystr \<times> pystr)" where
  "url_parts ne raw =
     (let (scheme, rest) = split_scheme (clean_url raw); netloc = url_netloc rest
      in case ne_netloc_check ne netloc of
           Some e \<Rightarrow> Inl e
         | None \<Rightarrow> Inr (scheme, url_hostname (ne_lower ne) netloc))"

definition blocked :: "ip_flags \<Rightarrow> bool" where
  "blocked ip \<longleftrightarrow> ip_private ip \<or> ip_loopback ip \<or> ip_link_local ip \<or> ip_reserved ip \<or> ip_unspecified ip"

definition safe_url :: "net_env \<Rightarrow> pystr \<Rightarrow> exn + pystr" where
  "safe_url ne raw =
     rbind (url_parts ne raw) (\<lambda>(scheme, hostname).
       if scheme \<notin> {lit ''http'', lit ''https''} then
         Inl (msg_error ([19981, 20801, 35768, 30340, 21327, 35758] @ lit '': '' @ scheme))
       else if hostname = [] then Inl (msg_error (lit ''URL '' @ [32570, 23569] @ lit '' hostname: '' @ raw))
       else rbind (ne_getaddrinfo ne hostname) (\<lambda>addresses.
         case addresses of
           [] \<Rightarrow> Inl (exn_of PyIndexError ''list index out of range'')
         | ip_str # _ \<Rightarrow>
             rbind (ne_ip ne ip_str) (\<lambda>ip.
               if blocked ip then Inl (msg_error ([31105, 27490, 35775, 38382, 20869, 32593, 22320, 22336] @ lit '': '' @ ip_str))
               else Inr raw)))"

definition http_timeout :: int where "http_timeout = 10"
definition max_response_chars :: int where "max_response_chars = 10000"
definition max_search_results :: int where "max_search_results = 5"

definition http_get :: "net_env \<Rightarrow> pystr \<Rightarrow> exn + pystr" where
  "http_get ne url =
     rbind (safe_url ne url) (\<lambda>safe.
       case ne_get ne safe of
         HttpStatus code reason \<Rightarrow>
           Inr (lit ''HTTP '' @ [38169, 35823] @ lit '' ['' @ int_text code @ lit '']: '' @ reason)
       | HttpTimeout \<Rightarrow> Inr ([35831, 27714, 36229, 26102] @ lit '' ('' @ int_text http_timeout @ lit ''s): '' @ url)
       | HttpRequestError name message \<Rightarrow> Inr ([35831, 27714, 22833, 36133] @ lit '': '' @ name @ lit '': '' @ message)
       | HttpOther e \<Rightarrow> Inl e
       | HttpText t \<Rightarrow>
           Inr (if max_response_chars < len t
                then take (nat max_response_chars) t @ [10] @
                  lit ''...truncated, original length: '' @ int_text (len t)
                else t))"

text \<open>The results of the search, or the text that says no key is configured.\<close>

definition web_search :: "net_env \<Rightarrow> pystr \<Rightarrow> exn + json" where
  "web_search ne query =
     (if ne_search_key ne = [] then
        Inr (JStr (lit ''error: web_search api key '' @ [26410, 37197, 32622, 65288, 35831, 22312] @ lit '' .env '' @ [20013, 35774, 32622] @ lit '' TAVILY_API_KEY'' @ [65289]))
      else rbind (ne_search ne query max_search_results) (\<lambda>results.
        case results of
          Some xs \<Rightarrow> Inr (JArr xs)
        | None \<Rightarrow> Inl (Exn PyKeyError (lit ''results'') [] None)))"

section \<open>Arithmetic\<close>

definition calc_add :: "int \<Rightarrow> int \<Rightarrow> int" where "calc_add a b = a + b"

definition calc_multiply :: "int \<Rightarrow> int \<Rightarrow> int" where "calc_multiply a b = a * b"


text \<open>
  The sandbox looks at one address only: when a name stands for several, the first is outside
  the blocked ranges and the request goes out, whatever the others are.
\<close>

lemma sandbox_checks_one_address:
  assumes "url_parts ne url = Inr (scheme, host)" "scheme = lit ''http'' \<or> scheme = lit ''https''"
    and "host \<noteq> []" "ne_getaddrinfo ne host = Inr (first # others)"
    and "ne_ip ne first = Inr ip" "\<not> blocked ip"
    and "ne_get ne url = HttpText t" "len t \<le> max_response_chars"
  shows "http_get ne url = Inr t"
  using assms by (auto simp: http_get_def safe_url_def)

text \<open>Nothing is sent when the sandbox refuses, and a failed name lookup leaves as an exception.\<close>

lemma http_get_refused:
  assumes "safe_url ne url = Inl e"
  shows "http_get ne url = Inl e"
  using assms by (simp add: http_get_def)

lemma http_get_raises_lookup_failure:
  assumes "url_parts ne url = Inr (lit ''http'', host)" "host \<noteq> []" "ne_getaddrinfo ne host = Inl e"
  shows "http_get ne url = Inl e"
  using assms by (simp add: http_get_def safe_url_def)

section \<open>Samples\<close>

text \<open>A name with a public address and the loopback address.\<close>

definition sample_net :: net_env where
  "sample_net =
     \<lparr>ne_lower = ascii_lower, ne_netloc_check = (\<lambda>_. None),
      ne_getaddrinfo = (\<lambda>h. Inr [lit ''93.184.216.34'', lit ''127.0.0.1'']),
      ne_ip = (\<lambda>a. Inr \<lparr>ip_private = (a = lit ''127.0.0.1''), ip_loopback = (a = lit ''127.0.0.1''),
                        ip_link_local = False, ip_reserved = False, ip_unspecified = False\<rparr>),
      ne_get = (\<lambda>url. HttpText (lit ''ok'')), ne_search_key = [], ne_search = (\<lambda>_ _. Inr None)\<rparr>"

lemma sample_url:
  "url_parts sample_net (lit '' HTTP://me@Evil.example:80/x'') = Inr (lit ''http'', lit ''evil.example'')"
  by code_simp

lemma sandbox_checks_one_address_witness:
  "http_get sample_net (lit '' HTTP://me@Evil.example:80/x'') = Inr (lit ''ok'') \<and>
   ne_getaddrinfo sample_net (lit ''evil.example'') = Inr [lit ''93.184.216.34'', lit ''127.0.0.1'']"
proof -
  let ?ip = "\<lparr>ip_private = False, ip_loopback = False, ip_link_local = False, ip_reserved = False,
      ip_unspecified = False\<rparr>"
  have ip: "ne_ip sample_net (lit ''93.184.216.34'') = Inr ?ip" "\<not> blocked ?ip"
    "lit ''evil.example'' \<noteq> []" "len (lit ''ok'') \<le> max_response_chars" by code_simp+
  have a: "ne_getaddrinfo sample_net (lit ''evil.example'') = Inr [lit ''93.184.216.34'', lit ''127.0.0.1'']"
    by (simp only: sample_net_def net_env.simps)
  have g: "ne_get sample_net url = HttpText (lit ''ok'')" for url
    by (simp only: sample_net_def net_env.simps)
  show ?thesis
    using sandbox_checks_one_address [OF sample_url disjI1 [OF refl] ip(3) a ip(1,2) g ip(4)] a by blast
qed

text \<open>A file system without links: a dictionary of files.\<close>

definition plain_files :: "(path, bytes) dict file_ops" where
  "plain_files =
     \<lparr>fo_resolve = (\<lambda>fs p. Inr (foldl (\<lambda>r x. if x = [46, 46] then butlast r else r @ [x]) [] p)),
      fo_exists = (\<lambda>fs p. dict_has fs p), fo_is_dir = (\<lambda>fs p. False),
      fo_read = (\<lambda>fs p. case dict_get fs p of Some d \<Rightarrow> Inr d | None \<Rightarrow> Inl (exn_of PyKeyError ''missing'')),
      fo_write = (\<lambda>fs p d. Inr (dict_set p d fs)), fo_names = (\<lambda>fs p. Inr [])\<rparr>"

lemma plain_files_effect: "write_takes_effect plain_files"
  by (auto simp: write_takes_effect_def plain_files_def dict_has_def)

definition lying_files :: "(path, bytes) dict file_ops" where
  "lying_files = plain_files\<lparr>fo_exists := (\<lambda>fs p. inside [lit ''srv''] p \<and> dict_has fs p)\<rparr>"


lemma sample_write:
  "safe_path plain_files [] (lit ''a/../b.txt'') [lit ''srv''] = Inr [lit ''srv'', lit ''b.txt'']"
  "snd (write_file plain_files [] [lit ''srv''] protected_files (lit ''a/../b.txt'') (lit ''hi'')) =
     [([lit ''srv'', lit ''b.txt''], lit ''hi'')]"
  "\<not> isl (fst (write_file plain_files [] [lit ''srv''] protected_files (lit ''a/../b.txt'') (lit ''hi'')))"
  by code_simp+

lemma written_file_reads_back_witness:
  "read_file plain_files [([lit ''srv'', lit ''b.txt''], lit ''hi'')] [lit ''srv''] (lit ''a/../b.txt'') =
   Inr (lit ''hi'')"
proof -
  from sample_write obtain m where w: "write_file plain_files [] [lit ''srv''] protected_files
      (lit ''a/../b.txt'') (lit ''hi'') = (Inr m, [([lit ''srv'', lit ''b.txt''], lit ''hi'')])"
    by (metis prod.collapse sum.collapse(2))
  have "file_suffix [lit ''srv'', lit ''b.txt''] \<in> set allowed_extensions" "13 \<notin> set (lit ''hi'')"
    "utf8_encode (lit ''hi'') = Some (lit ''hi'')" "0 \<notin> set (take 512 (lit ''hi''))"
    "truncated_content (lit ''hi'') = lit ''hi''"
    by code_simp+
  with written_file_reads_back [OF plain_files_effect w sample_write(1)] show ?thesis by simp
qed

lemma write_limit_counts_characters_witness:
  "\<exists>m fs'. write_file plain_files [] [lit ''srv''] protected_files (lit ''b.txt'') (replicate 1000000 20013) =
     (Inr m, fs')"
proof -
  have p: "safe_path plain_files [] (lit ''b.txt'') [lit ''srv''] = Inr [lit ''srv'', lit ''b.txt'']"
    "list_all (\<lambda>w. \<not> is_suffix w (path_str [lit ''srv'', lit ''b.txt'']) \<and>
       \<not> is_infix w (path_str [lit ''srv'', lit ''b.txt''])) protected_files"
    by code_simp+
  have w: "fo_write plain_files [] [lit ''srv'', lit ''b.txt''] d = Inr [([lit ''srv'', lit ''b.txt''], d)]" for d
    by (simp add: plain_files_def)
  from write_limit_counts_characters [OF p(1) refl _ w] p(2) show ?thesis
    unfolding list_all_iff by blast
qed

end
