(* ===== verification/Tool_Router.thy ===== *)
theory Tool_Router
  imports Tool_Registry
begin

text \<open>
  \<open>tools/router.py\<close>: the choice of the tool schemas a model may see, by cosine similarity of
  embeddings, with an LRU cache of tool vectors. The embedder is a parameter: its awaited
  outcome on a batch of texts. Floats are real numbers here, so rounding is not modelled.
\<close>

section \<open>Tool texts\<close>

type_synonym vec = "real list"

record tool_score =
  ts_name :: pystr
  ts_score :: real

record tool_route =
  ro_selected_schemas :: "json list"
  ro_ranked_scores :: "tool_score list"
  ro_model_version :: pystr
  ro_threshold :: real

definition routing_error :: "string \<Rightarrow> exn" where
  "routing_error m = exn_of ToolRoutingError m"

lemma routing_error_class [simp]: "exn_class (routing_error m) = ToolRoutingError"
  by (simp add: routing_error_def)

definition json_item :: "json \<Rightarrow> string \<Rightarrow> json option" where
  "json_item v k = (case v of JObj kvs \<Rightarrow> dict_get kvs (lit k) | _ \<Rightarrow> None)"

definition get_tool_name :: "json \<Rightarrow> exn + pystr" where
  "get_tool_name schema =
     (case Option.bind (json_item schema ''function'') (\<lambda>f. json_item f ''name'') of
        None \<Rightarrow> Inl (routing_error ''invalid tool schema: missing function.name'')
      | Some (JStr name) \<Rightarrow>
          (if name = [] then
             Inl (routing_error ''invalid tool schema: function.name must be a non-empty string'')
           else Inr name)
      | Some _ \<Rightarrow>
          Inl (routing_error ''invalid tool schema: function.name must be a non-empty string''))"

definition text_description :: "(pystr, json) dict \<Rightarrow> exn + pystr" where
  "text_description function =
     (case dict_get function (lit ''description'') of
        Some (JStr d) \<Rightarrow> Inr d
      | Some JNull \<Rightarrow> Inr []
      | None \<Rightarrow> Inr []
      | Some _ \<Rightarrow>
          Inl (routing_error ''invalid tool schema: function.description must be a string''))"

definition text_parameters :: "(pystr, json) dict \<Rightarrow> exn + json" where
  "text_parameters function =
     (case dict_get function (lit ''parameters'') of
        None \<Rightarrow> Inr (JObj [(lit ''type'', JStr (lit ''object''))])
      | Some (JObj p) \<Rightarrow> Inr (JObj p)
      | Some _ \<Rightarrow>
          Inl (routing_error ''invalid tool schema: function.parameters must be an object''))"

definition tool_text :: "json \<Rightarrow> exn + pystr" where
  "tool_text schema =
     (case json_item schema ''function'' of
        Some (JObj function) \<Rightarrow>
          rbind (get_tool_name schema) (\<lambda>name.
          rbind (text_description function) (\<lambda>d.
          rbind (text_parameters function) (\<lambda>p.
            Inr (lit ''name: '' @ name @ [10] @ lit ''description: '' @ d @ [10] @
                 lit ''parameters: '' @ json_dumps compact_sorted p))))
      | _ \<Rightarrow> Inl (routing_error ''invalid tool schema: function must be an object''))"

section \<open>Vectors\<close>

text \<open>
  What an embedder may return where a list of lists of numbers is expected: finite numbers,
  infinities or NaN, and things that are no numbers (a \<open>bool\<close> counts as one of them).
\<close>

datatype raw_num = RNum real | RNonFinite | RNotNumber
datatype raw_vec = RVec "raw_num list" | RNotVec
datatype raw_batch = RBatch "raw_vec list" | RNotBatch

definition vector_error :: "bool \<Rightarrow> string \<Rightarrow> exn" where
  "vector_error is_query reason =
     exn_ctx ToolRoutingError ''embedding provider returned an invalid vector''
       [(lit ''source'', JStr (if is_query then lit ''query'' else lit ''tool'')),
        (lit ''reason'', JStr (lit reason))]"

fun raw_value :: "bool \<Rightarrow> raw_num \<Rightarrow> exn + real" where
  "raw_value q (RNum x) = Inr x"
| "raw_value q RNonFinite = Inl (vector_error q ''non_finite_value'')"
| "raw_value q RNotNumber = Inl (vector_error q ''non_numeric_value'')"

definition validated_vector :: "bool \<Rightarrow> raw_vec \<Rightarrow> exn + vec" where
  "validated_vector is_query v =
     (case v of
        RNotVec \<Rightarrow> Inl (vector_error is_query ''empty_or_non_list'')
      | RVec xs \<Rightarrow>
          if xs = [] then Inl (vector_error is_query ''empty_or_non_list'')
          else
            rbind (rmap_list (raw_value is_query) xs) (\<lambda>values.
              if list_all (\<lambda>x. x = 0) values then Inl (vector_error is_query ''zero_vector'')
              else Inr values))"

text \<open>
  The square root of the library is not computable; this code equation lets it be evaluated at
  zero and one, which is what unit vectors need.
\<close>

lemma sqrt_unit [code]:
  "sqrt x = (if x = 0 then 0 else if x = 1 then 1 else Code.abort (STR ''sqrt'') (\<lambda>_. sqrt x))"
  by (simp add: Code.abort_def)

definition vec_norm :: "vec \<Rightarrow> real" where
  "vec_norm v = sqrt (sum_list (map (\<lambda>x. x * x) v))"

definition vec_dot :: "vec \<Rightarrow> vec \<Rightarrow> real" where
  "vec_dot u v = sum_list (map2 (*) u v)"

definition cosine_similarity :: "vec \<Rightarrow> vec \<Rightarrow> exn + real" where
  "cosine_similarity left right =
     (if length left \<noteq> length right then
        Inl (exn_ctx ToolRoutingError ''embedding dimensions must match''
               [(lit ''query_dimension'', JInt (len left)),
                (lit ''tool_dimension'', JInt (len right))])
      else Inr (vec_dot left right / (vec_norm left * vec_norm right)))"

section \<open>EmbeddingRouter\<close>

record embedding_router =
  er_model_version :: pystr
  er_threshold :: real
  er_top_k :: int
  er_cache_size :: int
  er_max_query_chars :: int
  er_tool_vectors :: "(pystr, vec) dict"

definition router_init ::
  "pystr \<Rightarrow> real \<Rightarrow> int \<Rightarrow> int \<Rightarrow> int \<Rightarrow> exn + embedding_router" where
  "router_init model_version threshold top_k cache_size max_query_chars =
     (if py_strip model_version = [] then
        Inl (exn_of PyValueError ''model_version must be a non-empty string'')
      else if \<not> (0 \<le> threshold \<and> threshold \<le> 1) then
        Inl (exn_of PyValueError ''threshold must be between 0 and 1'')
      else if top_k \<le> 0 then Inl (exn_of PyValueError ''top_k must be greater than 0'')
      else if cache_size \<le> 0 then
        Inl (exn_of PyValueError ''cache_size must be greater than 0'')
      else if max_query_chars \<le> 0 then
        Inl (exn_of PyValueError ''max_query_chars must be greater than 0'')
      else Inr \<lparr>er_model_version = model_version, er_threshold = threshold, er_top_k = top_k,
                er_cache_size = cache_size, er_max_query_chars = max_query_chars,
                er_tool_vectors = []\<rparr>)"

text \<open>
  \<open>OrderedDict\<close>, oldest entry first: \<open>move_to_end\<close> of a present key, and the loop that pops the
  oldest entries while there are too many.
\<close>

definition move_to_end :: "'k \<Rightarrow> ('k, 'v) dict \<Rightarrow> ('k, 'v) dict" where
  "move_to_end k d =
     (case dict_get d k of None \<Rightarrow> d | Some v \<Rightarrow> dict_pop k d @ [(k, v)])"

fun pop_oldest :: "int \<Rightarrow> ('k, 'v) dict \<Rightarrow> ('k, 'v) dict" where
  "pop_oldest cap [] = []"
| "pop_oldest cap (e # d) = (if cap < len (e # d) then pop_oldest cap d else e # d)"

definition cache_put :: "int \<Rightarrow> 'k \<Rightarrow> 'v \<Rightarrow> ('k, 'v) dict \<Rightarrow> ('k, 'v) dict" where
  "cache_put cap k v d = pop_oldest cap (move_to_end k (dict_set k v d))"

text \<open>The loop over \<open>zip(missing_texts, vectors[1:])\<close>.\<close>

definition cache_put_all :: "int \<Rightarrow> ('k \<times> 'v) list \<Rightarrow> ('k, 'v) dict \<Rightarrow> ('k, 'v) dict" where
  "cache_put_all cap kvs d = foldl (\<lambda>c (k, v). cache_put cap k v c) d kvs"

text \<open>The loop that reads the vectors back, touching each entry.\<close>

fun cache_read :: "'k list \<Rightarrow> ('k, 'v) dict \<Rightarrow> (exn + 'v list) \<times> ('k, 'v) dict" where
  "cache_read [] d = (Inr [], d)"
| "cache_read (k # ks) d =
     (case dict_get d k of
        None \<Rightarrow> (Inl (routing_error ''tool embedding cache invariant violated''), d)
      | Some v \<Rightarrow>
          (case cache_read ks (move_to_end k d) of (res, d') \<Rightarrow> (rmap (\<lambda>vs. v # vs) res, d')))"

type_synonym embedder = "pystr list \<Rightarrow> raw_batch outcome"

fun validate_batch :: "bool \<Rightarrow> raw_vec list \<Rightarrow> exn + vec list" where
  "validate_batch is_query [] = Inr []"
| "validate_batch is_query (v # vs) =
     rbind (validated_vector is_query v) (\<lambda>w. rmap (\<lambda>ws. w # ws) (validate_batch False vs))"

definition embed_safely :: "embedder \<Rightarrow> embedding_router \<Rightarrow> pystr list \<Rightarrow> exn + vec list" where
  "embed_safely emb er texts =
     (case emb texts of
        Raised e \<Rightarrow>
          (if is_exception (exn_class e) then
             Inl (raise_from (exn_ctx ToolRoutingError ''tool embedding failed''
                    [(lit ''batch_size'', JInt (len texts)),
                     (lit ''model_version'', JStr (er_model_version er))]) e)
           else Inl e)
      | Returned (RBatch vs) \<Rightarrow>
          (if length vs \<noteq> length texts then
             Inl (exn_ctx ToolRoutingError ''embedding provider returned an unexpected batch size''
                    [(lit ''expected'', JInt (len texts))])
           else validate_batch True vs)
      | Returned RNotBatch \<Rightarrow>
          Inl (exn_ctx ToolRoutingError ''embedding provider returned an unexpected batch size''
                 [(lit ''expected'', JInt (len texts))]))"

text \<open>The ranking after the lock is released.\<close>

definition rank_tools :: "(real \<times> json \<times> pystr) list \<Rightarrow> (real \<times> json \<times> pystr) list" where
  "rank_tools scored = sort_key (\<lambda>(s, _). - s) scored"

definition select_tools :: "embedding_router \<Rightarrow> (real \<times> json \<times> pystr) list \<Rightarrow> tool_route" where
  "select_tools er scored =
     (let ranked = rank_tools scored;
          selected = take (nat (er_top_k er)) (filter (\<lambda>(s, _). er_threshold er \<le> s) ranked)
      in \<lparr>ro_selected_schemas = map (\<lambda>(_, schema, _). schema) selected,
          ro_ranked_scores = map (\<lambda>(s, _, name). \<lparr>ts_name = name, ts_score = s\<rparr>) ranked,
          ro_model_version = er_model_version er,
          ro_threshold = er_threshold er\<rparr>)"

definition empty_route :: "embedding_router \<Rightarrow> tool_route" where
  "empty_route er =
     \<lparr>ro_selected_schemas = [], ro_ranked_scores = [], ro_model_version = er_model_version er,
      ro_threshold = er_threshold er\<rparr>"

text \<open>The checks before the lock: names and texts of the schemas.\<close>

definition route_texts :: "embedding_router \<Rightarrow> json list \<Rightarrow> exn + (pystr list \<times> pystr list)" where
  "route_texts er schemas =
     rbind (rmap_list get_tool_name schemas) (\<lambda>names.
       if \<not> distinct names then
         Inl (routing_error ''tool schemas contain duplicate function names'')
       else
         rbind (rmap_list tool_text schemas) (\<lambda>texts.
           if er_cache_size er < len texts then
             Inl (exn_ctx ToolRoutingError
                    ''tool embedding cache is too small for the active schema set''
                    [(lit ''schema_count'', JInt (len schemas)),
                     (lit ''cache_size'', JInt (er_cache_size er))])
           else Inr (names, texts)))"

text \<open>The part under \<open>_route_lock\<close>: the query's vector and the vectors of the tools.\<close>

definition route_vectors ::
  "embedder \<Rightarrow> embedding_router \<Rightarrow> pystr \<Rightarrow> pystr list \<Rightarrow>
   (exn + (vec \<times> vec list)) \<times> embedding_router" where
  "route_vectors emb er query texts =
     (let missing = filter (\<lambda>t. \<not> dict_has (er_tool_vectors er) t) texts in
      case embed_safely emb er (query # missing) of
        Inl e \<Rightarrow> (Inl e, er)
      | Inr [] \<Rightarrow> (Inl (routing_error ''unreachable: empty batch''), er)
      | Inr (qv # vs) \<Rightarrow>
          (let cache = cache_put_all (er_cache_size er) (zip missing vs) (er_tool_vectors er) in
           case cache_read texts cache of
             (res, cache') \<Rightarrow>
               (rmap (\<lambda>tvs. (qv, tvs)) res, er\<lparr>er_tool_vectors := cache'\<rparr>)))"

definition route ::
  "embedder \<Rightarrow> pystr \<Rightarrow> json list \<Rightarrow> embedding_router \<Rightarrow> (exn + tool_route) \<times> embedding_router"
where
  "route emb query schemas er =
     (if schemas = [] then (Inr (empty_route er), er)
      else if py_strip query = [] then (Inr (empty_route er), er)
      else if er_max_query_chars er < len query then
        (Inl (exn_ctx ToolRoutingError ''tool routing query exceeds the configured size limit''
                [(lit ''query_chars'', JInt (len query)),
                 (lit ''max_query_chars'', JInt (er_max_query_chars er))]), er)
      else
        (case route_texts er schemas of
           Inl e \<Rightarrow> (Inl e, er)
         | Inr (names, texts) \<Rightarrow>
             (case route_vectors emb er query texts of
                (Inl e, er') \<Rightarrow> (Inl e, er')
              | (Inr (qv, tvs), er') \<Rightarrow>
                  (rmap (\<lambda>scores. select_tools er' (zip scores (zip schemas names)))
                     (rmap_list (cosine_similarity qv) tvs), er'))))"

definition selected_names :: "tool_route \<Rightarrow> exn + pystr list" where
  "selected_names r = rmap_list get_tool_name (ro_selected_schemas r)"

section \<open>The cache\<close>

lemma pop_oldest_drop:
  "0 \<le> cap \<Longrightarrow> pop_oldest cap d = drop (length d - nat cap) d"
proof (induction cap d rule: pop_oldest.induct)
  case (2 cap e d)
  show ?case
  proof (cases "cap < len (e # d)")
    case True
    with 2 have "length (e # d) - nat cap = Suc (length d - nat cap)" by simp
    with True 2 show ?thesis by simp
  qed simp
qed simp

lemma keys_dom: "fst ` set d = dom (dict_get d)"
  by (simp add: dom_map_of_conv_image_fst)

lemma move_to_end_wf: "dict_wf d \<Longrightarrow> dict_wf (move_to_end k d)"
  by (auto simp: move_to_end_def dict_wf_def AList.distinct_delete AList.delete_keys
      distinct_removeAll split: option.splits)

lemma move_to_end_get: "dict_wf d \<Longrightarrow> dict_get (move_to_end k d) = dict_get d"
  by (auto simp: move_to_end_def fun_eq_iff map_add_def split: option.splits)

lemma move_to_end_keys: "dict_wf d \<Longrightarrow> fst ` set (move_to_end k d) = fst ` set d"
  by (simp add: keys_dom move_to_end_get)

lemma length_by_keys: "dict_wf d \<Longrightarrow> length d = card (fst ` set d)"
  by (metis dict_wf_def distinct_card length_map set_map)

lemma move_to_end_length: "dict_wf d \<Longrightarrow> length (move_to_end k d) = length d"
  using length_by_keys [OF move_to_end_wf] length_by_keys move_to_end_keys
  by metis

lemma cache_put_small:
  assumes "0 \<le> cap" "len d \<le> cap"
  shows "pop_oldest cap d = d"
  using assms by (simp add: pop_oldest_drop)

lemma cache_put_wf: "0 \<le> cap \<Longrightarrow> dict_wf d \<Longrightarrow> dict_wf (cache_put cap k v d)"
  using move_to_end_wf [OF dict_wf_set, of d k k v]
  by (simp add: cache_put_def pop_oldest_drop dict_wf_def drop_map [symmetric])

lemma cache_put_length: "0 \<le> cap \<Longrightarrow> len (cache_put cap k v d) \<le> cap"
  by (simp add: cache_put_def pop_oldest_drop)

lemma cache_put_all_ok:
  "0 \<le> cap \<Longrightarrow> dict_wf d \<Longrightarrow> len d \<le> cap \<Longrightarrow>
   dict_wf (cache_put_all cap kvs d) \<and> len (cache_put_all cap kvs d) \<le> cap"
proof (induction kvs arbitrary: d)
  case Nil
  then show ?case by (simp add: cache_put_all_def)
next
  case (Cons kv kvs)
  obtain k v where kv: "kv = (k, v)" by fastforce
  have "cache_put_all cap (kv # kvs) d = cache_put_all cap kvs (cache_put cap k v d)"
    by (simp add: cache_put_all_def kv)
  with Cons show ?case using cache_put_wf cache_put_length by metis
qed

lemma cache_read_ok:
  "dict_wf d \<Longrightarrow> cache_read ks d = (res, d') \<Longrightarrow>
   dict_wf d' \<and> length d' = length d \<and> dict_get d' = dict_get d"
proof (induction ks d arbitrary: res d' rule: cache_read.induct)
  case (2 k ks d)
  then show ?case
    by (fastforce simp: move_to_end_wf move_to_end_length move_to_end_get
        split: option.splits prod.splits)
qed simp

lemma cache_read_values:
  "dict_wf d \<Longrightarrow>
   fst (cache_read ks d) =
     (if \<forall>k\<in>set ks. dict_has d k then Inr (map (\<lambda>k. the (dict_get d k)) ks)
      else Inl (routing_error ''tool embedding cache invariant violated''))"
proof (induction ks d rule: cache_read.induct)
  case (2 k ks d)
  show ?case
  proof (cases "dict_get d k")
    case None
    then show ?thesis by (simp add: dict_has_def)
  next
    case (Some v)
    with 2 have "fst (cache_read ks (move_to_end k d)) =
      (if \<forall>k\<in>set ks. dict_has d k then Inr (map (\<lambda>k. the (dict_get d k)) ks)
      else Inl (routing_error ''tool embedding cache invariant violated''))"
      by (simp add: move_to_end_wf move_to_end_get dict_has_def)
    with Some show ?thesis by (auto simp: dict_has_def split: prod.splits)
  qed
qed simp

text \<open>As long as every key fits, nothing is evicted.\<close>

lemma cache_put_fits:
  assumes "dict_wf d" "len (dict_set k v d) \<le> cap"
  shows "dict_get (cache_put cap k v d) = dict_get (dict_set k v d)"
    and "dict_wf (cache_put cap k v d)"
    and "fst ` set (cache_put cap k v d) = insert k (fst ` set d)"
proof -
  have cap: "0 \<le> cap" using assms(2) by simp
  have eq: "cache_put cap k v d = move_to_end k (dict_set k v d)"
    unfolding cache_put_def using assms cap
    by (intro cache_put_small) (simp_all add: move_to_end_length)
  show "dict_get (cache_put cap k v d) = dict_get (dict_set k v d)"
    unfolding eq by (rule move_to_end_get) (simp add: assms)
  show "dict_wf (cache_put cap k v d)"
    by (rule cache_put_wf) (simp_all add: assms cap)
  show "fst ` set (cache_put cap k v d) = insert k (fst ` set d)"
    unfolding eq keys_dom move_to_end_get [OF dict_wf_set [OF assms(1)]] by (auto split: if_splits)
qed

lemma cache_put_all_fits:
  assumes "dict_wf d" "int (card (fst ` set d \<union> fst ` set kvs)) \<le> cap"
  shows "dict_wf (cache_put_all cap kvs d) \<and>
    fst ` set (cache_put_all cap kvs d) = fst ` set d \<union> fst ` set kvs"
  using assms
proof (induction kvs arbitrary: d)
  case Nil
  then show ?case by (simp add: cache_put_all_def)
next
  case (Cons kv kvs)
  obtain k v where kv: "kv = (k, v)" by (cases kv)
  have "length (dict_set k v d) = card (fst ` set (dict_set k v d))"
    by (rule length_by_keys) (simp add: Cons.prems)
  also have "\<dots> = card (insert k (fst ` set d))"
    by (rule arg_cong [of _ _ card]) (unfold keys_dom, auto split: if_splits)
  also have "\<dots> \<le> card (fst ` set d \<union> fst ` set (kv # kvs))"
    by (rule card_mono) (auto simp: kv)
  finally have fits: "len (dict_set k v d) \<le> cap" using Cons.prems by linarith
  note put = cache_put_fits [OF Cons.prems(1) fits]
  have all: "fst ` set (cache_put cap k v d) \<union> fst ` set kvs =
      fst ` set d \<union> fst ` set (kv # kvs)"
    unfolding put(3) by (auto simp: kv)
  have "dict_wf (cache_put_all cap kvs (cache_put cap k v d)) \<and>
    fst ` set (cache_put_all cap kvs (cache_put cap k v d)) =
    fst ` set (cache_put cap k v d) \<union> fst ` set kvs"
    by (rule Cons.IH [OF put(2)]) (unfold all, rule Cons.prems(2))
  then show ?case unfolding all by (simp add: cache_put_all_def kv)
qed

definition cache_ok :: "embedding_router \<Rightarrow> bool" where
  "cache_ok er \<longleftrightarrow> 0 < er_cache_size er \<and> 0 < er_top_k er \<and> dict_wf (er_tool_vectors er) \<and>
     len (er_tool_vectors er) \<le> er_cache_size er"

lemma router_init_ok: "router_init v t k c m = Inr er \<Longrightarrow> cache_ok er"
  by (auto simp: router_init_def cache_ok_def split: if_splits)

lemma route_vectors_cache:
  assumes "cache_ok er" "route_vectors emb er query texts = (res, er')"
  shows "cache_ok er' \<and> er_top_k er' = er_top_k er \<and> er_threshold er' = er_threshold er"
proof -
  let ?miss = "filter (\<lambda>t. \<not> dict_has (er_tool_vectors er) t) texts"
  have "dict_wf (cache_put_all (er_cache_size er) kvs (er_tool_vectors er)) \<and>
    len (cache_put_all (er_cache_size er) kvs (er_tool_vectors er)) \<le> er_cache_size er" for kvs
    using assms(1) by (intro cache_put_all_ok) (auto simp: cache_ok_def)
  with assms show ?thesis
    by (auto simp: route_vectors_def cache_ok_def Let_def split: sum.splits list.splits prod.splits
        dest!: cache_read_ok [rotated])
qed

lemma route_cache:
  "cache_ok er \<Longrightarrow> route emb query schemas er = (res, er') \<Longrightarrow>
   cache_ok er' \<and> er_top_k er' = er_top_k er \<and> er_threshold er' = er_threshold er"
  by (auto simp: route_def split: if_splits sum.splits prod.splits dest: route_vectors_cache)

section \<open>The route\<close>

lemma raw_value_error: "raw_value q x = Inl e \<Longrightarrow> exn_class e = ToolRoutingError"
  by (cases x) (auto simp: vector_error_def)

lemma validated_vector_error: "validated_vector q v = Inl e \<Longrightarrow> exn_class e = ToolRoutingError"
  by (auto simp: validated_vector_def vector_error_def split: raw_vec.splits if_splits
      dest!: rmap_list_error raw_value_error)

lemma validate_batch_error: "validate_batch q vs = Inl e \<Longrightarrow> exn_class e = ToolRoutingError"
  by (induction q vs rule: validate_batch.induct) (auto dest: validated_vector_error)

lemma validate_batch_length: "validate_batch q vs = Inr ws \<Longrightarrow> length ws = length vs"
  by (induction q vs arbitrary: ws rule: validate_batch.induct) auto

lemma embed_safely_error:
  "embed_safely emb er texts = Inl e \<Longrightarrow>
   exn_class e = ToolRoutingError \<or> emb texts = Raised e \<and> \<not> is_exception (exn_class e)"
  by (auto simp: embed_safely_def split: outcome.splits raw_batch.splits if_splits
      dest: validate_batch_error)

lemma embed_safely_length: "embed_safely emb er texts = Inr vs \<Longrightarrow> length vs = length texts"
  by (auto simp: embed_safely_def split: outcome.splits raw_batch.splits if_splits
      dest: validate_batch_length)

lemma get_tool_name_error: "get_tool_name s = Inl e \<Longrightarrow> exn_class e = ToolRoutingError"
  by (auto simp: get_tool_name_def split: option.splits json.splits if_splits)

lemma tool_text_error: "tool_text s = Inl e \<Longrightarrow> exn_class e = ToolRoutingError"
  by (auto simp: tool_text_def text_description_def text_parameters_def
      split: option.splits json.splits if_splits dest: get_tool_name_error)

lemma cosine_error: "cosine_similarity u v = Inl e \<Longrightarrow> exn_class e = ToolRoutingError"
  by (auto simp: cosine_similarity_def split: if_splits)

lemma route_texts_error: "route_texts er ss = Inl e \<Longrightarrow> exn_class e = ToolRoutingError"
  by (auto simp: route_texts_def split: if_splits
      dest!: rmap_list_error get_tool_name_error tool_text_error)

lemma route_vectors_error:
  assumes "cache_ok er" "route_vectors emb er query texts = (Inl e, er')"
  shows "exn_class e = ToolRoutingError \<or> \<not> is_exception (exn_class e)"
proof -
  have wf: "dict_wf (cache_put_all (er_cache_size er) kvs (er_tool_vectors er))" for kvs
    using cache_put_all_ok [of "er_cache_size er" "er_tool_vectors er" kvs] assms(1)
    by (simp add: cache_ok_def)
  have "cache_read ks (cache_put_all (er_cache_size er) kvs (er_tool_vectors er)) = (Inl e, d) \<Longrightarrow>
      exn_class e = ToolRoutingError" for ks kvs d
    using cache_read_values [OF wf [of kvs], of ks] by (auto split: if_splits)
  then show ?thesis using assms(2)
    by (fastforce simp: route_vectors_def Let_def split: sum.splits list.splits prod.splits
        dest: embed_safely_error)
qed

lemma route_error:
  assumes "cache_ok er" "route emb query schemas er = (Inl e, er')"
  shows "exn_class e = ToolRoutingError \<or> \<not> is_exception (exn_class e)"
  using assms
  by (auto simp: route_def split: if_splits sum.splits prod.splits
      dest: route_texts_error route_vectors_error dest!: rmap_list_error cosine_error)

lemma select_tools_ranked:
  "sorted_wrt (\<lambda>a b. ts_score b \<le> ts_score a) (ro_ranked_scores (select_tools er scored))"
proof -
  have "sorted (map (\<lambda>(s, _). - s) (rank_tools scored))"
    by (simp add: rank_tools_def)
  then show ?thesis
    by (auto simp: select_tools_def Let_def sorted_wrt_map sorted_map case_prod_unfold)
qed

lemma rank_tools_mset: "mset (rank_tools scored) = mset scored"
  by (simp add: rank_tools_def)

lemma select_tools_names:
  assumes "\<And>s schema name. (s, schema, name) \<in> set scored \<Longrightarrow> get_tool_name schema = Inr name"
  shows "selected_names (select_tools er scored) =
     Inr (map ts_name (take (nat (er_top_k er))
       (filter (\<lambda>t. er_threshold er \<le> ts_score t) (ro_ranked_scores (select_tools er scored)))))"
proof -
  have "rmap_list get_tool_name (map (\<lambda>(_, schema, _). schema) xs) =
      Inr (map (\<lambda>(_, _, name). name) xs)" if "set xs \<subseteq> set scored" for xs
    using that assms by (induction xs) auto
  moreover have "set (take n (filter P (rank_tools scored))) \<subseteq> set scored" for n P
    by (auto simp: rank_tools_def dest: in_set_takeD)
  ultimately show ?thesis
    by (simp add: selected_names_def select_tools_def Let_def filter_map take_map o_def
        case_prod_unfold)
qed

lemma route_texts_names:
  "route_texts er ss = Inr (names, texts) \<Longrightarrow>
   rmap_list get_tool_name ss = Inr names \<and> distinct names \<and> length texts = length ss \<and>
   rmap_list tool_text ss = Inr texts"
  by (auto simp: route_texts_def rmap_list_length split: if_splits)

lemma route_vectors_length:
  assumes "cache_ok er" "route_vectors emb er query texts = (Inr (qv, tvs), er')"
  shows "length tvs = length texts"
proof -
  have wf: "dict_wf (cache_put_all (er_cache_size er) kvs (er_tool_vectors er))" for kvs
    using cache_put_all_ok [of "er_cache_size er" "er_tool_vectors er" kvs] assms(1)
    by (simp add: cache_ok_def)
  have "cache_read texts (cache_put_all (er_cache_size er) kvs (er_tool_vectors er)) = (Inr vs, d) \<Longrightarrow>
      length vs = length texts" for kvs vs d
    using cache_read_values [OF wf [of kvs], of texts] by (auto split: if_splits)
  then show ?thesis using assms(2)
    by (fastforce simp: route_vectors_def Let_def split: sum.splits list.splits prod.splits)
qed

text \<open>What a returned route holds.\<close>

definition route_ok :: "json list \<Rightarrow> embedding_router \<Rightarrow> tool_route \<Rightarrow> bool" where
  "route_ok schemas er r \<longleftrightarrow>
     set (ro_selected_schemas r) \<subseteq> set schemas \<and>
     len (ro_selected_schemas r) \<le> er_top_k er \<and>
     sorted_wrt (\<lambda>a b. ts_score b \<le> ts_score a) (ro_ranked_scores r) \<and>
     selected_names r =
       Inr (map ts_name (take (nat (er_top_k er))
         (filter (\<lambda>t. er_threshold er \<le> ts_score t) (ro_ranked_scores r))))"

lemma empty_route_ok: "cache_ok er \<Longrightarrow> route_ok schemas er (empty_route er)"
  by (simp add: route_ok_def empty_route_def selected_names_def cache_ok_def)

lemma select_tools_ok:
  assumes er: "cache_ok er"
    and names: "rmap_list get_tool_name schemas = Inr names"
    and n: "length scores = length schemas"
  shows "route_ok schemas er (select_tools er (zip scores (zip schemas names)))"
proof -
  let ?scored = "zip scores (zip schemas names)"
  have name: "get_tool_name schema = Inr name" if "(s, schema, name) \<in> set ?scored" for s schema name
  proof -
    have "(schema, name) \<in> set (zip schemas names)"
      using that by (meson in_set_zipE)
    with names show ?thesis
      by (auto simp: rmap_list_Inr list_all2_iff)
  qed
  have "set (ro_selected_schemas (select_tools er ?scored)) \<subseteq> set schemas"
    by (auto simp: select_tools_def Let_def rank_tools_def
        dest!: in_set_takeD elim!: in_set_zipE)
  moreover have "len (ro_selected_schemas (select_tools er ?scored)) \<le> er_top_k er"
    using er by (auto simp: select_tools_def Let_def cache_ok_def)
  ultimately show ?thesis
    using select_tools_names [OF name] select_tools_ranked by (simp add: route_ok_def)
qed

lemma select_tools_ranked_names:
  assumes "rmap_list get_tool_name schemas = Inr names" "length scores = length schemas"
  shows "mset (map ts_name (ro_ranked_scores (select_tools er (zip scores (zip schemas names))))) =
    mset names"
proof -
  have "mset (map (\<lambda>(_, _, name). name) (zip scores (zip schemas names))) = mset names"
    using assms rmap_list_length [OF assms(1)]
    by (simp add: case_prod_unfold flip: map_map [unfolded o_def, of snd snd])
  then show ?thesis
    by (simp add: select_tools_def Let_def case_prod_unfold o_def)
      (simp add: rank_tools_mset)
qed

lemma route_Inr:
  assumes er: "cache_ok er" and r: "route emb query schemas er = (Inr r, er')"
  shows "route_ok schemas er r"
proof (cases "r = empty_route er")
  case True
  with er show ?thesis by (simp add: empty_route_ok)
next
  case False
  with r obtain names texts qv tvs scores where
      texts: "route_texts er schemas = Inr (names, texts)" and
      vecs: "route_vectors emb er query texts = (Inr (qv, tvs), er')" and
      scores: "rmap_list (cosine_similarity qv) tvs = Inr scores" and
      eq: "r = select_tools er' (zip scores (zip schemas names))"
    by (fastforce simp: route_def split: if_splits sum.splits prod.splits)
  note er' = route_vectors_cache [OF er vecs]
  have "length scores = length schemas"
    using rmap_list_length [OF scores] route_vectors_length [OF er vecs]
      route_texts_names [OF texts] by simp
  then have "route_ok schemas er' r"
    unfolding eq using er' route_texts_names [OF texts] by (intro select_tools_ok) auto
  with er' show ?thesis by (simp add: route_ok_def)
qed

text \<open>When the cached texts and the new ones fit together, nothing needed is evicted.\<close>

lemma route_vectors_hit:
  assumes "cache_ok er"
    and fits: "int (card (fst ` set (er_tool_vectors er) \<union> set texts)) \<le> er_cache_size er"
    and batch: "embed_safely emb er
      (query # filter (\<lambda>t. \<not> dict_has (er_tool_vectors er) t) texts) = Inr vs"
  shows "\<exists>qv tvs er'. route_vectors emb er query texts = (Inr (qv, tvs), er')"
proof -
  let ?miss = "filter (\<lambda>t. \<not> dict_has (er_tool_vectors er) t) texts"
  obtain qv ws where vs: "vs = qv # ws" "length ws = length ?miss"
    using embed_safely_length [OF batch] by (cases vs) auto
  have fst_zip: "fst ` set (zip ?miss ws) = set ?miss"
    by (metis map_fst_zip set_map vs(2))
  have all: "fst ` set (er_tool_vectors er) \<union> set ?miss = fst ` set (er_tool_vectors er) \<union> set texts"
    by (auto simp: dict_has_iff)
  let ?cache = "cache_put_all (er_cache_size er) (zip ?miss ws) (er_tool_vectors er)"
  have put: "dict_wf ?cache \<and> fst ` set ?cache = fst ` set (er_tool_vectors er) \<union> set texts"
    using cache_put_all_fits [of "er_tool_vectors er" "zip ?miss ws" "er_cache_size er"] assms
    unfolding fst_zip all by (simp add: cache_ok_def)
  then have "\<forall>t\<in>set texts. dict_has ?cache t" by (simp add: dict_has_iff)
  with put have "fst (cache_read texts ?cache) = Inr (map (\<lambda>k. the (dict_get ?cache k)) texts)"
    by (simp add: cache_read_values)
  then show ?thesis
    using batch vs by (cases "cache_read texts ?cache") (auto simp: route_vectors_def Let_def)
qed

section \<open>The contract of a router\<close>

text \<open>
  \<open>ToolRouter\<close>: a route offers only schemas it was given (fail closed), and what it raises is a
  \<open>ToolRoutingError\<close> or a cancellation.
\<close>

lemma rmap_list_mem:
  "rmap_list f xs = Inr ys \<Longrightarrow> x \<in> set xs \<Longrightarrow> f x = Inr y \<Longrightarrow> y \<in> set ys"
  by (induction xs arbitrary: ys) auto

locale tool_router =
  fixes ok :: "'r \<Rightarrow> bool"
    and pick :: "pystr \<Rightarrow> json list \<Rightarrow> 'r \<Rightarrow> (exn + tool_route) \<times> 'r"
  assumes pick_subset:
      "\<lbrakk>ok s; pick q schemas s = (Inr r, s')\<rbrakk> \<Longrightarrow> set (ro_selected_schemas r) \<subseteq> set schemas"
    and pick_ok: "\<lbrakk>ok s; pick q schemas s = (res, s')\<rbrakk> \<Longrightarrow> ok s'"
    and pick_error:
      "\<lbrakk>ok s; pick q schemas s = (Inl e, s')\<rbrakk> \<Longrightarrow>
       exn_class e = ToolRoutingError \<or> \<not> is_exception (exn_class e)"
begin

lemma selected_known:
  assumes "ok s" "pick q schemas s = (Inr r, s')" "v \<in> set (ro_selected_schemas r)"
    and "rmap_list get_tool_name schemas = Inr names" "get_tool_name v = Inr n"
  shows "n \<in> set names"
  using pick_subset [OF assms(1,2)] assms(3) rmap_list_mem [OF assms(4) _ assms(5)] by blast

lemma raises_agent_error:
  assumes "ok s" "pick q schemas s = (Inl e, s')" "is_exception (exn_class e)"
  shows "is_agent_error (exn_class e)"
  using pick_error [OF assms(1,2)] assms(3) by auto

end

interpretation er: tool_router cache_ok "route emb" for emb
  by unfold_locales (use route_Inr route_cache route_error in \<open>auto simp: route_ok_def\<close>)

section \<open>Properties of the router\<close>


text \<open>Two tools, one near the query and one across it.\<close>

definition sample_schema :: "string \<Rightarrow> json" where
  "sample_schema name =
     JObj [(lit ''function'', JObj [(lit ''name'', JStr (lit name))])]"

definition axis_embedder :: embedder where
  "axis_embedder texts =
     Returned (RBatch (map (\<lambda>t. if is_prefix (lit ''name: y'') t then RVec [RNum 0, RNum 1]
                              else RVec [RNum 1, RNum 0]) texts))"

definition small_router :: "int \<Rightarrow> embedding_router" where
  "small_router n =
     \<lparr>er_model_version = lit ''v'', er_threshold = 1 / 2, er_top_k = 3, er_cache_size = n,
      er_max_query_chars = 100, er_tool_vectors = []\<rparr>"

lemma small_router_ok: "cache_ok (small_router 2)"
  by (simp add: cache_ok_def small_router_def)


text \<open>
  The router fails closed, and its cache stays bounded: whatever the provider returns, a call
  that does not give a route raises a \<open>ToolRoutingError\<close> or passes on a cancellation, and after
  every call the cache has unique keys and at most \<open>cache_size\<close> entries.
\<close>

theorem route_fails_closed:
  assumes "cache_ok er" "route emb query schemas er = (res, er')"
  shows "cache_ok er' \<and> er_cache_size er' = er_cache_size er \<and>
    len (er_tool_vectors er') \<le> er_cache_size er \<and>
    (case res of Inl e \<Rightarrow> exn_class e = ToolRoutingError \<or> \<not> is_exception (exn_class e)
     | Inr _ \<Rightarrow> True)"
proof -
  have "er_cache_size er' = er_cache_size er"
    using assms(2) by (auto simp: route_def route_vectors_def Let_def
        split: if_splits sum.splits prod.splits list.splits)
  with route_cache [OF assms] show ?thesis
    using route_error [OF assms(1), of emb query schemas] assms(2)
    by (cases res) (auto simp: cache_ok_def)
qed

theorem route_fails_closed_witness:
  "\<exists>e er'. route (\<lambda>_. Returned RNotBatch) (lit ''q'') [sample_schema ''x''] (small_router 2) =
     (Inl e, er') \<and> exn_class e = ToolRoutingError"
proof -
  let ?r = "route (\<lambda>_. Returned RNotBatch) (lit ''q'') [sample_schema ''x''] (small_router 2)"
  have "map_sum exn_class (\<lambda>_. ()) (fst ?r) = Inl ToolRoutingError" by code_simp
  then obtain e er' where r: "?r = (Inl e, er')" by (cases ?r; cases "fst ?r") auto
  from route_fails_closed [OF small_router_ok r] have "exn_class e = ToolRoutingError \<or>
      \<not> is_exception (exn_class e)" by simp
  with r \<open>map_sum exn_class (\<lambda>_. ()) (fst ?r) = Inl ToolRoutingError\<close> show ?thesis by simp
qed

text \<open>
  When the cached texts and the ones of the request fit the cache together, a route never
  fails for a vector that is missing from the cache.
\<close>

theorem cache_serves_fitting_requests:
  assumes "cache_ok er"
    and "int (card (fst ` set (er_tool_vectors er) \<union> set texts)) \<le> er_cache_size er"
    and "embed_safely emb er
      (query # filter (\<lambda>t. \<not> dict_has (er_tool_vectors er) t) texts) = Inr vs"
  shows "\<exists>qv tvs er'. route_vectors emb er query texts = (Inr (qv, tvs), er')"
  using assms by (rule route_vectors_hit)

theorem cache_serves_fitting_requests_witness:
  "\<exists>qv tvs er'. route_vectors axis_embedder (small_router 2) (lit ''q'') [lit ''a'', lit ''b''] =
     (Inr (qv, tvs), er')"
proof -
  have "isl (embed_safely axis_embedder (small_router 2)
      (lit ''q'' # filter (\<lambda>t. \<not> dict_has (er_tool_vectors (small_router 2)) t)
        [lit ''a'', lit ''b''])) = False" by code_simp
  then obtain vs where "embed_safely axis_embedder (small_router 2)
      (lit ''q'' # filter (\<lambda>t. \<not> dict_has (er_tool_vectors (small_router 2)) t)
        [lit ''a'', lit ''b'']) = Inr vs"
    by (metis isl_def sum.exhaust_sel sum.collapse(2))
  from cache_serves_fitting_requests [OF small_router_ok _ this] show ?thesis
    by (simp add: small_router_def card_insert_if)
qed


end
