(* ===== verification/Loop_Guard.thy ===== *)
theory Loop_Guard
  imports Agent_Errors
begin

text \<open>
  \<open>runtime/policy.py\<close> and \<open>runtime/loop_guard.py\<close>: the limits of a run, their validation, and
  the guard that detects runs that use up their steps, repeat a tool call or exhaust a feedback
  budget.
\<close>

section \<open>LoopPolicy\<close>

record loop_policy =
  lp_max_steps :: int
  lp_max_consecutive_repeats :: int
  lp_validation_feedback_rounds :: int
  lp_tool_error_feedback_rounds :: int
  lp_reflection_revision_rounds :: int

definition default_policy :: loop_policy where
  "default_policy =
     \<lparr>lp_max_steps = 100, lp_max_consecutive_repeats = 3, lp_validation_feedback_rounds = 1,
      lp_tool_error_feedback_rounds = 1, lp_reflection_revision_rounds = 1\<rparr>"

definition policy_post_init :: "loop_policy \<Rightarrow> exn + loop_policy" where
  "policy_post_init p =
     (if lp_reflection_revision_rounds p < 0 then
        Inl (exn_of ConfigError
               ''reflection_revision_rounds must be greater than or equal to 0'')
      else if lp_max_steps p \<le> 0 then
        Inl (exn_of ConfigError ''max_steps must be greater than 0'')
      else if lp_max_consecutive_repeats p \<le> 0 then
        Inl (exn_of ConfigError ''max_consecutive_repeats must be greater than 0'')
      else if lp_validation_feedback_rounds p < 0 then
        Inl (exn_of ConfigError
               ''validation_feedback_rounds must be greater than or equal to 0'')
      else if lp_tool_error_feedback_rounds p < 0 then
        Inl (exn_of ConfigError
               ''tool_error_feedback_rounds must be greater than or equal to 0'')
      else Inr p)"

definition policy_ok :: "loop_policy \<Rightarrow> bool" where
  "policy_ok p \<longleftrightarrow>
     0 < lp_max_steps p \<and> 0 < lp_max_consecutive_repeats p \<and>
     0 \<le> lp_validation_feedback_rounds p \<and> 0 \<le> lp_tool_error_feedback_rounds p \<and>
     0 \<le> lp_reflection_revision_rounds p"

lemma policy_post_init_iff: "policy_post_init p = Inr q \<longleftrightarrow> q = p \<and> policy_ok p"
  by (auto simp: policy_post_init_def policy_ok_def)

lemma policy_post_init_error:
  "policy_post_init p = Inl e \<Longrightarrow> exn_class e = ConfigError \<and> \<not> policy_ok p"
  by (auto simp: policy_post_init_def policy_ok_def split: if_splits)

section \<open>Signatures\<close>

record tool_call_signature =
  sig_name :: pystr
  sig_arguments :: pystr

text \<open>
  \<open>_canonicalize_arguments\<close>. Arguments that are text are parsed; text that is not JSON stands
  for itself. \<open>json.dumps\<close> of a parsed value does not fail, so the \<open>repr\<close> fallback of the
  source has no input here. The parameter \<open>fl\<close> is the float text of \<open>Py_Json\<close>.
\<close>

definition value_error :: "string \<Rightarrow> exn" where
  "value_error m = exn_of PyValueError m"

definition canonicalize_arguments :: "py_text \<Rightarrow> json \<Rightarrow> exn + pystr" where
  "canonicalize_arguments fl arguments =
     (case arguments of
        JStr s \<Rightarrow>
          (case json_loads (plain_cfg fl) s of
             Inl JSONDecodeError \<Rightarrow> Inr s
           | Inl JSONValueError \<Rightarrow>
               Inl (value_error ''Exceeds the limit (4300 digits) for integer string conversion'')
           | Inr v \<Rightarrow> Inr (json_dumps compact_sorted v))
      | v \<Rightarrow> Inr (json_dumps compact_sorted v))"

definition make_signature :: "py_text \<Rightarrow> pystr \<Rightarrow> json \<Rightarrow> exn + tool_call_signature" where
  "make_signature fl name arguments =
     rmap (\<lambda>a. \<lparr>sig_name = name, sig_arguments = a\<rparr>) (canonicalize_arguments fl arguments)"

section \<open>The guard\<close>

record loop_check_result =
  lc_detected :: bool
  lc_reason :: "pystr option"

definition not_detected :: loop_check_result where
  "not_detected = \<lparr>lc_detected = False, lc_reason = None\<rparr>"

definition detected_as :: "string \<Rightarrow> loop_check_result" where
  "detected_as reason = \<lparr>lc_detected = True, lc_reason = Some (lit reason)\<rparr>"

lemma lc_detected_simps [simp]:
  "\<not> lc_detected not_detected" "lc_detected (detected_as r)"
  by (simp_all add: not_detected_def detected_as_def)

definition is_consecutive_repeat :: "'a list \<Rightarrow> int \<Rightarrow> exn + bool" where
  "is_consecutive_repeat history max_repeats =
     (if max_repeats \<le> 0 then Inl (value_error ''max_repeats must be greater than 0'')
      else if len history < max_repeats then Inr False
      else Inr (card (set (take_last (nat max_repeats) history)) = 1))"

definition check_steps :: "loop_policy \<Rightarrow> int \<Rightarrow> loop_check_result" where
  "check_steps p step_count =
     (if lp_max_steps p \<le> step_count then detected_as ''max_steps'' else not_detected)"

definition check_tool_calls ::
  "loop_policy \<Rightarrow> tool_call_signature list \<Rightarrow> exn + loop_check_result" where
  "check_tool_calls p history =
     rmap (\<lambda>b. if b then detected_as ''loop_detected'' else not_detected)
       (is_consecutive_repeat history (lp_max_consecutive_repeats p))"

definition check_validation_budget :: "loop_policy \<Rightarrow> int \<Rightarrow> loop_check_result" where
  "check_validation_budget p rounds =
     (if lp_validation_feedback_rounds p < rounds
      then detected_as ''validation_feedback_budget_exceeded'' else not_detected)"

definition check_tool_error_budget :: "loop_policy \<Rightarrow> int \<Rightarrow> loop_check_result" where
  "check_tool_error_budget p rounds =
     (if lp_tool_error_feedback_rounds p < rounds
      then detected_as ''tool_error_feedback_budget_exceeded'' else not_detected)"

lemma check_steps_iff [simp]: "lc_detected (check_steps p n) \<longleftrightarrow> lp_max_steps p \<le> n"
  by (simp add: check_steps_def)

lemma check_validation_budget_iff [simp]:
  "lc_detected (check_validation_budget p n) \<longleftrightarrow> lp_validation_feedback_rounds p < n"
  by (simp add: check_validation_budget_def)

lemma check_tool_error_budget_iff [simp]:
  "lc_detected (check_tool_error_budget p n) \<longleftrightarrow> lp_tool_error_feedback_rounds p < n"
  by (simp add: check_tool_error_budget_def)

lemma card_set_one_iff: "card (set xs) = 1 \<longleftrightarrow> (\<exists>x. xs \<noteq> [] \<and> xs = replicate (length xs) x)"
proof
  assume "card (set xs) = 1"
  then obtain x where x: "set xs = {x}" by (auto simp: card_1_singleton_iff)
  then have "\<forall>y\<in>set xs. y = x" by simp
  then have "xs = replicate (length xs) x" by (metis replicate_length_same)
  moreover from x have "xs \<noteq> []" by auto
  ultimately show "\<exists>x. xs \<noteq> [] \<and> xs = replicate (length xs) x" by blast
next
  assume "\<exists>x. xs \<noteq> [] \<and> xs = replicate (length xs) x"
  then obtain x where "xs \<noteq> []" "xs = replicate (length xs) x" by blast
  then have "set xs = {x}" by (metis length_0_conv set_replicate)
  then show "card (set xs) = 1" by simp
qed

text \<open>The guard reports a loop exactly when the history ends in enough equal signatures.\<close>

lemma is_consecutive_repeat_iff:
  assumes "0 < n"
  shows "is_consecutive_repeat history n = Inr True \<longleftrightarrow>
    (\<exists>h x. history = h @ replicate (nat n) x)"
proof (cases "len history < n")
  case True
  with assms have "\<nexists>h x. history = h @ replicate (nat n) x" by (auto split: if_splits)
  with True assms show ?thesis by (simp add: is_consecutive_repeat_def)
next
  case False
  let ?r = "take_last (nat n) history"
  from False assms have l: "length ?r = nat n" and "?r \<noteq> []"
    by (auto simp: take_last_def)
  then have eq: "is_consecutive_repeat history n = Inr True \<longleftrightarrow>
      (\<exists>x. ?r = replicate (nat n) x)"
    using False assms card_set_one_iff [of ?r] by (simp add: is_consecutive_repeat_def)
  also have "\<dots> \<longleftrightarrow> (\<exists>h x. history = h @ replicate (nat n) x)"
  proof
    assume "\<exists>x. ?r = replicate (nat n) x"
    then show "\<exists>h x. history = h @ replicate (nat n) x"
      using take_last_append by blast
  next
    assume "\<exists>h x. history = h @ replicate (nat n) x"
    then show "\<exists>x. ?r = replicate (nat n) x" by (auto simp: take_last_def)
  qed
  finally show ?thesis .
qed

lemma is_consecutive_repeat_total: "0 < n \<Longrightarrow> \<exists>b. is_consecutive_repeat history n = Inr b"
  by (auto simp: is_consecutive_repeat_def)

lemma check_tool_calls_detected:
  assumes "0 < lp_max_consecutive_repeats p"
  shows "(\<exists>r. check_tool_calls p history = Inr r \<and> lc_detected r) \<longleftrightarrow>
   (\<exists>h x. history = h @ replicate (nat (lp_max_consecutive_repeats p)) x)"
proof -
  obtain b where b: "is_consecutive_repeat history (lp_max_consecutive_repeats p) = Inr b"
    using is_consecutive_repeat_total [OF assms] by blast
  then have "(\<exists>r. check_tool_calls p history = Inr r \<and> lc_detected r) \<longleftrightarrow> b"
    by (simp add: check_tool_calls_def)
  with b is_consecutive_repeat_iff [OF assms, of history] show ?thesis by simp
qed

section \<open>Properties of the guard\<close>

text \<open>
  C40. The guard reports a loop exactly when the last \<open>max_consecutive_repeats\<close> calls have one and
  the same signature.
\<close>

theorem loop_detected_iff:
  assumes "0 < lp_max_consecutive_repeats p"
  shows "(\<exists>r. check_tool_calls p history = Inr r \<and> lc_detected r) \<longleftrightarrow>
    (\<exists>h x. history = h @ replicate (nat (lp_max_consecutive_repeats p)) x)"
  using assms by (rule check_tool_calls_detected)

theorem loop_detected_iff_witness:
  "(\<exists>r. check_tool_calls default_policy
        (replicate 4 \<lparr>sig_name = lit ''a'', sig_arguments = []\<rparr>) = Inr r \<and> lc_detected r)"
proof -
  have p: "lp_max_consecutive_repeats default_policy = 3" by (simp add: default_policy_def)
  have "replicate 4 x = [x] @ replicate (nat 3) x" for x :: tool_call_signature
    by (simp add: numeral_eq_Suc)
  then show ?thesis
    using loop_detected_iff [of default_policy] p by (metis zero_less_numeral)
qed

text \<open>
  A signature does not depend on how the arguments are written: two texts that parse to
  values that are equal up to the order of the members of their objects give the same signature.
\<close>

theorem signature_canonical:
  assumes "json_loads (plain_cfg fl) s = Inr v" "json_loads (plain_cfg fl) t = Inr w"
    and "json_perm v w"
  shows "make_signature fl name (JStr s) = make_signature fl name (JStr t)"
  using assms json_dumps_perm [of v w compact_sorted]
  by (simp add: make_signature_def canonicalize_arguments_def compact_sorted_def)

theorem signature_canonical_witness:
  "make_signature sample_text (lit ''f'') (JStr (lit ''{\"a\": 1, \"b\": [2]}'')) =
   make_signature sample_text (lit ''f'') (JStr (lit ''{\"b\":[2],\"a\":1}''))"
proof (rule signature_canonical)
  show "json_loads (plain_cfg sample_text) (lit ''{\"a\": 1, \"b\": [2]}'') =
      Inr (JObj [(lit ''a'', JInt 1), (lit ''b'', JArr [JInt 2])])"
    by code_simp
  show "json_loads (plain_cfg sample_text) (lit ''{\"b\":[2],\"a\":1}'') =
      Inr (JObj [(lit ''b'', JArr [JInt 2]), (lit ''a'', JInt 1)])"
    by code_simp
  show "json_perm (JObj [(lit ''a'', JInt 1), (lit ''b'', JArr [JInt 2])])
      (JObj [(lit ''b'', JArr [JInt 2]), (lit ''a'', JInt 1)])"
    by (rule json_perm_obj [where mid = "[(lit ''a'', JInt 1), (lit ''b'', JArr [JInt 2])]"])
      (auto simp: json_perm_refl lit_def)
qed

end
