(* ===== verification/Planner.thy ===== *)
theory Planner
  imports Agent_Errors
begin

text \<open>
  \<open>runtime/planner.py\<close>: the plan data model, \<open>parse_task_plan\<close> with its checks in the source's
  order, the dependency-cycle check, and the \<open>Planner\<close> around one model call. The answer of the
  model (or the exception of \<open>asyncio.wait_for\<close>) is a parameter of \<open>planner_plan\<close>.
\<close>

section \<open>Plans\<close>

record plan_task =
  pt_id :: pystr
  pt_goal :: pystr
  pt_dependencies :: "pystr list"

record task_plan =
  tp_goal :: pystr
  tp_tasks :: "plan_task list"

definition task_to_dict :: "plan_task \<Rightarrow> json" where
  "task_to_dict t =
     JObj [(lit ''id'', JStr (pt_id t)), (lit ''goal'', JStr (pt_goal t)),
           (lit ''dependencies'', JArr (map JStr (pt_dependencies t)))]"

definition plan_to_dict :: "task_plan \<Rightarrow> json" where
  "plan_to_dict p =
     JObj [(lit ''goal'', JStr (tp_goal p)), (lit ''tasks'', JArr (map task_to_dict (tp_tasks p)))]"

definition routing_query :: "task_plan \<Rightarrow> pystr" where
  "routing_query p = py_join [10] (tp_goal p # map pt_goal (tp_tasks p))"

definition execution_context :: "task_plan \<Rightarrow> pystr" where
  "execution_context p =
     lit ''Use this validated execution DAG. '' @
     lit ''Respect dependencies and do not invent tasks.'' @ [10] @
     json_dumps compact_plain (plan_to_dict p)"

section \<open>Checks\<close>

text \<open>\<open>_TASK_ID.fullmatch\<close>: an ASCII letter, then at most 63 letters, digits, \<open>_\<close> or \<open>-\<close>.\<close>

definition is_ascii_letter :: "int \<Rightarrow> bool" where
  "is_ascii_letter c \<longleftrightarrow> 65 \<le> c \<and> c \<le> 90 \<or> 97 \<le> c \<and> c \<le> 122"

definition is_id_char :: "int \<Rightarrow> bool" where
  "is_id_char c \<longleftrightarrow> is_ascii_letter c \<or> is_digit c \<or> c = 95 \<or> c = 45"

definition task_id_match :: "pystr \<Rightarrow> bool" where
  "task_id_match s =
     (case s of
        [] \<Rightarrow> False
      | c # cs \<Rightarrow> is_ascii_letter c \<and> len cs \<le> 63 \<and> list_all is_id_char cs)"

definition planner_error :: "string \<Rightarrow> exn" where
  "planner_error m = exn_of PlannerError m"

definition bounded_text :: "json \<Rightarrow> string \<Rightarrow> int \<Rightarrow> exn + pystr" where
  "bounded_text value field max_goal_chars =
     (case value of
        JStr s \<Rightarrow>
          (if py_strip s = [] then
             Inl (Exn PlannerError (lit ''planner '' @ lit field @ lit '' must be non-empty text'')
                    [] None)
           else if max_goal_chars < len (py_strip s) then
             Inl (Exn PlannerError
                    (lit ''planner '' @ lit field @ lit '' exceeds the configured size limit'')
                    [(lit ''max_goal_chars'', JInt max_goal_chars)] None)
           else Inr (py_strip s))
      | _ \<Rightarrow>
          Inl (Exn PlannerError (lit ''planner '' @ lit field @ lit '' must be non-empty text'')
                 [] None))"

text \<open>
  One pass of the loop resolves every task whose dependencies are resolved; a pass that resolves
  none has found a cycle. Each pass shortens the list of remaining tasks.
\<close>

definition ready_tasks :: "pystr list \<Rightarrow> (pystr \<times> pystr list) list \<Rightarrow> pystr list" where
  "ready_tasks resolved remaining =
     map fst (filter (\<lambda>(i, ds). set ds \<subseteq> set resolved) remaining)"

function resolve_tasks :: "pystr list \<Rightarrow> (pystr \<times> pystr list) list \<Rightarrow> bool" where
  "resolve_tasks resolved remaining =
     (if remaining = [] then True
      else
        let ready = ready_tasks resolved remaining
        in if ready = [] then False
           else resolve_tasks (resolved @ ready)
                  (filter (\<lambda>(i, ds). i \<notin> set ready) remaining))"
  by pat_completeness auto
termination
proof (relation "measure (length \<circ> snd)")
  fix resolved remaining ready
  assume "remaining \<noteq> []" and ready: "ready = ready_tasks resolved remaining" and "ready \<noteq> []"
  then obtain x where "x \<in> set remaining" "fst x \<in> set ready"
    by (force simp: ready_tasks_def filter_empty_conv)
  then show "((resolved @ ready, filter (\<lambda>(i, ds). i \<notin> set ready) remaining), resolved, remaining)
      \<in> measure (length \<circ> snd)"
    by (auto intro!: length_filter_less split: prod.splits)
qed simp

declare resolve_tasks.simps [simp del]

definition validate_no_dependency_cycle :: "plan_task list \<Rightarrow> exn + unit" where
  "validate_no_dependency_cycle tasks =
     (if resolve_tasks [] (map (\<lambda>t. (pt_id t, pt_dependencies t)) tasks) then Inr ()
      else Inl (planner_error ''planner tasks contain a dependency cycle''))"

section \<open>parse_task_plan\<close>

definition as_str :: "json \<Rightarrow> pystr option" where
  "as_str v = (case v of JStr s \<Rightarrow> Some s | _ \<Rightarrow> None)"

text \<open>One element of \<open>tasks\<close>.\<close>

definition parse_task :: "int \<Rightarrow> int \<Rightarrow> json \<Rightarrow> exn + plan_task" where
  "parse_task max_goal_chars index item =
     (case item of
        JObj kvs \<Rightarrow>
          (if set (dict_keys kvs) \<noteq> {lit ''id'', lit ''goal'', lit ''dependencies''} then
             Inl (exn_ctx PlannerError
                    ''each planner task must contain only id, goal, and dependencies''
                    [(lit ''task_index'', JInt index)])
           else
             (case (dict_get kvs (lit ''id''), dict_get kvs (lit ''goal''),
                    dict_get kvs (lit ''dependencies'')) of
                (Some task_id, Some goal, Some deps) \<Rightarrow>
                  (case as_str task_id of
                     None \<Rightarrow> Inl (exn_ctx PlannerError ''planner task id is invalid''
                                    [(lit ''task_index'', JInt index)])
                   | Some i \<Rightarrow>
                       if \<not> task_id_match i then
                         Inl (exn_ctx PlannerError ''planner task id is invalid''
                                [(lit ''task_index'', JInt index)])
                       else
                         (case bounded_text goal ''task goal'' max_goal_chars of
                            Inl e \<Rightarrow> Inl e
                          | Inr task_goal \<Rightarrow>
                              (case deps of
                                 JArr ds \<Rightarrow>
                                   (if list_all (\<lambda>d. as_str d \<noteq> None) ds \<and>
                                       distinct (List.map_filter as_str ds) then
                                      Inr \<lparr>pt_id = i, pt_goal = task_goal,
                                           pt_dependencies = List.map_filter as_str ds\<rparr>
                                    else Inl (planner_error
                                      ''planner dependencies must be a list of unique task ids''))
                               | _ \<Rightarrow> Inl (planner_error
                                      ''planner dependencies must be a list of unique task ids''))))
              | _ \<Rightarrow> Inl (exn_of PyKeyError ''missing key'')))
      | _ \<Rightarrow> Inl (exn_ctx PlannerError
                    ''each planner task must contain only id, goal, and dependencies''
                    [(lit ''task_index'', JInt index)]))"

fun parse_tasks :: "int \<Rightarrow> int \<Rightarrow> json list \<Rightarrow> exn + plan_task list" where
  "parse_tasks max_goal_chars index [] = Inr []"
| "parse_tasks max_goal_chars index (item # items) =
     (case parse_task max_goal_chars index item of
        Inl e \<Rightarrow> Inl e
      | Inr t \<Rightarrow> rmap (\<lambda>ts. t # ts) (parse_tasks max_goal_chars (index + 1) items))"

text \<open>The loop over the parsed tasks: unknown dependencies, then a dependency on itself.\<close>

fun check_dependencies :: "pystr list \<Rightarrow> plan_task list \<Rightarrow> exn + unit" where
  "check_dependencies known [] = Inr ()"
| "check_dependencies known (t # ts) =
     (let unknown = filter (\<lambda>d. d \<notin> set known) (pt_dependencies t) in
      if unknown \<noteq> [] then
        Inl (exn_ctx PlannerError ''planner task references unknown dependencies''
               [(lit ''task_id'', JStr (pt_id t)),
                (lit ''unknown'', JArr (map JStr (sort (remdups unknown))))])
      else if pt_id t \<in> set (pt_dependencies t) then
        Inl (exn_ctx PlannerError ''planner task cannot depend on itself''
               [(lit ''task_id'', JStr (pt_id t))])
      else check_dependencies known ts)"

definition parse_task_plan ::
  "py_text \<Rightarrow> int \<Rightarrow> int \<Rightarrow> json \<Rightarrow> exn + task_plan" where
  "parse_task_plan fl max_tasks max_goal_chars content =
     (case content of
        JStr text \<Rightarrow>
          (case json_loads (plain_cfg fl) text of
             Inl JSONDecodeError \<Rightarrow>
               Inl (raise_from (planner_error ''planner response content is not valid JSON'')
                      (json_decode_error fl text))
           | Inl JSONValueError \<Rightarrow>
               Inl (exn_of PyValueError
                      ''Exceeds the limit (4300 digits) for integer string conversion'')
           | Inr (JObj raw) \<Rightarrow>
               (if set (dict_keys raw) \<noteq> {lit ''goal'', lit ''tasks''} then
                  Inl (planner_error ''planner response must contain only goal and tasks'')
                else
                  (case (dict_get raw (lit ''tasks''), dict_get raw (lit ''goal'')) of
                     (Some (JArr raw_tasks), Some raw_goal) \<Rightarrow>
                       (if \<not> (1 \<le> len raw_tasks \<and> len raw_tasks \<le> max_tasks) then
                          Inl (exn_ctx PlannerError
                                 ''planner task count is outside of configured bounds''
                                 [(lit ''max_tasks'', JInt max_tasks)])
                        else
                          (case bounded_text raw_goal ''goal'' max_goal_chars of
                             Inl e \<Rightarrow> Inl e
                           | Inr goal \<Rightarrow>
                               (case parse_tasks max_goal_chars 0 raw_tasks of
                                  Inl e \<Rightarrow> Inl e
                                | Inr tasks \<Rightarrow>
                                    (if \<not> distinct (map pt_id tasks) then
                                       Inl (planner_error ''planner task ids must be unique'')
                                     else
                                       (case check_dependencies (map pt_id tasks) tasks of
                                          Inl e \<Rightarrow> Inl e
                                        | Inr _ \<Rightarrow>
                                            rmap (\<lambda>_. \<lparr>tp_goal = goal, tp_tasks = tasks\<rparr>)
                                              (validate_no_dependency_cycle tasks))))))
                   | _ \<Rightarrow> Inl (exn_ctx PlannerError
                                 ''planner task count is outside of configured bounds''
                                 [(lit ''max_tasks'', JInt max_tasks)])))
           | Inr _ \<Rightarrow>
               Inl (planner_error ''planner response must contain only goal and tasks''))
      | _ \<Rightarrow> Inl (planner_error ''planner response content must be JSON text''))"

section \<open>The cycle check\<close>

text \<open>An edge goes from a dependency to the task that needs it.\<close>

definition dep_edges :: "(pystr \<times> pystr list) list \<Rightarrow> (pystr \<times> pystr) set" where
  "dep_edges ts = {(d, i). \<exists>ds. (i, ds) \<in> set ts \<and> d \<in> set ds}"

text \<open>A stage number for every identifier, larger than those of its dependencies.\<close>

definition staged :: "(pystr \<times> pystr list) list \<Rightarrow> (pystr \<Rightarrow> nat) \<Rightarrow> bool" where
  "staged ts rank \<longleftrightarrow> (\<forall>(i, ds)\<in>set ts. \<forall>d\<in>set ds. rank d < rank i)"

lemma staged_acyclic: "staged ts rank \<Longrightarrow> acyclic (dep_edges ts)"
proof -
  assume "staged ts rank"
  then have "dep_edges ts \<subseteq> measure rank" by (auto simp: staged_def dep_edges_def)
  then show ?thesis by (meson wf_acyclic wf_measure acyclic_subset)
qed

lemma ready_tasks_iff:
  "i \<in> set (ready_tasks resolved remaining) \<longleftrightarrow>
     (\<exists>ds. (i, ds) \<in> set remaining \<and> set ds \<subseteq> set resolved)"
  by (force simp: ready_tasks_def)

lemma distinct_fst_filter: "distinct (map fst xs) \<Longrightarrow> distinct (map fst (filter P xs))"
  by (induction xs) auto

lemma distinct_fst_eqD:
  "distinct (map fst xs) \<Longrightarrow> (i, a) \<in> set xs \<Longrightarrow> (i, b) \<in> set xs \<Longrightarrow> a = b"
  by (metis map_of_is_SomeI option.inject)

lemma resolve_tasks_step:
  assumes "remaining \<noteq> []"
  shows "resolve_tasks resolved remaining \<longleftrightarrow>
    ready_tasks resolved remaining \<noteq> [] \<and>
    resolve_tasks (resolved @ ready_tasks resolved remaining)
      (filter (\<lambda>(i, ds). i \<notin> set (ready_tasks resolved remaining)) remaining)"
  using assms by (subst resolve_tasks.simps) (simp add: Let_def)

text \<open>A successful run yields stage numbers: two more than those of the rest of the run.\<close>

lemma resolve_tasks_staged:
  assumes "resolve_tasks resolved remaining" "set resolved \<inter> fst ` set remaining = {}"
    "distinct (map fst remaining)"
  shows "\<exists>rank. staged remaining rank"
  using assms
proof (induction resolved remaining rule: resolve_tasks.induct)
  case (1 resolved remaining)
  show ?case
  proof (cases "remaining = []")
    case True
    then show ?thesis by (simp add: staged_def)
  next
    case False
    let ?ready = "ready_tasks resolved remaining"
    let ?rest = "filter (\<lambda>(i, ds). i \<notin> set ?ready) remaining"
    from "1.prems"(1) have ne: "?ready \<noteq> []" and step: "resolve_tasks (resolved @ ?ready) ?rest"
      by (simp_all add: resolve_tasks_step [OF False])
    have "set (resolved @ ?ready) \<inter> fst ` set ?rest = {}"
      using "1.prems"(2) by auto
    with "1.IH" [OF False refl ne step] distinct_fst_filter [OF "1.prems"(3)]
    obtain rank where rank: "staged ?rest rank" by blast
    define rank' where
      "rank' x = (if x \<in> set resolved then 0 else if x \<in> set ?ready then 1 else rank x + 2)" for x
    have "rank' d < rank' i" if t: "(i, ds) \<in> set remaining" and d: "d \<in> set ds" for i ds d
    proof -
      from t "1.prems"(2) have i: "i \<notin> set resolved" by force
      show ?thesis
      proof (cases "i \<in> set ?ready")
        case True
        then have "set ds \<subseteq> set resolved"
          using distinct_fst_eqD [OF "1.prems"(3) t] by (auto simp: ready_tasks_iff)
        with d i True show ?thesis by (auto simp: rank'_def)
      next
        case False
        with t have "(i, ds) \<in> set ?rest" by simp
        with rank d have "rank d < rank i" by (fastforce simp: staged_def)
        with False i show ?thesis by (simp add: rank'_def)
      qed
    qed
    then have "staged remaining rank'" by (auto simp: staged_def)
    then show ?thesis using exI [of "staged remaining" rank'] by simp
  qed
qed

text \<open>Conversely a run over staged tasks with known dependencies never gets stuck.\<close>

lemma resolve_tasks_complete:
  assumes "staged remaining rank"
    and "\<forall>(i, ds)\<in>set remaining. set ds \<subseteq> set resolved \<union> fst ` set remaining"
  shows "resolve_tasks resolved remaining"
  using assms
proof (induction resolved remaining rule: resolve_tasks.induct)
  case (1 resolved remaining)
  show ?case
  proof (cases "remaining = []")
    case True
    then show ?thesis by (simp add: resolve_tasks.simps)
  next
    case False
    let ?ready = "ready_tasks resolved remaining"
    let ?rest = "filter (\<lambda>(i, ds). i \<notin> set ?ready) remaining"
    obtain i ds where m: "(i, ds) \<in> set remaining"
      and least: "\<forall>t\<in>set remaining. rank i \<le> rank (fst t)"
    proof -
      let ?S = "fst ` set remaining"
      have "finite ?S" "?S \<noteq> {}" using False by simp_all
      note x = arg_min_if_finite(1) [OF this, of rank] arg_min_least [OF this, of _ rank]
      obtain ds where "(arg_min_on rank ?S, ds) \<in> set remaining" using x(1) by auto
      then show ?thesis by (rule that) (use x(2) in blast)
    qed
    have "set ds \<subseteq> set resolved"
    proof
      fix d
      assume d: "d \<in> set ds"
      with m "1.prems"(1) have "rank d < rank i" by (fastforce simp: staged_def)
      with least have "d \<notin> fst ` set remaining" by force
      with m d "1.prems"(2) show "d \<in> set resolved" by blast
    qed
    with m have "i \<in> set ?ready" by (auto simp: ready_tasks_iff)
    then have ne: "?ready \<noteq> []" by auto
    have "staged ?rest rank" using "1.prems"(1) by (auto simp: staged_def)
    moreover have "\<forall>(i, ds)\<in>set ?rest. set ds \<subseteq> set (resolved @ ?ready) \<union> fst ` set ?rest"
    proof (intro ballI, clarify)
      fix j es d
      assume "(j, es) \<in> set ?rest" "d \<in> set es"
        and "d \<notin> fst ` set ?rest"
      with "1.prems"(2) have "d \<in> set resolved \<union> fst ` set remaining" by fastforce
      with \<open>d \<notin> fst ` set ?rest\<close> show "d \<in> set (resolved @ ?ready)" by force
    qed
    ultimately have "resolve_tasks (resolved @ ?ready) ?rest"
      by (rule "1.IH" [OF False refl ne])
    with ne show ?thesis by (simp add: resolve_tasks_step [OF False])
  qed
qed

lemma acyclic_staged:
  assumes "acyclic (dep_edges ts)"
  shows "\<exists>rank. staged ts rank"
proof -
  have "dep_edges ts \<subseteq> \<Union>((\<lambda>(i, ds). set ds \<times> {i}) ` set ts)"
    by (auto simp: dep_edges_def)
  then have fin: "finite (dep_edges ts)" by (rule finite_subset) auto
  let ?below = "\<lambda>x. {y. (y, x) \<in> (dep_edges ts)\<^sup>+}"
  have finb: "finite (?below x)" for x
  proof (rule finite_subset)
    show "?below x \<subseteq> Domain (dep_edges ts)"
      by (metis (no_types, lifting) DomainI mem_Collect_eq subsetI trancl_domain)
    show "finite (Domain (dep_edges ts))" using fin by (rule finite_Domain)
  qed
  have "card (?below d) < card (?below i)" if "(d, i) \<in> dep_edges ts" for d i
  proof (rule psubset_card_mono [OF finb])
    have "?below d \<subseteq> ?below i" using that by (auto intro: trancl_into_trancl)
    moreover have "d \<in> ?below i" using that by auto
    moreover have "d \<notin> ?below d" using assms by (auto simp: acyclic_def)
    ultimately show "?below d \<subset> ?below i" by blast
  qed
  then have "staged ts (\<lambda>x. card (?below x))"
    unfolding staged_def dep_edges_def by blast
  then show ?thesis by blast
qed

lemma resolve_tasks_iff_acyclic:
  assumes "distinct (map fst ts)" "\<forall>(i, ds)\<in>set ts. set ds \<subseteq> fst ` set ts"
  shows "resolve_tasks [] ts \<longleftrightarrow> acyclic (dep_edges ts)"
proof
  assume "resolve_tasks [] ts"
  with assms(1) obtain rank where "staged ts rank"
    using resolve_tasks_staged [of "[]" ts] by auto
  then show "acyclic (dep_edges ts)" by (rule staged_acyclic)
next
  assume "acyclic (dep_edges ts)"
  then obtain rank where "staged ts rank" using acyclic_staged by blast
  then show "resolve_tasks [] ts"
    by (rule resolve_tasks_complete) (use assms(2) in auto)
qed

section \<open>What an accepted plan satisfies\<close>

definition text_ok :: "int \<Rightarrow> pystr \<Rightarrow> bool" where
  "text_ok max_chars s \<longleftrightarrow> s \<noteq> [] \<and> py_strip s = s \<and> len s \<le> max_chars"

definition task_ok :: "int \<Rightarrow> pystr list \<Rightarrow> plan_task \<Rightarrow> bool" where
  "task_ok max_goal_chars known t \<longleftrightarrow>
     task_id_match (pt_id t) \<and> text_ok max_goal_chars (pt_goal t) \<and>
     distinct (pt_dependencies t) \<and> set (pt_dependencies t) \<subseteq> set known \<and>
     pt_id t \<notin> set (pt_dependencies t)"

definition task_graph :: "task_plan \<Rightarrow> (pystr \<times> pystr list) list" where
  "task_graph p = map (\<lambda>t. (pt_id t, pt_dependencies t)) (tp_tasks p)"

definition plan_ok :: "int \<Rightarrow> int \<Rightarrow> task_plan \<Rightarrow> bool" where
  "plan_ok max_tasks max_goal_chars p \<longleftrightarrow>
     1 \<le> len (tp_tasks p) \<and> len (tp_tasks p) \<le> max_tasks \<and>
     text_ok max_goal_chars (tp_goal p) \<and>
     distinct (map pt_id (tp_tasks p)) \<and>
     (\<forall>t\<in>set (tp_tasks p). task_ok max_goal_chars (map pt_id (tp_tasks p)) t) \<and>
     acyclic (dep_edges (task_graph p))"

lemma bounded_text_ok: "bounded_text v field n = Inr s \<Longrightarrow> text_ok n s"
  by (auto simp: bounded_text_def text_ok_def split: json.splits if_splits)

lemma bounded_text_Inr: "text_ok n s \<Longrightarrow> bounded_text (JStr s) field n = Inr s"
  by (simp add: bounded_text_def text_ok_def)

lemma bounded_text_error: "bounded_text v field n = Inl e \<Longrightarrow> exn_class e = PlannerError"
  by (auto simp: bounded_text_def split: json.splits if_splits)

lemma check_dependencies_Inr_iff:
  "check_dependencies known ts = Inr u \<longleftrightarrow>
     (\<forall>t\<in>set ts. set (pt_dependencies t) \<subseteq> set known \<and> pt_id t \<notin> set (pt_dependencies t))"
  by (induction known ts rule: check_dependencies.induct)
    (auto simp: Let_def filter_empty_conv)

lemma check_dependencies_error:
  "check_dependencies known ts = Inl e \<Longrightarrow> exn_class e = PlannerError"
  by (induction known ts rule: check_dependencies.induct) (auto simp: Let_def split: if_splits)

lemma planner_error_class [simp]: "exn_class (planner_error m) = PlannerError"
  by (simp add: planner_error_def)

text \<open>The checks of one task, and of the list of tasks.\<close>

lemma parse_task_ok:
  assumes "parse_task n k item = Inr t"
  shows "task_id_match (pt_id t) \<and> text_ok n (pt_goal t) \<and> distinct (pt_dependencies t)"
  using assms
  by (auto simp: parse_task_def bounded_text_ok split: json.splits option.splits if_splits sum.splits)

lemma parse_task_error:
  assumes "parse_task n k item = Inl e"
  shows "exn_class e = PlannerError"
proof -
  have keys: "dict_get kvs k = None \<Longrightarrow> k \<notin> set (dict_keys kvs)" for kvs :: "(pystr, json) dict" and k
    by (auto simp: dict_keys_def map_of_eq_None_iff)
  show ?thesis
    using assms
    by (auto simp: parse_task_def bounded_text_error
        split: json.splits option.splits if_splits sum.splits dest!: keys)
qed

lemma parse_tasks_ok:
  "parse_tasks n k items = Inr ts \<Longrightarrow>
   length ts = length items \<and>
   (\<forall>t\<in>set ts. task_id_match (pt_id t) \<and> text_ok n (pt_goal t) \<and> distinct (pt_dependencies t))"
proof (induction n k items arbitrary: ts rule: parse_tasks.induct)
  case (2 n k item items)
  then show ?case
    by (auto split: sum.splits dest: parse_task_ok)
qed simp

lemma parse_tasks_error: "parse_tasks n k items = Inl e \<Longrightarrow> exn_class e = PlannerError"
proof (induction n k items rule: parse_tasks.induct)
  case (2 n k item items)
  then show ?case
    by (auto split: sum.splits dest: parse_task_error)
qed simp

lemma validate_cycle_iff:
  assumes "distinct (map pt_id ts)" "\<forall>t\<in>set ts. set (pt_dependencies t) \<subseteq> pt_id ` set ts"
  shows "validate_no_dependency_cycle ts = Inr () \<longleftrightarrow>
    acyclic (dep_edges (map (\<lambda>t. (pt_id t, pt_dependencies t)) ts))"
  using resolve_tasks_iff_acyclic [of "map (\<lambda>t. (pt_id t, pt_dependencies t)) ts"] assms
  by (auto simp: validate_no_dependency_cycle_def comp_def image_image)

lemma parse_task_plan_ok:
  assumes "parse_task_plan fl max_tasks n content = Inr p"
  shows "plan_ok max_tasks n p"
proof -
  from assms obtain raw_tasks raw_goal goal tasks where
      count: "1 \<le> len raw_tasks" "len raw_tasks \<le> max_tasks"
    and goal: "bounded_text raw_goal ''goal'' n = Inr goal"
    and tasks: "parse_tasks n 0 raw_tasks = Inr tasks"
    and ids: "distinct (map pt_id tasks)"
    and deps: "check_dependencies (map pt_id tasks) tasks = Inr ()"
    and cyc: "validate_no_dependency_cycle tasks = Inr ()"
    and p: "p = \<lparr>tp_goal = goal, tp_tasks = tasks\<rparr>"
    by (auto simp: parse_task_plan_def split: json.splits sum.splits json_error.splits if_splits option.splits)
  have d: "\<forall>t\<in>set tasks. set (pt_dependencies t) \<subseteq> pt_id ` set tasks \<and>
      pt_id t \<notin> set (pt_dependencies t)"
    using deps by (auto simp: check_dependencies_Inr_iff)
  with cyc ids have "acyclic (dep_edges (task_graph p))"
    using validate_cycle_iff [of tasks] by (simp add: task_graph_def p)
  with count ids d parse_tasks_ok [OF tasks] bounded_text_ok [OF goal] show ?thesis
    by (auto simp: plan_ok_def task_ok_def p)
qed

lemma parse_task_plan_error:
  assumes "parse_task_plan fl max_tasks n content = Inl e"
  shows "exn_class e = PlannerError \<or>
    (\<exists>s. content = JStr s \<and> json_loads (plain_cfg fl) s = Inl JSONValueError \<and>
         exn_class e = PyValueError)"
  using assms
  by (auto simp: parse_task_plan_def validate_no_dependency_cycle_def bounded_text_error
      parse_tasks_error check_dependencies_error
      split: json.splits sum.splits json_error.splits if_splits option.splits)

section \<open>Planner\<close>

record planner =
  pl_timeout_s :: py_float
  pl_max_tasks :: int
  pl_max_goal_chars :: int

definition planner_init :: "py_float \<Rightarrow> int \<Rightarrow> int \<Rightarrow> exn + planner" where
  "planner_init timeout_s max_tasks max_goal_chars =
     (case pf_value timeout_s of
        None \<Rightarrow> Inl (exn_of PyValueError ''timeout_s must be finite'')
      | Some t \<Rightarrow>
          if t \<le> 0 then Inl (exn_of PyValueError ''timeout_s must be greater than 0'')
          else if max_tasks \<le> 0 then
            Inl (exn_of PyValueError ''max_tasks must be greater than 0'')
          else if max_goal_chars \<le> 0 then
            Inl (exn_of PyValueError ''max_goal_chars must be greater than 0'')
          else Inr \<lparr>pl_timeout_s = timeout_s, pl_max_tasks = max_tasks,
                    pl_max_goal_chars = max_goal_chars\<rparr>)"

text \<open>\<open>schema.get("function", {}).get(key)\<close> on a schema that is an object.\<close>

definition obj_get :: "json \<Rightarrow> string \<Rightarrow> json option" where
  "obj_get v k = (case v of JObj kvs \<Rightarrow> dict_get kvs (lit k) | _ \<Rightarrow> None)"

definition capability :: "json \<Rightarrow> json" where
  "capability schema =
     (let function = (case obj_get schema ''function'' of Some f \<Rightarrow> f | None \<Rightarrow> JObj []) in
      JObj [(lit ''name'', case obj_get function ''name'' of Some n \<Rightarrow> n | None \<Rightarrow> JNull),
            (lit ''description'',
             case obj_get function ''description'' of Some d \<Rightarrow> d | None \<Rightarrow> JStr [])])"

definition planner_prompt :: "json list \<Rightarrow> pystr" where
  "planner_prompt tool_schemas =
     lit ''You are a planning component. '' @
     lit ''Decompose the request into the smallest useful DAG. '' @
     lit ''Return JSON only, with exactly this shape: '' @
     lit ''{\"goal\":\"...\",\"tasks\":['' @
     lit ''{\"id\":\"task_1\",\"goal\":\"...\",'' @
     lit ''\"dependencies\":[]}]} . '' @
     lit ''Use one task for a simple request. '' @
     lit ''Dependencies must reference task ids. '' @
     lit ''Do not execute tasks and do not claim results. '' @
     lit ''Available capabilities: '' @
     json_dumps compact_plain (JArr (map capability tool_schemas))"

text \<open>The two messages of the request, as role and content.\<close>

definition planner_messages :: "pystr \<Rightarrow> json list \<Rightarrow> (pystr \<times> pystr) list" where
  "planner_messages user_input tool_schemas =
     [(lit ''system'', planner_prompt tool_schemas), (lit ''user'', user_input)]"

text \<open>
  \<open>Planner.plan\<close>, given what \<open>wait_for(llm_call(messages, None))\<close> did: its own timeout and
  provider failures become \<open>PlannerError\<close>, a cancellation is passed on.
\<close>

definition planner_plan ::
  "py_text \<Rightarrow> planner \<Rightarrow> llm_response outcome \<Rightarrow> exn + task_plan" where
  "planner_plan fl pl awaited =
     (case awaited of
        Raised e \<Rightarrow>
          (if exn_class e = PyTimeoutError then
             Inl (raise_from (exn_ctx PlannerError ''planner request timed out''
                    [(lit ''timeout_s'', JFloat (pf_text (pl_timeout_s pl)))]) e)
           else if exn_class e = PyCancelledError then Inl e
           else Inl (raise_from (planner_error ''planner request failed'') e))
      | Returned (Malformed e) \<Rightarrow>
          (if shape_error (exn_class e)
           then Inl (raise_from (planner_error ''planner response has an invalid shape'') e)
           else Inl e)
      | Returned (Response content) \<Rightarrow>
          parse_task_plan fl (pl_max_tasks pl) (pl_max_goal_chars pl) content)"

lemma planner_plan_ok:
  "planner_plan fl pl awaited = Inr p \<Longrightarrow> plan_ok (pl_max_tasks pl) (pl_max_goal_chars pl) p"
  by (auto simp: planner_plan_def parse_task_plan_ok
      split: outcome.splits llm_response.splits if_splits)

text \<open>Which exceptions leave the planner.\<close>

lemma planner_plan_error:
  assumes "planner_plan fl pl awaited = Inl e"
  shows "exn_class e = PlannerError \<or>
    exn_class e = PyCancelledError \<and> awaited = Raised e \<or>
    awaited = Returned (Malformed e) \<and> \<not> shape_error (exn_class e) \<or>
    (\<exists>s. awaited = Returned (Response (JStr s)) \<and>
         json_loads (plain_cfg fl) s = Inl JSONValueError \<and> exn_class e = PyValueError)"
  using assms
  by (auto simp: planner_plan_def split: outcome.splits llm_response.splits if_splits
      dest!: parse_task_plan_error)

section \<open>Properties of the planner\<close>

text \<open>A plan with two tasks, the second after the first, and the model's answer that states it.\<close>

definition sample_plan_text :: pystr where
  "sample_plan_text =
     lit ''{\"goal\":\" g \",\"tasks\":[{\"id\":\"a\",\"goal\":\"x\",\"dependencies\":[]},'' @
     lit ''{\"id\":\"b\",\"goal\":\"y\",\"dependencies\":[\"a\"]}]}''"

definition sample_plan_planner :: planner where
  "sample_plan_planner =
     \<lparr>pl_timeout_s = \<lparr>pf_value = Some 30, pf_text = lit ''30.0''\<rparr>, pl_max_tasks = 8,
      pl_max_goal_chars = 500\<rparr>"

definition sample_task_plan :: task_plan where
  "sample_task_plan =
     \<lparr>tp_goal = lit ''g'',
      tp_tasks = [\<lparr>pt_id = lit ''a'', pt_goal = lit ''x'', pt_dependencies = []\<rparr>,
                  \<lparr>pt_id = lit ''b'', pt_goal = lit ''y'', pt_dependencies = [lit ''a'']\<rparr>]\<rparr>"

lemma sample_plan_parsed:
  "planner_plan sample_text sample_plan_planner (Returned (Response (JStr sample_plan_text))) =
     Inr sample_task_plan"
  by code_simp

text \<open>
  C14. A plan the planner accepts is within its configured bounds, its goal and task goals are
  stripped and not empty, its task identifiers are well formed and unique, every dependency names
  another task of the plan, and the dependency graph is acyclic.
\<close>

theorem planner_accepts_only_dags:
  assumes "planner_plan fl pl awaited = Inr p"
  shows "plan_ok (pl_max_tasks pl) (pl_max_goal_chars pl) p"
  using assms by (rule planner_plan_ok)

theorem planner_accepts_only_dags_witness:
  "plan_ok 8 500 sample_task_plan \<and> tp_goal sample_task_plan = lit ''g''"
  using planner_accepts_only_dags [OF sample_plan_parsed]
  by (simp add: sample_plan_planner_def sample_task_plan_def)

text \<open>
  C15. The cycle check is exact: on tasks with unique identifiers whose dependencies are all known
  it passes when, and only when, the dependency graph has no cycle.
\<close>

theorem cycle_check_exact:
  assumes "distinct (map pt_id ts)" "\<forall>t\<in>set ts. set (pt_dependencies t) \<subseteq> pt_id ` set ts"
  shows "validate_no_dependency_cycle ts = Inr () \<longleftrightarrow>
    acyclic (dep_edges (map (\<lambda>t. (pt_id t, pt_dependencies t)) ts))"
  using assms by (rule validate_cycle_iff)

theorem cycle_check_exact_witness:
  "\<not> acyclic (dep_edges [(lit ''a'', [lit ''b'']), (lit ''b'', [lit ''a''])])"
proof -
  let ?ts = "[\<lparr>pt_id = lit ''a'', pt_goal = lit ''x'', pt_dependencies = [lit ''b'']\<rparr>,
      \<lparr>pt_id = lit ''b'', pt_goal = lit ''y'', pt_dependencies = [lit ''a'']\<rparr>]"
  have "validate_no_dependency_cycle ?ts \<noteq> Inr ()" by code_simp
  moreover have "distinct (map pt_id ?ts)" by code_simp
  ultimately show ?thesis using cycle_check_exact [of ?ts] by simp
qed

text \<open>
  The planner fails closed: the exception of a rejected or failed request is a
  \<open>PlannerError\<close>, except for a cancellation, an unexpected exception of reading the response
  object, and the \<open>ValueError\<close> of an integer with more digits than Python converts.
\<close>

theorem planner_fails_closed:
  assumes "planner_plan fl pl awaited = Inl e"
  shows "exn_class e = PlannerError \<or>
    exn_class e = PyCancelledError \<and> awaited = Raised e \<or>
    awaited = Returned (Malformed e) \<and> \<not> shape_error (exn_class e) \<or>
    (\<exists>s. awaited = Returned (Response (JStr s)) \<and>
         json_loads (plain_cfg fl) s = Inl JSONValueError \<and> exn_class e = PyValueError)"
  using assms by (rule planner_plan_error)

theorem planner_fails_closed_witness:
  "\<exists>e. planner_plan sample_text sample_plan_planner (Raised (exn_of PyTimeoutError [])) = Inl e \<and>
     exn_class e = PlannerError"
proof -
  obtain e where e:
    "planner_plan sample_text sample_plan_planner (Raised (exn_of PyTimeoutError [])) = Inl e"
    by (simp add: planner_plan_def exn_of_def)
  from planner_fails_closed [OF e] have "exn_class e = PlannerError \<or> e = exn_of PyTimeoutError []"
    by auto
  then show ?thesis using e by (auto simp: planner_plan_def exn_of_def raise_from_def exn_ctx_def)
qed

end
