(* ===== verification/Reflection.thy ===== *)
theory Reflection
  imports Agent_Errors
begin

text \<open>
  \<open>runtime/reflection.py\<close>: the critic's answer format, \<open>parse_critique_result\<close> and the
  \<open>Critic\<close> around one model call.
\<close>

datatype critique_decision = Accept | Revise

fun decision_value :: "critique_decision \<Rightarrow> pystr" where
  "decision_value Accept = lit ''accept''"
| "decision_value Revise = lit ''revise''"

record critique_result =
  cr_decision :: critique_decision
  cr_feedback :: "pystr option"

definition critique_to_dict :: "critique_result \<Rightarrow> json" where
  "critique_to_dict r =
     JObj [(lit ''decision'', JStr (decision_value (cr_decision r))),
           (lit ''feedback'', case cr_feedback r of None \<Rightarrow> JNull | Some f \<Rightarrow> JStr f)]"

definition reflection_error :: "string \<Rightarrow> exn" where
  "reflection_error m = exn_of ReflectionError m"

lemma reflection_error_class [simp]: "exn_class (reflection_error m) = ReflectionError"
  by (simp add: reflection_error_def)

text \<open>The part after the decision: an acceptance has no feedback, a revision a bounded text.\<close>

definition critique_of :: "int \<Rightarrow> pystr \<Rightarrow> json \<Rightarrow> exn + critique_result" where
  "critique_of max_feedback_chars raw_decision raw_feedback =
     (if raw_decision = lit ''accept'' then
        (if raw_feedback = JNull then Inr \<lparr>cr_decision = Accept, cr_feedback = None\<rparr>
         else Inl (reflection_error ''accepted critique must not contain feedback''))
      else
        (case raw_feedback of
           JStr s \<Rightarrow>
             (if py_strip s = [] then
                Inl (reflection_error ''revision feedback must be non-empty text'')
              else if max_feedback_chars < len (py_strip s) then
                Inl (exn_ctx ReflectionError
                       ''critic feedback exceeds the configured size limit''
                       [(lit ''max_feedback_chars'', JInt max_feedback_chars)])
              else Inr \<lparr>cr_decision = Revise, cr_feedback = Some (py_strip s)\<rparr>)
         | _ \<Rightarrow> Inl (reflection_error ''revision feedback must be non-empty text'')))"

definition parse_critique_result ::
  "py_text \<Rightarrow> int \<Rightarrow> json \<Rightarrow> exn + critique_result" where
  "parse_critique_result fl max_feedback_chars content =
     (if max_feedback_chars \<le> 0 then
        Inl (exn_of PyValueError ''max_feedback_chars must be greater than 0'')
      else
        (case content of
           JStr text \<Rightarrow>
             (case json_loads (plain_cfg fl) text of
                Inl JSONDecodeError \<Rightarrow>
                  Inl (raise_from (reflection_error ''critic response content is not valid JSON'')
                         (json_decode_error fl text))
              | Inl JSONValueError \<Rightarrow>
                  Inl (exn_of PyValueError
                         ''Exceeds the limit (4300 digits) for integer string conversion'')
              | Inr (JObj raw) \<Rightarrow>
                  (if set (dict_keys raw) \<noteq> {lit ''decision'', lit ''feedback''} then
                     Inl (reflection_error
                            ''critic response must contain only decision and feedback'')
                   else
                     (case (dict_get raw (lit ''decision''), dict_get raw (lit ''feedback'')) of
                        (Some (JStr d), Some raw_feedback) \<Rightarrow>
                          (if d \<noteq> lit ''accept'' \<and> d \<noteq> lit ''revise''
                           then Inl (reflection_error ''critic decision is invalid'')
                           else critique_of max_feedback_chars d raw_feedback)
                      | _ \<Rightarrow> Inl (reflection_error ''critic decision is invalid'')))
              | Inr _ \<Rightarrow>
                  Inl (reflection_error
                         ''critic response must contain only decision and feedback''))
         | _ \<Rightarrow> Inl (reflection_error ''critic response content must be JSON text'')))"

section \<open>Critic\<close>

record critic =
  ct_timeout_s :: py_float
  ct_max_feedback_chars :: int

definition critic_init :: "py_float \<Rightarrow> int \<Rightarrow> exn + critic" where
  "critic_init timeout_s max_feedback_chars =
     (case pf_value timeout_s of
        None \<Rightarrow> Inl (exn_of PyValueError ''timeout_s must be finite'')
      | Some t \<Rightarrow>
          if t \<le> 0 then Inl (exn_of PyValueError ''timeout_s must be greater than 0'')
          else if max_feedback_chars \<le> 0 then
            Inl (exn_of PyValueError ''max_feedback_chars must be greater than 0'')
          else Inr \<lparr>ct_timeout_s = timeout_s, ct_max_feedback_chars = max_feedback_chars\<rparr>)"

definition critic_review ::
  "py_text \<Rightarrow> critic \<Rightarrow> llm_response outcome \<Rightarrow> exn + critique_result" where
  "critic_review fl ct awaited =
     (case awaited of
        Raised e \<Rightarrow>
          (if exn_class e = PyTimeoutError then
             Inl (raise_from (exn_ctx ReflectionError ''critic request timed out''
                    [(lit ''timeout_s'', JFloat (pf_text (ct_timeout_s ct)))]) e)
           else if exn_class e = PyCancelledError then Inl e
           else Inl (raise_from (reflection_error ''critic request failed'') e))
      | Returned (Malformed e) \<Rightarrow>
          (if shape_error (exn_class e)
           then Inl (raise_from (reflection_error ''critic response has an invalid shape'') e)
           else Inl e)
      | Returned (Response content) \<Rightarrow>
          parse_critique_result fl (ct_max_feedback_chars ct) content)"

section \<open>What an accepted critique satisfies\<close>

definition critique_ok :: "int \<Rightarrow> critique_result \<Rightarrow> bool" where
  "critique_ok max_feedback_chars r =
     (case (cr_decision r, cr_feedback r) of
        (Accept, None) \<Rightarrow> True
      | (Revise, Some f) \<Rightarrow> f \<noteq> [] \<and> py_strip f = f \<and> len f \<le> max_feedback_chars
      | _ \<Rightarrow> False)"

lemma critique_of_ok: "critique_of n d v = Inr r \<Longrightarrow> critique_ok n r"
  by (auto simp: critique_of_def critique_ok_def split: if_splits json.splits)

lemma critique_of_error: "critique_of n d v = Inl e \<Longrightarrow> exn_class e = ReflectionError"
  by (auto simp: critique_of_def split: if_splits json.splits)

lemma parse_critique_result_ok:
  "parse_critique_result fl n content = Inr r \<Longrightarrow> critique_ok n r"
  by (auto simp: parse_critique_result_def critique_of_ok
      split: if_splits json.splits sum.splits json_error.splits option.splits)

lemma parse_critique_result_error:
  assumes "parse_critique_result fl n content = Inl e" "0 < n"
  shows "exn_class e = ReflectionError \<or>
    (\<exists>s. content = JStr s \<and> json_loads (plain_cfg fl) s = Inl JSONValueError \<and>
         exn_class e = PyValueError)"
  using assms
  by (auto simp: parse_critique_result_def critique_of_error
      split: if_splits json.splits sum.splits json_error.splits option.splits)

lemma critic_review_ok:
  "critic_review fl ct awaited = Inr r \<Longrightarrow> critique_ok (ct_max_feedback_chars ct) r"
  by (auto simp: critic_review_def parse_critique_result_ok
      split: outcome.splits llm_response.splits if_splits)

lemma critique_ok_cases:
  assumes "critique_ok n r"
  obtains (accept) "cr_decision r = Accept" "cr_feedback r = None"
  | (revise) f where "cr_decision r = Revise" "cr_feedback r = Some f"
      "f \<noteq> []" "py_strip f = f" "len f \<le> n"
  using assms by (auto simp: critique_ok_def split: critique_decision.splits option.splits)

section \<open>Properties of the critic\<close>

definition sample_review_critic :: critic where
  "sample_review_critic =
     \<lparr>ct_timeout_s = \<lparr>pf_value = Some 30, pf_text = lit ''30.0''\<rparr>, ct_max_feedback_chars = 20\<rparr>"

lemma sample_review:
  "critic_review sample_text sample_review_critic
     (Returned (Response (JStr (lit ''{\"decision\":\"revise\",\"feedback\":\" shorter \"}'')))) =
   Inr \<lparr>cr_decision = Revise, cr_feedback = Some (lit ''shorter'')\<rparr>"
  by code_simp

text \<open>
  What a review returns is well formed: an acceptance carries no feedback, a revision carries
  stripped feedback that is not empty and within the configured bound.
\<close>

theorem review_well_formed:
  assumes "critic_review fl ct awaited = Inr r"
  shows "critique_ok (ct_max_feedback_chars ct) r"
  using assms by (rule critic_review_ok)

theorem review_well_formed_witness:
  "critique_ok 20 \<lparr>cr_decision = Revise, cr_feedback = Some (lit ''shorter'')\<rparr>"
  using review_well_formed [OF sample_review] by (simp add: sample_review_critic_def)

text \<open>
  The critic fails closed: with a positive feedback bound a response that is not a well-formed
  critique is a \<open>ReflectionError\<close>, except for an integer with more digits than Python converts.
\<close>

theorem critique_fails_closed:
  assumes "parse_critique_result fl n content = Inl e" "0 < n"
  shows "exn_class e = ReflectionError \<or>
    (\<exists>s. content = JStr s \<and> json_loads (plain_cfg fl) s = Inl JSONValueError \<and>
         exn_class e = PyValueError)"
  using assms by (rule parse_critique_result_error)

theorem critique_fails_closed_witness:
  "\<exists>e. parse_critique_result sample_text 20 JNull = Inl e \<and> exn_class e = ReflectionError"
proof -
  obtain e where e: "parse_critique_result sample_text 20 JNull = Inl e"
    by (simp add: parse_critique_result_def)
  with critique_fails_closed [OF e] show ?thesis by auto
qed

end
