(* ===== verification/Memory_Manager.thy ===== *)
theory Memory_Manager
  imports Buffer_Memory
begin

text \<open>
  \<open>memory/manager.py\<close> over \<open>memory/session_store.py\<close>: the cache of windows and the SQLite table
  behind it. The table is a list of rows in insertion order; the JSON columns are modelled by the
  values they encode; \<open>now\<close> is the clock the SQL statement reads.
\<close>

section \<open>SessionStore\<close>

record session_row =
  sr_id :: pystr
  sr_system_message :: "message option"
  sr_messages :: "message list"
  sr_updated_at :: int

type_synonym session_store = "session_row list"

text \<open>\<open>INSERT OR REPLACE\<close>: the row with the same key goes, the new one is inserted.\<close>

definition store_save ::
  "int \<Rightarrow> pystr \<Rightarrow> message option \<Rightarrow> message list \<Rightarrow> session_store \<Rightarrow> session_store" where
  "store_save now sid sys msgs st =
     filter (\<lambda>r. sr_id r \<noteq> sid) st @
     [\<lparr>sr_id = sid, sr_system_message = sys, sr_messages = msgs, sr_updated_at = now\<rparr>]"

definition store_load :: "pystr \<Rightarrow> session_store \<Rightarrow> (message option \<times> message list) option" where
  "store_load sid st =
     map_option (\<lambda>r. (sr_system_message r, sr_messages r)) (List.find (\<lambda>r. sr_id r = sid) st)"

text \<open>\<open>ORDER BY updated_at DESC\<close>; rows of the same second in table order.\<close>

definition store_list_sessions :: "session_store \<Rightarrow> pystr list" where
  "store_list_sessions st = map sr_id (sort_key (\<lambda>r. - sr_updated_at r) st)"

definition store_delete :: "pystr \<Rightarrow> session_store \<Rightarrow> session_store" where
  "store_delete sid st = filter (\<lambda>r. sr_id r \<noteq> sid) st"

definition store_wf :: "session_store \<Rightarrow> bool" where
  "store_wf st \<longleftrightarrow> distinct (map sr_id st)"

lemma find_append:
  "List.find P (xs @ ys) = (case List.find P xs of None \<Rightarrow> List.find P ys | Some x \<Rightarrow> Some x)"
  by (induction xs) auto

lemma find_filter_other:
  "List.find (\<lambda>r. sr_id r = sid) (filter (\<lambda>r. sr_id r \<noteq> sid') st) =
     (if sid = sid' then None else List.find (\<lambda>r. sr_id r = sid) st)"
  by (induction st) auto

lemma store_load_save [simp]:
  "store_load sid' (store_save now sid sys msgs st) =
     (if sid' = sid then Some (sys, msgs) else store_load sid' st)"
  by (simp add: store_load_def store_save_def find_append find_filter_other split: option.splits)

lemma store_load_delete [simp]:
  "store_load sid' (store_delete sid st) = (if sid' = sid then None else store_load sid' st)"
  by (simp add: store_load_def store_delete_def find_filter_other)

lemma distinct_ids_filter: "distinct (map sr_id st) \<Longrightarrow> distinct (map sr_id (filter P st))"
  by (induction st) auto

lemma store_wf_save: "store_wf st \<Longrightarrow> store_wf (store_save now sid sys msgs st)"
  by (auto simp: store_wf_def store_save_def distinct_ids_filter)

lemma store_wf_delete: "store_wf st \<Longrightarrow> store_wf (store_delete sid st)"
  by (auto simp: store_wf_def store_delete_def distinct_ids_filter)

section \<open>MemoryManager\<close>

record memory_manager =
  mm_store :: session_store
  mm_max_tokens :: int
  mm_cache :: "(pystr, buffer_memory) dict"

definition get_or_create ::
  "(pystr \<Rightarrow> nat) \<Rightarrow> pystr \<Rightarrow> message option \<Rightarrow> memory_manager \<Rightarrow> buffer_memory \<times> memory_manager"
where
  "get_or_create enc sid sys mm =
     (case dict_get (mm_cache mm) sid of
        Some b \<Rightarrow> (b, mm)
      | None \<Rightarrow>
          (let b = bm_new enc sys (mm_max_tokens mm)
           in (b, mm\<lparr>mm_cache := dict_set sid b (mm_cache mm)\<rparr>)))"

definition mm_save :: "int \<Rightarrow> pystr \<Rightarrow> memory_manager \<Rightarrow> exn + memory_manager" where
  "mm_save now sid mm =
     (case dict_get (mm_cache mm) sid of
        None \<Rightarrow> Inl (Exn MemoryError (lit ''Session '' @ sid @ lit '' not found'') [] None)
      | Some b \<Rightarrow>
          Inr (mm\<lparr>mm_store := store_save now sid (bm_system b) (bm_messages b) (mm_store mm)\<rparr>))"

definition rebuild ::
  "(pystr \<Rightarrow> nat) \<Rightarrow> message option \<Rightarrow> int \<Rightarrow> message list \<Rightarrow> buffer_memory" where
  "rebuild enc sys max_tokens msgs =
     foldl (\<lambda>b m. add_message enc m b) (bm_new enc sys max_tokens) msgs"

definition mm_load ::
  "(pystr \<Rightarrow> nat) \<Rightarrow> pystr \<Rightarrow> memory_manager \<Rightarrow> buffer_memory option \<times> memory_manager" where
  "mm_load enc sid mm =
     (case dict_get (mm_cache mm) sid of
        Some b \<Rightarrow> (Some b, mm)
      | None \<Rightarrow>
          (case store_load sid (mm_store mm) of
             None \<Rightarrow> (None, mm)
           | Some (sys, msgs) \<Rightarrow>
               (let b = rebuild enc sys (mm_max_tokens mm) msgs
                in (Some b, mm\<lparr>mm_cache := dict_set sid b (mm_cache mm)\<rparr>))))"

definition mm_delete_session :: "pystr \<Rightarrow> memory_manager \<Rightarrow> memory_manager" where
  "mm_delete_session sid mm =
     mm\<lparr>mm_cache := dict_pop sid (mm_cache mm), mm_store := store_delete sid (mm_store mm)\<rparr>"

definition mm_list_sessions :: "memory_manager \<Rightarrow> pystr list" where
  "mm_list_sessions mm = store_list_sessions (mm_store mm)"

text \<open>
  A restart: a new manager on the same table, which is when a saved session is read back.
\<close>

definition mm_restart :: "memory_manager \<Rightarrow> memory_manager" where
  "mm_restart mm = mm\<lparr>mm_cache := []\<rparr>"

section \<open>Replaying a settled window\<close>

definition window_of ::
  "(pystr \<Rightarrow> nat) \<Rightarrow> message option \<Rightarrow> int \<Rightarrow> message list \<Rightarrow> buffer_memory" where
  "window_of enc sys max_tokens msgs =
     \<lparr>bm_system = sys, bm_messages = msgs, bm_max_tokens = max_tokens,
      bm_total_tokens = system_tokens enc sys + sum_list (map (count_message enc) msgs)\<rparr>"

lemma window_of_exact:
  "tokens_exact enc b \<Longrightarrow> window_of enc (bm_system b) (bm_max_tokens b) (bm_messages b) = b"
  by (simp add: window_of_def tokens_exact_def)

lemma turn_block_size_snoc:
  assumes "ms \<noteq> []" "length (ms @ [m]) \<le> turn_block_size (ms @ [m]) 0"
  shows "length ms \<le> turn_block_size ms 0"
proof -
  obtain h t where ms: "ms = h # t" using assms(1) by (cases ms) auto
  with assms(2) have h: "has_calls h" by (auto simp: turn_block_size_def split: if_splits)
  with assms(2) ms have "length (t @ [m]) \<le> length (takeWhile is_tool (t @ [m]))"
    by (simp add: turn_block_size_def)
  then have "\<forall>x\<in>set t. is_tool x"
    by (metis length_append_singleton length_takeWhile_le not_less_eq_eq takeWhile_append_if)
  then have "length (takeWhile is_tool t) = length t"
    by (metis takeWhile_eq_all_conv)
  with h ms show ?thesis by (simp add: turn_block_size_def)
qed

lemma window_settled_snoc:
  assumes "window_settled (window_of enc sys n (ms @ [m]))" "0 \<le> count_message enc m"
  shows "window_settled (window_of enc sys n ms)"
proof (cases "ms = []")
  case True
  then show ?thesis by (simp add: window_settled_def window_of_def)
next
  case False
  with assms turn_block_size_snoc [of ms m] show ?thesis
    by (auto simp: window_settled_def window_of_def)
qed

lemma rebuild_window:
  assumes "\<forall>m\<in>set ms. 0 \<le> count_message enc m" "window_settled (window_of enc sys n ms)"
  shows "rebuild enc sys n ms = window_of enc sys n ms"
  using assms
proof (induction ms rule: rev_induct)
  case Nil
  then show ?case by (simp add: rebuild_def bm_new_def window_of_def)
next
  case (snoc m ms)
  then have "rebuild enc sys n ms = window_of enc sys n ms"
    using window_settled_snoc by fastforce
  then have "rebuild enc sys n (ms @ [m]) = add_message enc m (window_of enc sys n ms)"
    by (simp add: rebuild_def)
  also have "\<dots> = trim enc (window_of enc sys n (ms @ [m]))"
    by (simp add: add_message_def window_of_def add.assoc)
  also have "\<dots> = window_of enc sys n (ms @ [m])"
    using snoc.prems(2) by (rule trim_stop)
  finally show ?case .
qed

lemma mm_save_load:
  assumes "tokenizer_ok enc" "dict_get (mm_cache mm) sid = Some b"
    and "tokens_exact enc b" "window_settled b" "bm_max_tokens b = mm_max_tokens mm"
    and "\<forall>m\<in>set (bm_messages b). named_calls m"
    and "mm_save now sid mm = Inr mm'"
  shows "fst (mm_load enc sid (mm_restart mm')) = Some b"
proof -
  have w: "window_of enc (bm_system b) (mm_max_tokens mm) (bm_messages b) = b"
    using window_of_exact [OF assms(3)] assms(5) by simp
  have "\<forall>m\<in>set (bm_messages b). 0 \<le> count_message enc m"
    using count_message_pos [OF assms(1)] assms(6) by (meson order_trans zero_le_numeral)
  then have "rebuild enc (bm_system b) (mm_max_tokens mm) (bm_messages b) = b"
    using rebuild_window [of "bm_messages b" enc "bm_system b" "mm_max_tokens mm"] assms(4) w
    by simp
  moreover have "mm' = mm\<lparr>mm_store :=
      store_save now sid (bm_system b) (bm_messages b) (mm_store mm)\<rparr>"
    using assms(2,7) by (simp add: mm_save_def)
  ultimately show ?thesis
    by (simp add: mm_load_def mm_restart_def Let_def)
qed

section \<open>Properties of the manager\<close>


definition sample_manager :: memory_manager where
  "sample_manager =
     \<lparr>mm_store = [], mm_max_tokens = 40, mm_cache = [(lit ''s'', sample_window)]\<rparr>"


text \<open>
  A deleted session is gone from the cache and from the table: loading it gives nothing, and
  the next use of its identifier starts an empty window. Every other session is untouched.
\<close>

theorem deleted_session_gone:
  assumes "dict_wf (mm_cache mm)"
  shows "fst (mm_load enc sid (mm_delete_session sid mm)) = None \<and>
    fst (get_or_create enc sid sys (mm_delete_session sid mm)) = bm_new enc sys (mm_max_tokens mm) \<and>
    (\<forall>other. other \<noteq> sid \<longrightarrow>
       fst (mm_load enc other (mm_delete_session sid mm)) = fst (mm_load enc other mm))"
  using assms
  by (simp add: mm_load_def mm_delete_session_def get_or_create_def Let_def dict_get_pop
      split: option.split)

theorem deleted_session_gone_witness:
  "fst (mm_load length (lit ''s'') sample_manager) = Some sample_window \<and>
   fst (mm_load length (lit ''s'') (mm_delete_session (lit ''s'') sample_manager)) = None"
proof -
  have "dict_wf (mm_cache sample_manager)" by (simp add: sample_manager_def dict_wf_def dict_keys_def)
  with deleted_session_gone have
    "fst (mm_load length (lit ''s'') (mm_delete_session (lit ''s'') sample_manager)) = None" by blast
  then show ?thesis by (simp add: mm_load_def sample_manager_def)
qed

end
