(* ===== verification/Run_State.thy ===== *)
theory Run_State
  imports Tool_Executor Tool_Router Loop_Guard Planner Reflection Memory_Manager
begin

text \<open>
  \<open>runtime/state.py\<close>, \<open>runtime/step.py\<close>, \<open>runtime/event.py\<close>, \<open>runtime/stop_reason.py\<close> and the
  parts of \<open>runtime/runtime.py\<close> that only change the state of a run: its status, the single exit
  \<open>_terminate\<close>, the events. Durations, time stamps and log lines are left out.
\<close>

section \<open>Status and stop reason\<close>

datatype run_status =
    StPending
  | StRunning
  | StAwaitingTool
  | StFinished
  | StMaxSteps
  | StLoopDetected
  | StValidationFailed
  | StFailed
  | StCanceled
  | StReflectionLimit

fun status_value :: "run_status \<Rightarrow> pystr" where
  "status_value StPending = lit ''pending''"
| "status_value StRunning = lit ''running''"
| "status_value StAwaitingTool = lit ''awaiting_tool''"
| "status_value StFinished = lit ''finished''"
| "status_value StMaxSteps = lit ''max_steps''"
| "status_value StLoopDetected = lit ''loop_detected''"
| "status_value StValidationFailed = lit ''validation_failed''"
| "status_value StFailed = lit ''failed''"
| "status_value StCanceled = lit ''canceled''"
| "status_value StReflectionLimit = lit ''reflection_limit''"

datatype stop_reason =
    FinishNormal
  | StopMaxSteps
  | StopLoopDetected
  | StopValidationFailed
  | StopCanceled
  | StopError
  | StopReflectionLimit

fun stop_reason_value :: "stop_reason \<Rightarrow> pystr" where
  "stop_reason_value FinishNormal = lit ''finish_normal''"
| "stop_reason_value StopMaxSteps = lit ''max_steps''"
| "stop_reason_value StopLoopDetected = lit ''loop_detected''"
| "stop_reason_value StopValidationFailed = lit ''validation_failed''"
| "stop_reason_value StopCanceled = lit ''canceled''"
| "stop_reason_value StopError = lit ''error''"
| "stop_reason_value StopReflectionLimit = lit ''reflection_limit''"

definition is_terminal :: "run_status \<Rightarrow> bool" where
  "is_terminal s \<longleftrightarrow>
     s \<in> {StFinished, StFailed, StCanceled, StMaxSteps, StLoopDetected, StValidationFailed,
          StReflectionLimit}"

lemma is_terminal_simps [simp]:
  "is_terminal StFinished" "is_terminal StFailed" "is_terminal StCanceled"
  "is_terminal StMaxSteps" "is_terminal StLoopDetected" "is_terminal StValidationFailed"
  "is_terminal StReflectionLimit"
  "\<not> is_terminal StPending" "\<not> is_terminal StRunning" "\<not> is_terminal StAwaitingTool"
  by (simp_all add: is_terminal_def)

text \<open>The reason that belongs to each terminal status.\<close>

fun reason_of :: "run_status \<Rightarrow> stop_reason option" where
  "reason_of StFinished = Some FinishNormal"
| "reason_of StMaxSteps = Some StopMaxSteps"
| "reason_of StLoopDetected = Some StopLoopDetected"
| "reason_of StValidationFailed = Some StopValidationFailed"
| "reason_of StFailed = Some StopError"
| "reason_of StCanceled = Some StopCanceled"
| "reason_of StReflectionLimit = Some StopReflectionLimit"
| "reason_of _ = None"

lemma reason_of_terminal: "is_terminal s \<longleftrightarrow> reason_of s \<noteq> None"
  by (cases s) simp_all

section \<open>Messages of the model, steps and events\<close>

text \<open>
  The assistant message a step works on, typed as the chat API types it: text or none, and the
  tool calls. \<open>model_dump\<close> is the chat message that enters the memory.
\<close>

record llm_message =
  lm_content :: "pystr option"
  lm_tool_calls :: "tool_call list"

definition model_dump :: "llm_message \<Rightarrow> message" where
  "model_dump m =
     \<lparr>m_role = lit ''assistant'', m_content = lm_content m, m_name = [], m_tool_call_id = [],
      m_tool_calls = lm_tool_calls m\<rparr>"

lemma model_dump_simps [simp]:
  "m_role (model_dump m) = lit ''assistant''" "m_content (model_dump m) = lm_content m"
  "m_tool_calls (model_dump m) = lm_tool_calls m" "\<not> is_tool (model_dump m)"
  "has_calls (model_dump m) \<longleftrightarrow> lm_tool_calls m \<noteq> []"
  by (simp_all add: model_dump_def is_tool_def has_calls_def)

datatype step_kind = LlmCall | ToolExec | Critique | FinalAnswer

record run_step =
  st_index :: int
  st_kind :: step_kind
  st_input :: "(int \<times> int) option"
  st_output :: "message option"
  st_decision :: "critique_decision option"
  st_error :: "pystr option"

text \<open>
  \<open>st_input\<close> is the pair of candidate step and round a critique step records; its output is the
  decision, the output of the other steps a message.
\<close>

record route_record =
  rr_selected_tools :: "pystr list"
  rr_ranked_scores :: "tool_score list"
  rr_model_version :: pystr
  rr_threshold :: real

record critique_record =
  cq_decision :: critique_decision
  cq_round :: int
  cq_step_index :: int
  cq_candidate_step_index :: int

datatype event_type =
    RunStart | ToolRouting | LlmRequest | LlmResponse | LlmToken | LlmError | ToolResponse
  | RunFinish | RunError | PlanCreated | CritiqueCompleted

record tool_report =
  tp_name :: pystr
  tp_status :: tool_status
  tp_result :: "pystr option"
  tp_error :: "pystr option"
  tp_error_type :: "pystr option"

record terminal_report =
  tm_final :: "pystr option"
  tm_error_source :: "pystr option"
  tm_stop_reason :: "pystr option"
  tm_status :: pystr

datatype event_data =
    NoData
  | UserInput pystr
  | Token pystr
  | TokenCalls "tool_call list"
  | ModelMessage llm_message
  | RouteData route_record
  | PlanData task_plan
  | CritiqueData critique_record
  | ToolData tool_report
  | TerminalData terminal_report

record event =
  ev_type :: event_type
  ev_data :: event_data
  ev_step_index :: int

section \<open>RuntimeState\<close>

text \<open>The \<open>metadata\<close> dictionary has the three entries the runtime writes.\<close>

record run_state =
  rs_session_id :: pystr
  rs_status :: run_status
  rs_steps :: "run_step list"
  rs_messages :: "message list"
  rs_tool_call_history :: "tool_call_signature list"
  rs_step_count :: int
  rs_stop_reason :: "stop_reason option"
  rs_validation_failure_rounds :: int
  rs_tool_error_rounds :: int
  rs_error :: "exn option"
  rs_error_source :: "pystr option"
  rs_error_info :: "error_info option"
  rs_plan :: "json option"
  rs_tool_routes :: "route_record list"
  rs_critiques :: "critique_record list"
  rs_reflection_revision_rounds :: int

definition init_run_state :: "pystr \<Rightarrow> run_status \<Rightarrow> run_state" where
  "init_run_state sid status =
     \<lparr>rs_session_id = sid, rs_status = status, rs_steps = [], rs_messages = [],
      rs_tool_call_history = [], rs_step_count = 0, rs_stop_reason = None,
      rs_validation_failure_rounds = 0, rs_tool_error_rounds = 0, rs_error = None,
      rs_error_source = None, rs_error_info = None, rs_plan = None, rs_tool_routes = [],
      rs_critiques = [], rs_reflection_revision_rounds = 0\<rparr>"

text \<open>
  \<open>_terminate\<close>: without an explicit \<open>error_info\<close> an error is described by its class and text.
\<close>

definition plain_error_info :: "((pystr, json) dict \<Rightarrow> pystr) \<Rightarrow> exn \<Rightarrow> error_info" where
  "plain_error_info dict_repr e =
     \<lparr>ei_type = class_name (exn_class e), ei_message = exn_str dict_repr e, ei_context = None,
      ei_cause = None\<rparr>"

definition terminate ::
  "((pystr, json) dict \<Rightarrow> pystr) \<Rightarrow> run_status \<Rightarrow> stop_reason \<Rightarrow> exn option \<Rightarrow> error_info option \<Rightarrow>
   pystr option \<Rightarrow> run_state \<Rightarrow> run_state" where
  "terminate dict_repr status reason error error_info error_source s =
     s\<lparr>rs_status := status, rs_stop_reason := Some reason, rs_error := error,
       rs_error_source := error_source,
       rs_error_info :=
         (case error_info of
            Some i \<Rightarrow> Some i
          | None \<Rightarrow> map_option (plain_error_info dict_repr) error)\<rparr>"

lemma terminate_frame [simp]:
  "rs_status (terminate dr st r e i src s) = st"
  "rs_stop_reason (terminate dr st r e i src s) = Some r"
  "rs_error (terminate dr st r e i src s) = e"
  "rs_error_source (terminate dr st r e i src s) = src"
  "rs_step_count (terminate dr st r e i src s) = rs_step_count s"
  "rs_steps (terminate dr st r e i src s) = rs_steps s"
  "rs_session_id (terminate dr st r e i src s) = rs_session_id s"
  "rs_tool_routes (terminate dr st r e i src s) = rs_tool_routes s"
  "rs_critiques (terminate dr st r e i src s) = rs_critiques s"
  "rs_validation_failure_rounds (terminate dr st r e i src s) = rs_validation_failure_rounds s"
  "rs_tool_error_rounds (terminate dr st r e i src s) = rs_tool_error_rounds s"
  "rs_reflection_revision_rounds (terminate dr st r e i src s) = rs_reflection_revision_rounds s"
  "rs_tool_call_history (terminate dr st r e i src s) = rs_tool_call_history s"
  by (simp_all add: terminate_def)

text \<open>The two ways an error of a collaborator ends a run.\<close>

definition fail_agent ::
  "((pystr, json) dict \<Rightarrow> pystr) \<Rightarrow> string \<Rightarrow> exn \<Rightarrow> run_state \<Rightarrow> run_state" where
  "fail_agent dict_repr source e s =
     terminate dict_repr StFailed StopError (Some e) (Some (exn_to_dict dict_repr e))
       (Some (lit source)) s"

definition fail_plain ::
  "((pystr, json) dict \<Rightarrow> pystr) \<Rightarrow> string \<Rightarrow> exn \<Rightarrow> run_state \<Rightarrow> run_state" where
  "fail_plain dict_repr source e s =
     terminate dict_repr StFailed StopError (Some e) None (Some (lit source)) s"

lemma fail_frame [simp]:
  "rs_status (fail_agent dr src e s) = StFailed" "rs_status (fail_plain dr src e s) = StFailed"
  "rs_stop_reason (fail_agent dr src e s) = Some StopError"
  "rs_stop_reason (fail_plain dr src e s) = Some StopError"
  "rs_error (fail_agent dr src e s) = Some e" "rs_error (fail_plain dr src e s) = Some e"
  "rs_error_source (fail_agent dr src e s) = Some (lit src)"
  "rs_error_source (fail_plain dr src e s) = Some (lit src)"
  "rs_step_count (fail_agent dr src e s) = rs_step_count s"
  "rs_step_count (fail_plain dr src e s) = rs_step_count s"
  "rs_steps (fail_agent dr src e s) = rs_steps s" "rs_steps (fail_plain dr src e s) = rs_steps s"
  by (simp_all add: fail_agent_def fail_plain_def)

definition add_step :: "step_kind \<Rightarrow> message option \<Rightarrow> run_state \<Rightarrow> run_state" where
  "add_step kind output s =
     s\<lparr>rs_steps := rs_steps s @
         [\<lparr>st_index = rs_step_count s, st_kind = kind, st_input = None, st_output = output,
           st_decision = None, st_error = None\<rparr>],
       rs_step_count := rs_step_count s + 1\<rparr>"

definition record_critique_step ::
  "int \<Rightarrow> int \<Rightarrow> int \<Rightarrow> critique_decision option \<Rightarrow> pystr option \<Rightarrow> run_state \<Rightarrow> run_state" where
  "record_critique_step index candidate_step_index round_number decision error s =
     s\<lparr>rs_steps := rs_steps s @
         [\<lparr>st_index = index, st_kind = Critique,
           st_input = Some (candidate_step_index, round_number), st_output = None,
           st_decision = decision, st_error = error\<rparr>],
       rs_step_count := rs_step_count s + 1\<rparr>"

section \<open>The world of a run\<close>

text \<open>
  What a run reads and writes: its own state, the memory manager, the router and the events the
  handlers have been given so far. A handler that raises is logged and skipped, so the handlers
  have no effect on the run.
\<close>

record world =
  wo_state :: run_state
  wo_mm :: memory_manager
  wo_router :: embedding_router
  wo_events :: "event list"

abbreviation on_state :: "(run_state \<Rightarrow> run_state) \<Rightarrow> world \<Rightarrow> world" where
  "on_state f w \<equiv> w\<lparr>wo_state := f (wo_state w)\<rparr>"

definition emit :: "event_type \<Rightarrow> event_data \<Rightarrow> int \<Rightarrow> world \<Rightarrow> world" where
  "emit t d i w = w\<lparr>wo_events := wo_events w @ [\<lparr>ev_type = t, ev_data = d, ev_step_index = i\<rparr>]\<rparr>"

text \<open>The window of the session, and a message added to it.\<close>

definition session_memory :: "world \<Rightarrow> buffer_memory option" where
  "session_memory w = dict_get (mm_cache (wo_mm w)) (rs_session_id (wo_state w))"

definition session_messages :: "world \<Rightarrow> message list" where
  "session_messages w = (case session_memory w of None \<Rightarrow> [] | Some b \<Rightarrow> bm_messages b)"

definition remember :: "(pystr \<Rightarrow> nat) \<Rightarrow> message \<Rightarrow> world \<Rightarrow> world" where
  "remember enc m w =
     (case session_memory w of
        None \<Rightarrow> w
      | Some b \<Rightarrow>
          w\<lparr>wo_mm := (wo_mm w)\<lparr>mm_cache :=
              dict_set (rs_session_id (wo_state w)) (add_message enc m b) (mm_cache (wo_mm w))\<rparr>\<rparr>)"

definition terminal_report :: "run_state \<Rightarrow> message list \<Rightarrow> terminal_report" where
  "terminal_report s msgs =
     \<lparr>tm_final =
        (if rs_status s = StFinished \<and> msgs \<noteq> [] \<and> m_role (last msgs) = lit ''assistant''
         then m_content (last msgs) else None),
      tm_error_source = rs_error_source s,
      tm_stop_reason = map_option stop_reason_value (rs_stop_reason s),
      tm_status = status_value (rs_status s)\<rparr>"

definition emit_terminal_event :: "world \<Rightarrow> world" where
  "emit_terminal_event w =
     emit (if rs_status (wo_state w) = StFinished then RunFinish else RunError)
       (TerminalData (terminal_report (wo_state w) (session_messages w)))
       (rs_step_count (wo_state w)) w"

end
