(* ===== verification/Llm_Client.thy ===== *)
theory Llm_Client
  imports Runtime
begin

text \<open>
  \<open>llm/client.py\<close>: the model client. A request is retried while the failure is one the SDK calls
  transient; a streamed answer is put together from fragments and handed on chunk by chunk. The
  SDK (\<open>openai\<close>), the random jitter and \<open>asyncio.sleep\<close> are parameters.
\<close>

section \<open>Retrying\<close>

text \<open>
  The classes of the SDK a failure belongs to: \<open>AuthenticationError\<close>, and the tuple
  \<open>_RETRYABLE_EXCEPTIONS\<close> with their subclasses.
\<close>

record sdk_classes =
  sdk_auth :: "exc_class \<Rightarrow> bool"
  sdk_retryable :: "exc_class \<Rightarrow> bool"

definition backoff_delay :: "rat \<Rightarrow> nat \<Rightarrow> rat" where
  "backoff_delay jitter attempt = 1 * 2 ^ attempt + jitter"

datatype error_decision =
    RaiseAuth exn
  | RetryAfter rat
  | RaiseExhausted exn
  | RaiseUnexpected exn

definition decide_on_error ::
  "sdk_classes \<Rightarrow> (nat \<Rightarrow> rat) \<Rightarrow> exn \<Rightarrow> nat \<Rightarrow> int \<Rightarrow> pystr \<Rightarrow> error_decision" where
  "decide_on_error sdk jitter e attempt max_retries model =
     (if sdk_auth sdk (exn_class e) then
        RaiseAuth (exn_ctx LLMError ''LLM authentication failed - check API key''
          [(lit ''model'', JStr model)])
      else if sdk_retryable sdk (exn_class e) then
        if int attempt < max_retries then RetryAfter (backoff_delay (jitter attempt) attempt)
        else RaiseExhausted (Exn LLMError
          (lit ''LLM request failed after '' @ int_text max_retries @ lit '' retries'')
          [(lit ''model'', JStr model), (lit ''error_type'', JStr (class_name (exn_class e)))] None)
      else RaiseUnexpected (exn_ctx LLMError ''LLM call failed unexpectedly''
        [(lit ''model'', JStr model), (lit ''exception_type'', JStr (class_name (exn_class e)))]))"

text \<open>What the client is made of; \<open>lc_sleep\<close> is an exception the sleep of an attempt ends with.\<close>

record llm_client =
  lc_sdk :: sdk_classes
  lc_model :: pystr
  lc_max_retries :: int
  lc_jitter :: "nat \<Rightarrow> rat"
  lc_sleep :: "nat \<Rightarrow> exn option"

text \<open>
  The loop of \<open>chat\<close> and of \<open>_create_stream_with_retry\<close>: the attempts left, the attempt, the
  delays slept so far. \<open>None\<close> is what the function returns when the loop body never ran.
\<close>

fun retry_loop ::
  "llm_client \<Rightarrow> (nat \<Rightarrow> 'a outcome) \<Rightarrow> nat \<Rightarrow> nat \<Rightarrow> rat list \<Rightarrow> (exn + 'a option) \<times> rat list" where
  "retry_loop lc call 0 attempt slept = (Inr None, slept)"
| "retry_loop lc call (Suc left) attempt slept =
     (case call attempt of
        Returned r \<Rightarrow> (Inr (Some r), slept)
      | Raised e \<Rightarrow>
          if \<not> is_exception (exn_class e) then (Inl e, slept)
          else (case decide_on_error (lc_sdk lc) (lc_jitter lc) e attempt (lc_max_retries lc) (lc_model lc) of
              RetryAfter delay \<Rightarrow>
                (case lc_sleep lc attempt of
                   Some c \<Rightarrow> (Inl c, slept @ [delay])
                 | None \<Rightarrow> retry_loop lc call left (Suc attempt) (slept @ [delay]))
            | RaiseAuth error \<Rightarrow> (Inl (raise_from error e), slept)
            | RaiseExhausted error \<Rightarrow> (Inl (raise_from error e), slept)
            | RaiseUnexpected error \<Rightarrow> (Inl (raise_from error e), slept)))"

definition chat :: "llm_client \<Rightarrow> (nat \<Rightarrow> 'a outcome) \<Rightarrow> (exn + 'a option) \<times> rat list" where
  "chat lc call = retry_loop lc call (nat (lc_max_retries lc + 1)) 0 []"

section \<open>Streaming\<close>

text \<open>A fragment of a tool call; its \<open>function\<close> has a name and a piece of the arguments.\<close>

record call_delta =
  cd_index :: int
  cd_id :: "pystr option"
  cd_function :: "(pystr option \<times> pystr option) option"

record raw_choice =
  rc_content :: "pystr option"
  rc_tool_calls :: "call_delta list"
  rc_finish_reason :: "pystr option"

datatype raw_item = RawChunk "raw_choice list" | RawRaise exn

text \<open>\<open>if x: slot = x\<close>.\<close>

definition given :: "pystr option \<Rightarrow> pystr \<Rightarrow> pystr" where
  "given x old = (case x of None \<Rightarrow> old | Some v \<Rightarrow> if v = [] then old else v)"

definition empty_slot :: tool_call where
  "empty_slot = \<lparr>tc_id = [], tc_name = [], tc_arguments = []\<rparr>"

text \<open>One fragment; a fragment without \<open>function\<close> fails on \<open>tc.function.name\<close>.\<close>

definition merge_delta ::
  "call_delta \<Rightarrow> (int, tool_call) dict \<Rightarrow> exn + (int, tool_call) dict" where
  "merge_delta d frags =
     (let slot = (case dict_get frags (cd_index d) of Some s \<Rightarrow> s | None \<Rightarrow> empty_slot)
      in case cd_function d of
           None \<Rightarrow> Inl (Exn PyAttributeError
               ([39] @ lit ''NoneType'' @ [39] @ lit '' object has no attribute '' @ [39] @ lit ''name'' @ [39])
               [] None)
         | Some (name, arguments) \<Rightarrow>
             Inr (dict_set (cd_index d)
               \<lparr>tc_id = given (cd_id d) (tc_id slot), tc_name = given name (tc_name slot),
                tc_arguments = tc_arguments slot @ given arguments []\<rparr> frags))"

fun merge_deltas ::
  "call_delta list \<Rightarrow> (int, tool_call) dict \<Rightarrow> exn + (int, tool_call) dict" where
  "merge_deltas [] frags = Inr frags"
| "merge_deltas (d # ds) frags = rbind (merge_delta d frags) (merge_deltas ds)"

definition content_chunk :: "pystr option \<Rightarrow> stream_item list" where
  "content_chunk content =
     (case content of
        None \<Rightarrow> []
      | Some t \<Rightarrow>
          if t = [] then []
          else [Chunk \<lparr>sc_content = Some t, sc_tool_calls = [], sc_finish_reason = None\<rparr>])"

definition finish_chunk :: "(int, tool_call) dict \<Rightarrow> pystr \<Rightarrow> stream_item" where
  "finish_chunk frags reason =
     Chunk \<lparr>sc_content = None,
            sc_tool_calls = map (\<lambda>i. the (dict_get frags i)) (sort (dict_keys frags)),
            sc_finish_reason = Some reason\<rparr>"

definition stream_failure :: "pystr \<Rightarrow> exn \<Rightarrow> stream_item" where
  "stream_failure model e =
     StreamRaise
       (if is_exception (exn_class e)
        then raise_from (exn_ctx LLMError ''LLM stream failed unexpectedly''
          [(lit ''model'', JStr model), (lit ''exception_type'', JStr (class_name (exn_class e)))]) e
        else e)"

text \<open>The body of \<open>stream\<close>; \<open>return\<close> leaves the rest of the response unread.\<close>

fun stream_body :: "pystr \<Rightarrow> (int, tool_call) dict \<Rightarrow> raw_item list \<Rightarrow> stream_item list" where
  "stream_body model frags [] = []"
| "stream_body model frags (RawRaise e # items) = [stream_failure model e]"
| "stream_body model frags (RawChunk [] # items) = stream_body model frags items"
| "stream_body model frags (RawChunk (c # _) # items) =
     content_chunk (rc_content c) @
     (case merge_deltas (rc_tool_calls c) frags of
        Inl e \<Rightarrow> [stream_failure model e]
      | Inr frags' \<Rightarrow>
          (case rc_finish_reason c of
             None \<Rightarrow> stream_body model frags' items
           | Some reason \<Rightarrow> [finish_chunk frags' reason]))"

text \<open>\<open>stream\<close>: with a negative number of retries there is no response to iterate over.\<close>

definition client_stream :: "llm_client \<Rightarrow> (nat \<Rightarrow> raw_item list outcome) \<Rightarrow> stream_item list" where
  "client_stream lc call =
     (case fst (chat lc call) of
        Inl e \<Rightarrow> [StreamRaise e]
      | Inr None \<Rightarrow>
          [stream_failure (lc_model lc) (Exn PyTypeError
             ([39] @ lit ''async for'' @ [39] @
              lit '' requires an object with __aiter__ method, got NoneType'') [] None)]
      | Inr (Some items) \<Rightarrow> stream_body (lc_model lc) [] items)"


section \<open>What the loop returns\<close>

text \<open>Attempt \<open>i\<close> is passed over: it failed with a transient error and the sleep went through.\<close>

definition passed_over :: "llm_client \<Rightarrow> (nat \<Rightarrow> 'a outcome) \<Rightarrow> nat \<Rightarrow> bool" where
  "passed_over lc call i \<longleftrightarrow>
     (\<exists>e. call i = Raised e \<and> is_exception (exn_class e) \<and> \<not> sdk_auth (lc_sdk lc) (exn_class e) \<and>
          sdk_retryable (lc_sdk lc) (exn_class e)) \<and> lc_sleep lc i = None"

definition delays :: "llm_client \<Rightarrow> nat \<Rightarrow> nat \<Rightarrow> rat list" where
  "delays lc start stop = map (\<lambda>i. backoff_delay (lc_jitter lc i) i) [start..<stop]"

lemma retry_loop_skip:
  assumes "\<forall>i<k. passed_over lc call (attempt + i)" "int (attempt + k) \<le> lc_max_retries lc"
  shows "retry_loop lc call (k + left) attempt slept =
         retry_loop lc call left (attempt + k) (slept @ delays lc attempt (attempt + k))"
  using assms
proof (induction k arbitrary: attempt slept)
  case (Suc k)
  then have p: "passed_over lc call attempt" by (metis add.right_neutral zero_less_Suc)
  have "\<forall>i<k. passed_over lc call (Suc attempt + i)"
    using Suc.prems(1) by (metis Suc_less_eq add_Suc_shift)
  then have ih: "retry_loop lc call (k + left) (Suc attempt) s =
      retry_loop lc call left (Suc attempt + k) (s @ delays lc (Suc attempt) (Suc attempt + k))" for s
    using Suc.IH Suc.prems(2) by simp
  have d: "delays lc attempt (Suc (attempt + k)) =
      backoff_delay (lc_jitter lc attempt) attempt # delays lc (Suc attempt) (Suc (attempt + k))"
    by (simp add: delays_def upt_conv_Cons del: upt_Suc)
  from p Suc.prems(2) show ?case
    by (auto simp: passed_over_def decide_on_error_def ih d)
qed (simp add: delays_def)

lemma chat_skip:
  assumes "\<forall>i<k. passed_over lc call i" "int k \<le> lc_max_retries lc"
  shows "chat lc call =
         retry_loop lc call (Suc (nat (lc_max_retries lc) - k)) k (delays lc 0 k)"
proof -
  have "nat (lc_max_retries lc + 1) = k + Suc (nat (lc_max_retries lc) - k)" using assms(2) by auto
  with retry_loop_skip [of k lc call 0 "Suc (nat (lc_max_retries lc) - k)" "[]"] assms show ?thesis
    by (simp add: chat_def)
qed

text \<open>
  C31. The client tries again as long as the failures are transient and tries are left. The
  first answer is returned as it is; when the last try fails too, the caller gets an \<open>LLMError\<close>
  with that failure as its cause, and one delay was slept before every try but the first.
\<close>

theorem chat_retries:
  assumes "\<forall>i<k. passed_over lc call i" "int k \<le> lc_max_retries lc"
  shows "(\<forall>r. call k = Returned r \<longrightarrow> chat lc call = (Inr (Some r), delays lc 0 k)) \<and>
         (\<forall>e. call k = Raised e \<and> is_exception (exn_class e) \<and>
            (int k = lc_max_retries lc \<or> \<not> sdk_retryable (lc_sdk lc) (exn_class e) \<or>
             sdk_auth (lc_sdk lc) (exn_class e)) \<longrightarrow>
            (\<exists>error. chat lc call = (Inl error, delays lc 0 k) \<and> exn_class error = LLMError \<and>
               exn_cause error = Some e)) \<and>
         length (delays lc 0 k) = k"
  using assms
  by (auto simp: chat_skip decide_on_error_def raise_from_def exn_ctx_def delays_def)

text \<open>
  A client whose number of retries is negative sends nothing: \<open>chat\<close> returns \<open>None\<close>, and
  streaming fails with an \<open>LLMError\<close>.
\<close>

lemma chat_negative_retries:
  assumes "lc_max_retries lc < 0"
  shows "chat lc call = (Inr None, []) \<and>
         (\<exists>e. client_stream lc scall = [StreamRaise e] \<and> exn_class e = LLMError)"
proof -
  from assms have "nat (lc_max_retries lc + 1) = 0" by simp
  then show ?thesis
    by (simp add: client_stream_def stream_failure_def is_exception_def exn_ctx_def raise_from_def
        chat_def)
qed

section \<open>Assembling the calls\<close>

definition last_given :: "pystr option list \<Rightarrow> pystr" where
  "last_given xs = foldl (\<lambda>old x. given x old) [] xs"

definition frags_at :: "int \<Rightarrow> call_delta list \<Rightarrow> call_delta list" where
  "frags_at i ds = filter (\<lambda>d. cd_index d = i) ds"

text \<open>The call the fragments of one index describe.\<close>

definition whole_call :: "call_delta list \<Rightarrow> tool_call" where
  "whole_call ds =
     \<lparr>tc_id = last_given (map cd_id ds),
      tc_name = last_given (map (fst \<circ> the \<circ> cd_function) ds),
      tc_arguments = concat (map (\<lambda>d. given (snd (the (cd_function d))) []) ds)\<rparr>"

definition whole_calls :: "call_delta list \<Rightarrow> tool_call list" where
  "whole_calls ds =
     map (\<lambda>i. whole_call (frags_at i ds)) (sorted_list_of_set (cd_index ` set ds))"

definition frags_rel :: "call_delta list \<Rightarrow> (int, tool_call) dict \<Rightarrow> bool" where
  "frags_rel ds frags \<longleftrightarrow> dict_wf frags \<and> set (dict_keys frags) = cd_index ` set ds \<and>
     (\<forall>i \<in> cd_index ` set ds. dict_get frags i = Some (whole_call (frags_at i ds)))"

lemma whole_call_Nil: "whole_call [] = empty_slot"
  by (simp add: whole_call_def empty_slot_def last_given_def)

lemma whole_call_snoc:
  "cd_function d = Some (name, arguments) \<Longrightarrow> whole_call (ds @ [d]) =
     \<lparr>tc_id = given (cd_id d) (tc_id (whole_call ds)),
      tc_name = given name (tc_name (whole_call ds)),
      tc_arguments = tc_arguments (whole_call ds) @ given arguments []\<rparr>"
  by (simp add: whole_call_def last_given_def)

lemma frags_at_snoc:
  "frags_at i (ds @ [d]) = (if cd_index d = i then frags_at i ds @ [d] else frags_at i ds)"
  by (simp add: frags_at_def)

lemma frags_rel_get:
  assumes "frags_rel ds frags"
  shows "(case dict_get frags i of Some s \<Rightarrow> s | None \<Rightarrow> empty_slot) = whole_call (frags_at i ds)"
proof (cases "i \<in> cd_index ` set ds")
  case True
  with assms have "dict_get frags i = Some (whole_call (frags_at i ds))"
    unfolding frags_rel_def by blast
  then show ?thesis by simp
next
  case False
  then have "frags_at i ds = []" by (auto simp: frags_at_def filter_empty_conv)
  moreover from False assms have "dict_get frags i = None"
    by (auto simp: frags_rel_def dict_keys_def map_of_eq_None_iff)
  ultimately show ?thesis by (simp add: whole_call_Nil)
qed

lemma merge_delta_rel:
  assumes "frags_rel ds frags" "cd_function d \<noteq> None"
  shows "\<exists>frags'. merge_delta d frags = Inr frags' \<and> frags_rel (ds @ [d]) frags'"
proof -
  from assms(2) obtain name arguments where f: "cd_function d = Some (name, arguments)" by auto
  let ?frags = "dict_set (cd_index d) (whole_call (frags_at (cd_index d) ds @ [d])) frags"
  have "merge_delta d frags = Inr ?frags"
    by (simp add: merge_delta_def f frags_rel_get [OF assms(1)] whole_call_snoc [OF f] Let_def)
  moreover from assms(1) have "frags_rel (ds @ [d]) ?frags"
    by (auto simp: frags_rel_def dict_keys_set frags_at_snoc)
  ultimately show ?thesis by blast
qed

lemma merge_deltas_rel:
  assumes "frags_rel ds frags" "list_all (\<lambda>d. cd_function d \<noteq> None) ds'"
  shows "\<exists>frags'. merge_deltas ds' frags = Inr frags' \<and> frags_rel (ds @ ds') frags'"
  using assms
proof (induction ds' arbitrary: ds frags)
  case (Cons d ds')
  with merge_delta_rel [of ds frags d] obtain f where
    "merge_delta d frags = Inr f" "frags_rel (ds @ [d]) f" by auto
  with Cons.IH [of "ds @ [d]" f] Cons.prems show ?case by auto
qed simp

lemma finish_calls:
  assumes "frags_rel ds frags"
  shows "map (\<lambda>i. the (dict_get frags i)) (sort (dict_keys frags)) = whole_calls ds"
proof -
  have "sort (dict_keys frags) = sorted_list_of_set (cd_index ` set ds)"
    using assms sorted_list_of_set_sort_remdups [of "dict_keys frags"]
    by (simp add: frags_rel_def dict_wf_def dict_keys_def distinct_remdups_id)
  moreover have "set (sorted_list_of_set (cd_index ` set ds)) = cd_index ` set ds" by simp
  ultimately show ?thesis
    using assms by (auto simp: whole_calls_def frags_rel_def)
qed


text \<open>The choices that are looked at: the first one of every chunk that has one.\<close>

definition first_choices :: "raw_choice list list \<Rightarrow> raw_choice list" where
  "first_choices raws = concat (map (take 1) raws)"

definition well_formed_choice :: "raw_choice \<Rightarrow> bool" where
  "well_formed_choice c \<longleftrightarrow> list_all (\<lambda>d. cd_function d \<noteq> None) (rc_tool_calls c)"

definition all_deltas :: "raw_choice list \<Rightarrow> call_delta list" where
  "all_deltas cs = concat (map rc_tool_calls cs)"

definition all_text :: "raw_choice list \<Rightarrow> pystr" where
  "all_text cs = concat (map (\<lambda>c. given (rc_content c) []) cs)"

definition content_chunks :: "raw_choice list \<Rightarrow> stream_item list" where
  "content_chunks cs = concat (map (\<lambda>c. content_chunk (rc_content c)) cs)"

lemma content_chunks_simps [simp]:
  "content_chunks [] = []"
  "content_chunks (c # cs) = content_chunk (rc_content c) @ content_chunks cs"
  by (simp_all add: content_chunks_def)

lemma stream_prefix:
  assumes "frags_rel ds frags"
    "list_all (\<lambda>c. well_formed_choice c \<and> rc_finish_reason c = None) (first_choices raws)"
  shows "\<exists>frags'. frags_rel (ds @ all_deltas (first_choices raws)) frags' \<and>
     stream_body model frags (map RawChunk raws @ items) =
     content_chunks (first_choices raws) @ stream_body model frags' items"
  using assms
proof (induction raws arbitrary: ds frags)
  case Nil
  then show ?case by (auto simp: first_choices_def all_deltas_def)
next
  case (Cons raw raws)
  show ?case
  proof (cases raw)
    case Nil
    with Cons show ?thesis by (simp add: first_choices_def)
  next
    case (Cons c more)
    with Cons.prems have c: "list_all (\<lambda>d. cd_function d \<noteq> None) (rc_tool_calls c)"
        "rc_finish_reason c = None"
        "list_all (\<lambda>c. well_formed_choice c \<and> rc_finish_reason c = None) (first_choices raws)"
      by (simp_all add: first_choices_def well_formed_choice_def)
    from merge_deltas_rel [OF Cons.prems(1) c(1)] obtain f
      where f: "merge_deltas (rc_tool_calls c) frags = Inr f" "frags_rel (ds @ rc_tool_calls c) f"
      by blast
    from Cons.IH [OF f(2) c(3)] obtain f' where
        "frags_rel (ds @ rc_tool_calls c @ all_deltas (first_choices raws)) f'"
        "stream_body model f (map RawChunk raws @ items) =
         content_chunks (first_choices raws) @ stream_body model f' items"
      by auto
    with Cons f(1) c(2) show ?thesis by (auto simp: first_choices_def all_deltas_def)
  qed
qed

lemma consume_content:
  "\<exists>w'. consume_stream b parts (content_chunk content @ items) w =
        consume_stream b (parts @ given content []) items w'"
  by (cases content) (auto simp: content_chunk_def given_def Let_def)

lemma consume_contents:
  "\<exists>w'. consume_stream b parts (content_chunks cs @ items) w =
        consume_stream b (parts @ all_text cs) items w'"
proof (induction cs arbitrary: parts w)
  case (Cons c cs)
  obtain w1 where "consume_stream b parts
      (content_chunk (rc_content c) @ content_chunks cs @ items) w =
      consume_stream b (parts @ given (rc_content c) [])
        (content_chunks cs @ items) w1"
    using consume_content by blast
  with Cons.IH [of "parts @ given (rc_content c) []" w1] show ?case
    by (auto simp: all_text_def)
qed (auto simp: all_text_def)

text \<open>
  C30. What the runtime makes of a streamed answer is what the model said: however the answer is
  cut into chunks, the text is all the pieces in order, and there is one tool call for each index,
  in the order of the indices, with all its argument fragments in order.
\<close>

theorem stream_assembles:
  assumes "fst (chat lc call) =
      Inr (Some (map RawChunk raws @ RawChunk (final # others) # unread))"
    and "list_all (\<lambda>c. well_formed_choice c \<and> rc_finish_reason c = None) (first_choices raws)"
    and "well_formed_choice final" "rc_finish_reason final = Some reason"
  shows "let cs = first_choices raws @ [final]; said = all_text cs in
         fst (consume_stream b [] (client_stream lc call) w) =
         Inr (stream_message (if said = [] then None else Some said) (whole_calls (all_deltas cs)))"
proof -
  let ?cs = "first_choices raws"
  have "frags_rel [] []" by (simp add: frags_rel_def dict_keys_def)
  from stream_prefix [OF this assms(2)] obtain f where f: "frags_rel (all_deltas ?cs) f"
      "\<And>items. stream_body (lc_model lc) [] (map RawChunk raws @ RawChunk (final # others) # unread) =
       content_chunks ?cs @
         stream_body (lc_model lc) f (RawChunk (final # others) # unread)"
    by (metis append_Nil)
  from merge_deltas_rel [OF f(1), of "rc_tool_calls final"] assms(3) obtain f'
    where f': "merge_deltas (rc_tool_calls final) f = Inr f'"
      "frags_rel (all_deltas ?cs @ rc_tool_calls final) f'"
    by (auto simp: well_formed_choice_def)
  from consume_contents [of b "[]" ?cs
      "content_chunk (rc_content final) @ [finish_chunk f' reason]" w]
  obtain w1 where w1: "consume_stream b [] (client_stream lc call) w =
      consume_stream b (all_text ?cs) (content_chunk (rc_content final) @ [finish_chunk f' reason]) w1"
    using f' assms(1,4) f(2) by (auto simp: client_stream_def)
  obtain w2 where w2: "consume_stream b (all_text ?cs)
        (content_chunk (rc_content final) @ [finish_chunk f' reason]) w1 =
      consume_stream b (all_text ?cs @ given (rc_content final) []) [finish_chunk f' reason] w2"
    using consume_content by blast
  show ?thesis
    unfolding w1 w2
    by (simp add: finish_chunk_def finish_calls [OF f'(2)] all_text_def all_deltas_def Let_def)
qed

text \<open>Every exception in what the client yields is one of its own failures.\<close>

lemma stream_body_raises:
  "StreamRaise e \<in> set (stream_body model frags items) \<Longrightarrow> \<exists>c. StreamRaise e = stream_failure model c"
  by (induction model frags items rule: stream_body.induct)
    (auto simp: content_chunk_def finish_chunk_def split: option.splits sum.splits if_splits)

lemma stream_failure_class:
  "StreamRaise e = stream_failure model c \<Longrightarrow> exn_class e = LLMError \<or> \<not> is_exception (exn_class e)"
  by (auto simp: stream_failure_def)

lemma consume_stream_raises:
  "fst (consume_stream b parts items w) = Inl e \<Longrightarrow>
   exn_class e = LLMError \<or> StreamRaise e \<in> set items"
  by (induction b parts items w rule: consume_stream.induct)
    (auto simp: Let_def split: option.splits if_splits)

lemma retry_loop_raises:
  assumes "\<forall>i c. lc_sleep lc i = Some c \<longrightarrow> \<not> is_exception (exn_class c)"
  shows "fst (retry_loop lc call left attempt slept) = Inl e \<Longrightarrow>
         exn_class e = LLMError \<or> \<not> is_exception (exn_class e)"
proof (induction left arbitrary: attempt slept)
  case (Suc left)
  then show ?case using assms
    by (auto simp: decide_on_error_def exn_ctx_def raise_from_def
        split: outcome.splits option.splits if_splits)
qed simp

text \<open>
  C32. Whatever goes wrong with a streamed answer, the runtime sees an \<open>LLMError\<close>: a request that
  was never answered, a response that broke off or ended without its last chunk, a fragment that is
  not a tool call. Only a cancellation passes unchanged.
\<close>

theorem stream_fails_as_llm_error:
  assumes "\<forall>i c. lc_sleep lc i = Some c \<longrightarrow> \<not> is_exception (exn_class c)"
    and "fst (consume_stream b [] (client_stream lc call) w) = Inl e"
  shows "exn_class e = LLMError \<or> \<not> is_exception (exn_class e)"
proof -
  from consume_stream_raises [OF assms(2)] consider "exn_class e = LLMError"
    | "StreamRaise e \<in> set (client_stream lc call)" by blast
  then show ?thesis
  proof cases
    case 2
    then show ?thesis
      using retry_loop_raises [OF assms(1)] stream_failure_class stream_body_raises
      by (fastforce simp: client_stream_def chat_def split: sum.splits option.splits)
  qed simp
qed


section \<open>A sample client\<close>

text \<open>A client with one retry; the first request meets a rate limit.\<close>

definition sample_llm_client :: llm_client where
  "sample_llm_client =
     \<lparr>lc_sdk = \<lparr>sdk_auth = (\<lambda>c. c = PyException (lit ''AuthenticationError'')),
               sdk_retryable = (\<lambda>c. c \<in> PyException ` set (map lit
                 [''APITimeoutError'', ''RateLimitError'', ''APIError'', ''AuthenticationError'']))\<rparr>,
      lc_model = lit ''m'', lc_max_retries = 1, lc_jitter = (\<lambda>_. 0), lc_sleep = (\<lambda>_. None)\<rparr>"

definition rate_limited :: exn where
  "rate_limited = Exn (PyException (lit ''RateLimitError'')) (lit ''429'') [] None"

text \<open>An answer of three chunks (one of them without a choice), a last one and some more.\<close>

definition sample_raws :: "raw_choice list list" where
  "sample_raws =
     [[\<lparr>rc_content = Some (lit ''Let me ''), rc_tool_calls = [], rc_finish_reason = None\<rparr>], [],
      [\<lparr>rc_content = Some (lit ''see.''),
        rc_tool_calls =
          [\<lparr>cd_index = 1, cd_id = Some (lit ''b''), cd_function = Some (Some (lit ''add''), Some (lit ''{''))\<rparr>,
           \<lparr>cd_index = 0, cd_id = Some (lit ''a''), cd_function = Some (Some (lit ''now''), None)\<rparr>],
        rc_finish_reason = None\<rparr>]]"

definition sample_final :: raw_choice where
  "sample_final =
     \<lparr>rc_content = None,
      rc_tool_calls = [\<lparr>cd_index = 1, cd_id = None, cd_function = Some (None, Some (lit ''}''))\<rparr>],
      rc_finish_reason = Some (lit ''tool_calls'')\<rparr>"

definition sample_llm_call :: "nat \<Rightarrow> raw_item list outcome" where
  "sample_llm_call attempt =
     (if attempt = 0 then Raised rate_limited
      else Returned (map RawChunk sample_raws @ RawChunk (sample_final # []) # [RawRaise rate_limited]))"

lemma sample_passed_over: "\<forall>i<1. passed_over sample_llm_client sample_llm_call i"
  by (auto simp: passed_over_def sample_llm_call_def rate_limited_def sample_llm_client_def
      is_exception_def)

theorem chat_retries_witness:
  "chat sample_llm_client sample_llm_call =
     (Inr (Some (map RawChunk sample_raws @ RawChunk (sample_final # []) # [RawRaise rate_limited])), [1])"
proof -
  have "int 1 \<le> lc_max_retries sample_llm_client" by (simp add: sample_llm_client_def)
  from chat_retries [OF sample_passed_over this] show ?thesis
    by (simp add: sample_llm_call_def delays_def sample_llm_client_def backoff_delay_def)
qed

lemma chat_negative_retries_witness:
  "chat (sample_llm_client\<lparr>lc_max_retries := - 1\<rparr>) sample_llm_call = (Inr None, [])"
  using chat_negative_retries [of "sample_llm_client\<lparr>lc_max_retries := - 1\<rparr>" sample_llm_call
      sample_llm_call]
  by simp

theorem stream_assembles_witness:
  "\<forall>b w. fst (consume_stream b [] (client_stream sample_llm_client sample_llm_call) w) =
     Inr (stream_message (Some (lit ''Let me see.''))
       [\<lparr>tc_id = lit ''a'', tc_name = lit ''now'', tc_arguments = []\<rparr>,
        \<lparr>tc_id = lit ''b'', tc_name = lit ''add'', tc_arguments = lit ''{}''\<rparr>])"
proof (intro allI)
  fix b w
  have c: "fst (chat sample_llm_client sample_llm_call) =
      Inr (Some (map RawChunk sample_raws @ RawChunk (sample_final # []) # [RawRaise rate_limited]))"
    by code_simp
  have p: "list_all (\<lambda>c. well_formed_choice c \<and> rc_finish_reason c = None) (first_choices sample_raws)"
    "well_formed_choice sample_final" "rc_finish_reason sample_final = Some (lit ''tool_calls'')"
    by code_simp+
  have t: "all_text (first_choices sample_raws @ [sample_final]) = lit ''Let me see.''"
    "lit ''Let me see.'' \<noteq> []"
    by code_simp+
  have d: "whole_calls (all_deltas (first_choices sample_raws @ [sample_final])) =
      [\<lparr>tc_id = lit ''a'', tc_name = lit ''now'', tc_arguments = []\<rparr>,
       \<lparr>tc_id = lit ''b'', tc_name = lit ''add'', tc_arguments = lit ''{}''\<rparr>]"
    by code_simp
  from stream_assembles [OF c p, of b w] show
    "fst (consume_stream b [] (client_stream sample_llm_client sample_llm_call) w) =
     Inr (stream_message (Some (lit ''Let me see.''))
       [\<lparr>tc_id = lit ''a'', tc_name = lit ''now'', tc_arguments = []\<rparr>,
        \<lparr>tc_id = lit ''b'', tc_name = lit ''add'', tc_arguments = lit ''{}''\<rparr>])"
    by (simp add: Let_def t d)
qed

text \<open>A response that breaks off in the middle of a tool call.\<close>

theorem stream_fails_as_llm_error_witness:
  "\<forall>b w. \<exists>e.
     fst (consume_stream b [] (client_stream sample_llm_client
       (\<lambda>_. Returned (map RawChunk sample_raws @ [RawRaise rate_limited]))) w) = Inl e \<and>
     exn_class e = LLMError"
proof (intro allI)
  fix b w
  let ?call = "\<lambda>_. Returned (map RawChunk sample_raws @ [RawRaise rate_limited])"
  have s: "client_stream sample_llm_client ?call =
      [Chunk \<lparr>sc_content = Some (lit ''Let me ''), sc_tool_calls = [], sc_finish_reason = None\<rparr>,
       Chunk \<lparr>sc_content = Some (lit ''see.''), sc_tool_calls = [], sc_finish_reason = None\<rparr>,
       stream_failure (lit ''m'') rate_limited]"
    by code_simp
  then have "\<exists>e. fst (consume_stream b [] (client_stream sample_llm_client ?call) w) = Inl e \<and>
      is_exception (exn_class e)"
    by (simp add: stream_failure_def Let_def rate_limited_def is_exception_def)
  then obtain e where e: "fst (consume_stream b [] (client_stream sample_llm_client ?call) w) = Inl e"
      "is_exception (exn_class e)" by blast
  with stream_fails_as_llm_error [OF _ e(1)] show
    "\<exists>e. fst (consume_stream b [] (client_stream sample_llm_client ?call) w) = Inl e \<and>
     exn_class e = LLMError"
    by (auto simp: sample_llm_client_def)
qed

end
