(* ===== verification/Rag_Chunks.thy ===== *)
theory Rag_Chunks
  imports Agent_Errors
begin

text \<open>
  \<open>rag/chunking.py\<close> and \<open>rag/loader.py\<close>: a document becomes pages of text, and a page becomes chunks
  of a fixed size that overlap. \<open>pypdf\<close> is a parameter.
\<close>

section \<open>Slices\<close>

text \<open>\<open>xs[a:b]\<close>: a negative index counts from the end, and both are cut to the sequence.\<close>

definition py_index :: "int \<Rightarrow> int \<Rightarrow> nat" where
  "py_index n i = nat (if i < 0 then max 0 (i + n) else min i n)"

definition py_slice :: "'a list \<Rightarrow> int \<Rightarrow> int \<Rightarrow> 'a list" where
  "py_slice xs a b = take (py_index (len xs) b - py_index (len xs) a) (drop (py_index (len xs) a) xs)"

lemma py_slice_inside:
  "0 \<le> a \<Longrightarrow> a \<le> len xs \<Longrightarrow> a \<le> b \<Longrightarrow> py_slice xs a b = take (nat (b - a)) (drop (nat a) xs)"
  by (auto simp: py_slice_def py_index_def nat_diff_distrib min_def)

lemma py_slice_first: "0 \<le> b \<Longrightarrow> py_slice xs 0 b = take (nat b) xs"
  by (auto simp: py_slice_def py_index_def min_def)

section \<open>Chunks\<close>

record chunk =
  ck_id :: pystr
  ck_text :: pystr
  ck_metadata :: "(pystr, json) dict"

definition make_chunk :: "int \<Rightarrow> pystr \<Rightarrow> chunk" where
  "make_chunk index piece =
     \<lparr>ck_id = int_text index, ck_text = piece, ck_metadata = [(lit ''chunk_index'', JInt index)]\<rparr>"

text \<open>The loop; the step is positive where it is called.\<close>

function chunks_from :: "pystr \<Rightarrow> int \<Rightarrow> int \<Rightarrow> int \<Rightarrow> int \<Rightarrow> chunk list" where
  "chunks_from s chunk_size step start index =
     (if start < len s \<and> 0 < step
      then make_chunk index (py_slice s start (start + chunk_size)) #
             chunks_from s chunk_size step (start + step) (index + 1)
      else [])"
  by pat_completeness auto
termination by (relation "measure (\<lambda>(s, _, _, start, _). nat (len s - start))") auto

declare chunks_from.simps [simp del]

definition chunk_text :: "pystr \<Rightarrow> int \<Rightarrow> int \<Rightarrow> exn + chunk list" where
  "chunk_text s chunk_size overlap =
     (if chunk_size \<le> overlap then
        Inl (exn_of PyValueError ''Chunk size must be larger than overlap'')
      else if s = [] then Inr []
      else Inr (chunks_from s chunk_size (chunk_size - overlap) 0 0))"

section \<open>Pages\<close>

record page_text =
  pg_page :: int
  pg_text :: pystr

text \<open>
  What opening the file gives: the extracted text of every page, or a failure. \<open>PdfReadError\<close> is
  one class of them; whatever else \<open>PdfReader\<close> raises passes unchanged.
\<close>

datatype pdf_open = PdfPages "pystr option list" | PdfReadError exn | PdfOtherError exn

fun text_pages :: "int \<Rightarrow> pystr option list \<Rightarrow> page_text list" where
  "text_pages n [] = []"
| "text_pages n (None # ps) = text_pages (n + 1) ps"
| "text_pages n (Some t # ps) =
     (if t = [] \<or> py_strip t = [] then text_pages (n + 1) ps
      else \<lparr>pg_page = n, pg_text = t\<rparr> # text_pages (n + 1) ps)"

definition load_pdf :: "(pystr \<Rightarrow> pdf_open) \<Rightarrow> pystr \<Rightarrow> exn + page_text list" where
  "load_pdf reader path =
     (case reader path of
        PdfReadError e \<Rightarrow>
          Inl (raise_from (Exn PyValueError (lit ''Cannot read PDF: '' @ path) [] None) e)
      | PdfOtherError e \<Rightarrow> Inl e
      | PdfPages texts \<Rightarrow>
          (let pages = text_pages 1 texts
           in if pages = [] then
                Inl (Exn PyValueError (lit ''No text extracted from PDF: '' @ path) [] None)
              else Inr pages))"

section \<open>What chunking keeps\<close>

text \<open>The chunk that starts at a position, when nothing is cut off by a negative end.\<close>

lemma chunks_from_nth:
  assumes "0 < step" "0 \<le> chunk_size" "0 \<le> start"
  shows "start + int k * step < len s \<Longrightarrow>
         k < length (chunks_from s chunk_size step start index) \<and>
         chunks_from s chunk_size step start index ! k =
           make_chunk (index + int k)
             (take (nat chunk_size) (drop (nat (start + int k * step)) s))"
  using assms(3)
proof (induction k arbitrary: start index)
  case 0
  then show ?case
    using assms by (subst (1 2) chunks_from.simps) (simp add: py_slice_inside)
next
  case (Suc k)
  have e: "start + int (Suc k) * step = (start + step) + int k * step" by (simp add: distrib_right)
  have "start < len s" using Suc.prems assms(1) e by (smt (verit) mult_nonneg_nonneg of_nat_0_le_iff)
  moreover from Suc.prems e have "start + step + int k * step < len s" by simp
  with Suc.IH [of "start + step" "index + 1"] Suc.prems(2) assms(1)
  have "k < length (chunks_from s chunk_size step (start + step) (index + 1)) \<and>
      chunks_from s chunk_size step (start + step) (index + 1) ! k =
        make_chunk (index + 1 + int k) (take (nat chunk_size) (drop (nat (start + step + int k * step)) s))"
    by simp
  ultimately show ?case
    using assms(1) unfolding e by (subst (1 2) chunks_from.simps) (simp add: add.assoc)
qed

lemma chunks_from_length:
  assumes "0 < step" "k < length (chunks_from s chunk_size step start index)"
  shows "start + int k * step < len s"
  using assms(2)
proof (induction k arbitrary: start index)
  case 0
  then show ?case by (subst (asm) chunks_from.simps) (simp split: if_splits)
next
  case (Suc k)
  from Suc.prems have "k < length (chunks_from s chunk_size step (start + step) (index + 1))"
    by (subst (asm) chunks_from.simps) (simp split: if_splits)
  from Suc.IH [OF this] show ?case by (simp add: distrib_right)
qed

lemma chunks_from_empty [simp]: "chunks_from [] chunk_size step 0 index = []"
  by (subst chunks_from.simps) simp

lemma chunk_text_Inr:
  assumes "chunk_text s chunk_size overlap = Inr cs" "0 \<le> overlap"
  shows "overlap < chunk_size" "cs = chunks_from s chunk_size (chunk_size - overlap) 0 0"
  using assms by (auto simp: chunk_text_def split: if_splits)

text \<open>
  Chunk \<open>k\<close> is exactly the piece of the text from position \<open>k * (chunk_size - overlap)\<close> of
  at most \<open>chunk_size\<close> characters, numbered \<open>k\<close>; there is one for every such position inside the
  text, and none is empty.
\<close>

lemma chunk_text_pieces:
  assumes "chunk_text s chunk_size overlap = Inr cs" "0 \<le> overlap"
  shows "(\<forall>k. k < length cs \<longleftrightarrow> int k * (chunk_size - overlap) < len s) \<and>
         (\<forall>k<length cs. cs ! k = make_chunk (int k)
            (take (nat chunk_size) (drop (nat (int k * (chunk_size - overlap))) s)) \<and>
            ck_text (cs ! k) \<noteq> [])"
proof -
  note c = chunk_text_Inr [OF assms]
  have nth: "k < length cs \<and> cs ! k = make_chunk (int k)
      (take (nat chunk_size) (drop (nat (int k * (chunk_size - overlap))) s))"
    if "int k * (chunk_size - overlap) < len s" for k
    using chunks_from_nth [of "chunk_size - overlap" chunk_size 0 k s 0] that c assms(2) by simp
  have len: "int k * (chunk_size - overlap) < len s" if "k < length cs" for k
    using chunks_from_length [of "chunk_size - overlap" k s chunk_size 0 0] that c by simp
  have "ck_text (cs ! k) \<noteq> []" if "k < length cs" for k
  proof -
    have "0 \<le> int k * (chunk_size - overlap)" using c(1) by simp
    with len [OF that] have "nat (int k * (chunk_size - overlap)) < length s" by linarith
    with nth [OF len [OF that]] c(1) assms(2) show ?thesis by (simp add: make_chunk_def)
  qed
  with nth len show ?thesis by blast
qed

text \<open>
  Any stretch of the text that is at most one character longer than the overlap lies inside one
  chunk.
\<close>

lemma chunk_text_windows:
  assumes "chunk_text s chunk_size overlap = Inr cs" "0 \<le> overlap"
    and "s = before @ stretch @ behind" "stretch \<noteq> []" "len stretch \<le> overlap + 1"
  shows "\<exists>c \<in> set cs. \<exists>left right. ck_text c = left @ stretch @ right"
proof -
  note c = chunk_text_Inr [OF assms(1,2)]
  define step where "step = nat (chunk_size - overlap)"
  define k where "k = length before div step"
  have step: "0 < step" "int step = chunk_size - overlap" using c(1) by (simp_all add: step_def)
  have k: "k * step \<le> length before" "length before < k * step + step"
    using dividend_less_div_times [OF step(1), of "length before"] by (simp_all add: k_def add.commute)
  have "length before < length s" using assms(3,4) by simp
  with k(1) step(2) have "int k * (chunk_size - overlap) < len s"
    by (metis le_less_trans of_nat_less_iff of_nat_mult)
  with chunk_text_pieces [OF assms(1,2)] have kth: "k < length cs"
      "cs ! k = make_chunk (int k) (take (nat chunk_size) (drop (nat (int k * (chunk_size - overlap))) s))"
    by blast+
  have pos: "nat (int k * (chunk_size - overlap)) = k * step"
    using step(2) by (metis nat_int of_nat_mult)
  let ?left = "drop (k * step) before"
  have fits: "length ?left + length stretch \<le> nat chunk_size"
    using k step assms(5) c(1) by simp
  have "drop (k * step) s = ?left @ stretch @ behind" using assms(3) k(1) by simp
  then have "take (nat chunk_size) (drop (k * step) s) =
      ?left @ stretch @ take (nat chunk_size - length ?left - length stretch) behind"
    using fits by simp
  then have "ck_text (cs ! k) =
      ?left @ stretch @ take (nat chunk_size - length ?left - length stretch) behind"
    by (simp add: kth(2) pos make_chunk_def)
  then show ?thesis using kth(1) nth_mem by blast
qed

text \<open>A text of eight characters in chunks of four.\<close>

lemma sample_chunks:
  "chunk_text (lit ''abcdefgh'') 4 1 =
     Inr [make_chunk 0 (lit ''abcd''), make_chunk 1 (lit ''defg''), make_chunk 2 (lit ''gh'')]"
  by code_simp

lemma chunk_text_pieces_witness:
  "\<forall>k. k < length [make_chunk 0 (lit ''abcd''), make_chunk 1 (lit ''defg''), make_chunk 2 (lit ''gh'')] \<longleftrightarrow>
     int k * (4 - 1) < len (lit ''abcdefgh'')"
  by (rule chunk_text_pieces [OF sample_chunks, THEN conjunct1]) simp

lemma chunk_text_windows_witness:
  "\<exists>c \<in> set [make_chunk 0 (lit ''abcd''), make_chunk 1 (lit ''defg''), make_chunk 2 (lit ''gh'')].
     \<exists>left right. ck_text c = left @ lit ''fg'' @ right"
  using chunk_text_windows [OF sample_chunks, of "lit ''abcde''" "lit ''fg''" "lit ''h''"]
  by (simp add: lit_def)

text \<open>
  The overlap does not keep every sentence whole: one that is shorter than a chunk but longer
  than the overlap plus one may be in no chunk.
\<close>

lemma chunking_splits_sentences:
  "\<exists>cs. chunk_text (lit ''abcdefgh'') 4 1 = Inr cs \<and> len (lit ''cde'') \<le> 4 \<and>
     (\<forall>c \<in> set cs. \<not> (\<exists>left right. ck_text c = left @ lit ''cde'' @ right))"
proof -
  have "\<not> (\<exists>left right. x = left @ [99, 100, 101] @ right)"
    if "x = [97, 98, 99, 100] \<or> x = [100, 101, 102, 103] \<or> x = [103, 104]" for x :: pystr
  proof
    assume "\<exists>left right. x = left @ [99, 100, 101] @ right"
    then obtain left right where "x = left @ [99, 100, 101] @ right" by blast
    moreover from that have "length x \<le> 4" by auto
    ultimately show False using that by (cases left; cases "tl left") auto
  qed
  then show ?thesis unfolding sample_chunks by (simp add: make_chunk_def lit_def)
qed

section \<open>Page numbers\<close>

lemma text_pages_above: "p \<in> set (text_pages n ps) \<Longrightarrow> n \<le> pg_page p"
  by (induction n ps rule: text_pages.induct) (auto split: if_splits)

lemma text_pages_increase: "sorted_wrt (\<lambda>p q. pg_page p < pg_page q) (text_pages n ps)"
  by (induction n ps rule: text_pages.induct) (force dest: text_pages_above)+

lemma text_pages_not_blank: "p \<in> set (text_pages n ps) \<Longrightarrow> pg_text p \<noteq> [] \<and> py_strip (pg_text p) \<noteq> []"
  by (induction n ps rule: text_pages.induct) (auto split: if_splits)

lemma load_pdf_pages:
  assumes "load_pdf reader path = Inr pages"
  shows "pages \<noteq> []" "distinct (map pg_page pages)" "\<forall>p \<in> set pages. 1 \<le> pg_page p \<and> pg_text p \<noteq> []"
proof -
  from assms obtain ps where p: "pages = text_pages 1 ps" "pages \<noteq> []"
    by (auto simp: load_pdf_def Let_def split: pdf_open.splits if_splits)
  then show "pages \<noteq> []" "\<forall>p \<in> set pages. 1 \<le> pg_page p \<and> pg_text p \<noteq> []"
    using text_pages_above text_pages_not_blank by blast+
  from text_pages_increase [of 1 ps] have "sorted_wrt (<) (map pg_page pages)"
    by (simp add: p(1) sorted_wrt_map)
  then show "distinct (map pg_page pages)" by (simp add: strict_sorted_iff)
qed

end
