(* ===== verification/Rag_Hybrid.thy ===== *)
theory Rag_Hybrid
  imports Rag_Chunks
begin

text \<open>
  \<open>rag/hybrid.py\<close>: the keyword index (BM25) and the fusion of two rankings by reciprocal rank.
  Floats are real numbers, so rounding is not modelled.
\<close>

section \<open>Tokens\<close>

definition is_alnum :: "int \<Rightarrow> bool" where
  "is_alnum c \<longleftrightarrow> (65 \<le> c \<and> c \<le> 90) \<or> (97 \<le> c \<and> c \<le> 122) \<or> (48 \<le> c \<and> c \<le> 57)"

definition is_cjk :: "int \<Rightarrow> bool" where
  "is_cjk c \<longleftrightarrow> 0x4e00 \<le> c \<and> c \<le> 0x9fff"

text \<open>The pairs of neighbours of a run: none for a run of one character.\<close>

fun bigrams :: "pystr \<Rightarrow> pystr list" where
  "bigrams (a # b # cs) = [a, b] # bigrams (b # cs)"
| "bigrams _ = []"

text \<open>\<open>re.finditer\<close> with the two alternatives: maximal runs from left to right.\<close>

function tokenize :: "pystr \<Rightarrow> pystr list" where
  "tokenize [] = []"
| "tokenize (c # cs) =
     (if is_alnum c then
        takeWhile is_alnum (c # cs) # tokenize (dropWhile is_alnum cs)
      else if is_cjk c then
        bigrams (takeWhile is_cjk (c # cs)) @ tokenize (dropWhile is_cjk cs)
      else tokenize cs)"
  by pat_completeness auto
termination
  by (relation "measure length") (auto simp: le_imp_less_Suc length_dropWhile_le)

section \<open>Counting\<close>

text \<open>\<open>Counter(tokens)\<close>.\<close>

definition counter :: "pystr list \<Rightarrow> (pystr, int) dict" where
  "counter ts =
     foldl (\<lambda>d t. dict_set t ((case dict_get d t of None \<Rightarrow> 0 | Some n \<Rightarrow> n) + 1) d) [] ts"

definition freq_of :: "(pystr, int) dict \<Rightarrow> pystr \<Rightarrow> int" where
  "freq_of tf t = (case dict_get tf t of None \<Rightarrow> 0 | Some n \<Rightarrow> n)"

lemma counter_snoc:
  "counter (ts @ [t]) = dict_set t (freq_of (counter ts) t + 1) (counter ts)"
  by (simp add: counter_def freq_of_def)

lemma freq_of_counter: "freq_of (counter ts) t = int (count_list ts t)"
  by (induction ts rule: rev_induct) (auto simp: counter_snoc freq_of_def counter_def)

lemma counter_has: "dict_has (counter ts) t \<longleftrightarrow> t \<in> set ts"
  by (induction ts rule: rev_induct) (auto simp: counter_snoc dict_has_def counter_def)

section \<open>The keyword index\<close>

record search_hit =
  sh_id :: pystr
  sh_score :: real
  sh_metadata :: "(pystr, json) dict"

record bm25_index =
  bm_docs :: "(pystr, pystr) dict"
  bm_term_freqs :: "(pystr, (pystr, int) dict) dict"
  bm_doc_lengths :: "(pystr, int) dict"
  bm_metadata :: "(pystr, (pystr, json) dict) dict"

definition bm25_new :: bm25_index where
  "bm25_new = \<lparr>bm_docs = [], bm_term_freqs = [], bm_doc_lengths = [], bm_metadata = []\<rparr>"

text \<open>\<open>{**(metadata or {}), "text": text}\<close>.\<close>

definition with_text :: "(pystr, json) dict option \<Rightarrow> pystr \<Rightarrow> (pystr, json) dict" where
  "with_text metadata s =
     dict_set (lit ''text'') (JStr s) (case metadata of None \<Rightarrow> [] | Some m \<Rightarrow> m)"

definition bm25_add ::
  "pystr \<Rightarrow> pystr \<Rightarrow> (pystr, json) dict option \<Rightarrow> bm25_index \<Rightarrow> bm25_index" where
  "bm25_add doc_id s metadata ix =
     \<lparr>bm_docs = dict_set doc_id s (bm_docs ix),
      bm_term_freqs = dict_set doc_id (counter (tokenize s)) (bm_term_freqs ix),
      bm_doc_lengths = dict_set doc_id (len (tokenize s)) (bm_doc_lengths ix),
      bm_metadata = dict_set doc_id (with_text metadata s) (bm_metadata ix)\<rparr>"

definition bm25_pop :: "pystr \<Rightarrow> bm25_index \<Rightarrow> bm25_index" where
  "bm25_pop doc_id ix =
     \<lparr>bm_docs = dict_pop doc_id (bm_docs ix), bm_term_freqs = dict_pop doc_id (bm_term_freqs ix),
      bm_doc_lengths = dict_pop doc_id (bm_doc_lengths ix),
      bm_metadata = dict_pop doc_id (bm_metadata ix)\<rparr>"

definition bm25_delete :: "pystr list \<Rightarrow> bm25_index \<Rightarrow> bm25_index" where
  "bm25_delete ids ix = foldl (\<lambda>i d. bm25_pop d i) ix ids"

definition zero_division :: exn where
  "zero_division = exn_of (PyException (lit ''ZeroDivisionError'')) ''float division by zero''"

definition missing_key :: "pystr \<Rightarrow> exn" where
  "missing_key k = Exn PyKeyError k [] None"

text \<open>\<open>a / b\<close>.\<close>

definition py_div :: "real \<Rightarrow> real \<Rightarrow> exn + real" where
  "py_div a b = (if b = 0 then Inl zero_division else Inr (a / b))"

definition doc_frequency :: "bm25_index \<Rightarrow> pystr \<Rightarrow> int" where
  "doc_frequency ix token =
     len (filter (\<lambda>(_, tf). dict_has tf token) (bm_term_freqs ix))"

definition idf :: "int \<Rightarrow> int \<Rightarrow> real" where
  "idf n df = ln ((real_of_int n - real_of_int df + 1/2) / (real_of_int df + 1/2) + 1)"

text \<open>What one token of the query adds; the frequency is positive.\<close>

definition token_score :: "bm25_index \<Rightarrow> int \<Rightarrow> real \<Rightarrow> int \<Rightarrow> pystr \<Rightarrow> int \<Rightarrow> exn + real" where
  "token_score ix n avgdl doc_length token freq =
     rbind (py_div (3/4 * real_of_int doc_length) avgdl) (\<lambda>r.
       py_div (idf n (doc_frequency ix token) * (real_of_int freq * (3/2 + 1)))
         (real_of_int freq + 3/2 * (1 - 3/4 + r)))"

fun doc_score ::
  "bm25_index \<Rightarrow> int \<Rightarrow> real \<Rightarrow> int \<Rightarrow> (pystr, int) dict \<Rightarrow> pystr list \<Rightarrow> real \<Rightarrow> exn + real" where
  "doc_score ix n avgdl doc_length tf [] score = Inr score"
| "doc_score ix n avgdl doc_length tf (token # tokens) score =
     (if freq_of tf token = 0 then doc_score ix n avgdl doc_length tf tokens score
      else rbind (token_score ix n avgdl doc_length token (freq_of tf token)) (\<lambda>s.
        doc_score ix n avgdl doc_length tf tokens (score + s)))"

text \<open>The loop over the documents: only those with a score other than zero are kept.\<close>

fun score_docs ::
  "bm25_index \<Rightarrow> int \<Rightarrow> real \<Rightarrow> pystr list \<Rightarrow> (pystr, (pystr, int) dict) dict \<Rightarrow>
   exn + (pystr \<times> real) list" where
  "score_docs ix n avgdl tokens [] = Inr []"
| "score_docs ix n avgdl tokens ((doc_id, tf) # docs) =
     (case dict_get (bm_doc_lengths ix) doc_id of
        None \<Rightarrow> Inl (missing_key doc_id)
      | Some doc_length \<Rightarrow>
          rbind (doc_score ix n avgdl doc_length tf tokens 0) (\<lambda>score.
            rmap (\<lambda>r. if score = 0 then r else (doc_id, score) # r)
              (score_docs ix n avgdl tokens docs)))"

text \<open>\<open>sorted(items, key=score, reverse=True)\<close>: equal scores stay in order.\<close>

definition ranked :: "('a \<Rightarrow> real) \<Rightarrow> 'a list \<Rightarrow> 'a list" where
  "ranked score xs = sort_key (\<lambda>x. - score x) xs"

definition make_hit ::
  "(pystr, (pystr, json) dict) dict \<Rightarrow> pystr \<times> real \<Rightarrow> exn + search_hit" where
  "make_hit metadata p =
     (case dict_get metadata (fst p) of
        None \<Rightarrow> Inl (missing_key (fst p))
      | Some m \<Rightarrow> Inr \<lparr>sh_id = fst p, sh_score = snd p, sh_metadata = m\<rparr>)"

definition bm25_search :: "bm25_index \<Rightarrow> pystr \<Rightarrow> int \<Rightarrow> exn + search_hit list" where
  "bm25_search ix query top_k =
     (if bm_docs ix = [] then Inr []
      else let query_tokens = tokenize query;
               n = len (bm_docs ix);
               avgdl = real_of_int (sum_list (map snd (bm_doc_lengths ix))) / real_of_int n
           in rbind (score_docs ix n avgdl query_tokens (bm_term_freqs ix)) (\<lambda>scores.
                rmap_list (make_hit (bm_metadata ix)) (py_slice (ranked snd scores) 0 top_k)))"

section \<open>The state of the index\<close>

lemma update_map_val:
  "dict_set k (f v) (map (\<lambda>(k, v). (k, f v)) d) = map (\<lambda>(k, v). (k, f v)) (dict_set k v d)"
  by (induction d) auto

lemma delete_map_val:
  "dict_pop k (map (\<lambda>(k, v). (k, f v)) d) = map (\<lambda>(k, v). (k, f v)) (dict_pop k d)"
  by (induction d) (auto simp: AList.delete_eq)

text \<open>The metadata of a document carry its text.\<close>

definition described :: "pystr option \<Rightarrow> (pystr, json) dict option \<Rightarrow> bool" where
  "described s m \<longleftrightarrow>
     (case s of None \<Rightarrow> m = None
      | Some t \<Rightarrow> \<exists>d. m = Some d \<and> dict_get d (lit ''text'') = Some (JStr t))"

lemma described_simps [simp]:
  "described None m \<longleftrightarrow> m = None"
  "described (Some t) (Some d) \<longleftrightarrow> dict_get d (lit ''text'') = Some (JStr t)"
  by (simp_all add: described_def)

text \<open>The four dictionaries describe the same documents.\<close>

definition bm25_ok :: "bm25_index \<Rightarrow> bool" where
  "bm25_ok ix \<longleftrightarrow>
     dict_wf (bm_docs ix) \<and>
     bm_term_freqs ix = map (\<lambda>(i, s). (i, counter (tokenize s))) (bm_docs ix) \<and>
     bm_doc_lengths ix = map (\<lambda>(i, s). (i, len (tokenize s))) (bm_docs ix) \<and>
     (\<forall>i. described (dict_get (bm_docs ix) i) (dict_get (bm_metadata ix) i))"

lemma bm25_ok_new: "bm25_ok bm25_new"
  by (simp add: bm25_ok_def bm25_new_def)

lemma bm25_ok_add: "bm25_ok ix \<Longrightarrow> bm25_ok (bm25_add i s m ix)"
  by (simp add: bm25_ok_def bm25_add_def update_map_val [of i "\<lambda>s. counter (tokenize s)"]
      update_map_val [of i "\<lambda>s. len (tokenize s)"] with_text_def)

lemma bm25_ok_pop: "bm25_ok ix \<Longrightarrow> bm25_ok (bm25_pop i ix)"
  by (simp add: bm25_ok_def bm25_pop_def delete_map_val [of i "\<lambda>s. counter (tokenize s)"]
      delete_map_val [of i "\<lambda>s. len (tokenize s)"])

lemma bm25_ok_delete: "bm25_ok ix \<Longrightarrow> bm25_ok (bm25_delete ids ix)"
  unfolding bm25_delete_def by (induction ids arbitrary: ix) (auto intro: bm25_ok_pop)

lemma bm25_delete_docs:
  "dict_get (bm_docs (bm25_delete ids ix)) i = (if i \<in> set ids then None else dict_get (bm_docs ix) i)"
  unfolding bm25_delete_def by (induction ids arbitrary: ix) (auto simp: bm25_pop_def)

section \<open>Scores\<close>

definition matches :: "pystr \<Rightarrow> pystr \<Rightarrow> bool" where
  "matches query s \<longleftrightarrow> set (tokenize query) \<inter> set (tokenize s) \<noteq> {}"

lemma idf_pos: "0 \<le> df \<Longrightarrow> df \<le> n \<Longrightarrow> 0 < idf n df"
  by (simp add: idf_def field_simps ln_gt_zero)

lemma doc_frequency_le: "0 \<le> doc_frequency ix t" "doc_frequency ix t \<le> len (bm_term_freqs ix)"
  by (simp_all add: doc_frequency_def)

lemma token_score_pos:
  assumes "n = len (bm_term_freqs ix)" "0 < avgdl" "0 < freq" "0 \<le> doc_length"
  shows "\<exists>x. token_score ix n avgdl doc_length t freq = Inr x \<and> 0 < x"
proof -
  have i: "0 < idf n (doc_frequency ix t)" using assms(1) doc_frequency_le by (simp add: idf_pos)
  have "0 \<le> 3/4 * real_of_int doc_length / avgdl" using assms(2,4) by simp
  moreover have "0 < real_of_int f + 3/2 * (1 - 3/4 + r)" if "0 < f" "0 \<le> r" for f and r :: real
    using that by (intro add_pos_nonneg) simp_all
  ultimately have d: "0 < real_of_int freq + 3/2 * (1 - 3/4 + 3/4 * real_of_int doc_length / avgdl)"
    using assms(3) by blast
  let ?den = "real_of_int freq + 3/2 * (1 - 3/4 + 3/4 * real_of_int doc_length / avgdl)"
  let ?num = "idf n (doc_frequency ix t) * (real_of_int freq * (3/2 + 1))"
  from assms(2) d have nz: "avgdl \<noteq> 0" "?den \<noteq> 0" by simp_all
  have "token_score ix n avgdl doc_length t freq = Inr (?num / ?den)"
    by (simp only: token_score_def py_div_def nz rbind_simps if_False)
  moreover have "0 < ?num" using i assms(3) by simp
  ultimately show ?thesis using d divide_pos_pos by blast
qed

lemma doc_score_pos:
  assumes "n = len (bm_term_freqs ix)" "set (tokenize s) \<noteq> {} \<longrightarrow> 0 < avgdl"
  shows "\<exists>r. doc_score ix n avgdl (len (tokenize s)) (counter (tokenize s)) ts score = Inr r \<and>
     score \<le> r \<and> (r = score \<longleftrightarrow> set ts \<inter> set (tokenize s) = {})"
proof (induction ts arbitrary: score)
  case (Cons t ts)
  show ?case
  proof (cases "t \<in> set (tokenize s)")
    case False
    then show ?thesis using Cons.IH [of score] by (simp add: freq_of_counter)
  next
    case True
    then have "0 < freq_of (counter (tokenize s)) t" 
      using count_list_0_iff [of "tokenize s" t] by (simp add: freq_of_counter del: count_list_0_iff)
    moreover from True assms(2) have "0 < avgdl" by auto
    ultimately obtain x where x: "token_score ix n avgdl (len (tokenize s)) t
        (freq_of (counter (tokenize s)) t) = Inr x" "0 < x"
      using token_score_pos [OF assms(1), of avgdl] by (metis of_nat_0_le_iff)
    with Cons.IH [of "score + x"] True \<open>0 < freq_of (counter (tokenize s)) t\<close> show ?thesis by auto
  qed
qed simp

lemma score_docs_ok:
  assumes "n = len (bm_term_freqs ix)"
    and "\<forall>(i, s) \<in> set D. dict_get (bm_doc_lengths ix) i = Some (len (tokenize s)) \<and>
           (set (tokenize s) \<noteq> {} \<longrightarrow> 0 < avgdl)"
  shows "\<exists>r. score_docs ix n avgdl (tokenize query) (map (\<lambda>(i, s). (i, counter (tokenize s))) D) = Inr r \<and>
     map fst r = map fst (filter (\<lambda>(i, s). matches query s) D) \<and> (\<forall>p \<in> set r. 0 < snd p)"
  using assms(2)
proof (induction D)
  case (Cons d D)
  obtain i s where d: "d = (i, s)" by force
  from Cons obtain r where r: "score_docs ix n avgdl (tokenize query)
        (map (\<lambda>(i, s). (i, counter (tokenize s))) D) = Inr r"
      "map fst r = map fst (filter (\<lambda>(i, s). matches query s) D)" "\<forall>p \<in> set r. 0 < snd p" by auto
  from Cons.prems d doc_score_pos [OF assms(1), of s avgdl "tokenize query" 0] obtain x where
      "doc_score ix n avgdl (len (tokenize s)) (counter (tokenize s)) (tokenize query) 0 = Inr x"
      "0 \<le> x" "x = 0 \<longleftrightarrow> \<not> matches query s" by (auto simp: matches_def)
  with Cons.prems r d show ?case by auto
qed simp


section \<open>Searching\<close>

lemma ranked_props:
  "set (ranked f xs) = set xs" "length (ranked f xs) = length xs"
  "distinct (map g (ranked f xs)) = distinct (map g xs)"
  "sorted_wrt (\<lambda>x y. f y \<le> f x) (ranked f xs)"
proof -
  have "mset (map g (ranked f xs)) = mset (map g xs)" by (simp add: ranked_def)
  then show "distinct (map g (ranked f xs)) = distinct (map g xs)" by (rule mset_eq_imp_distinct_iff)
  have "sorted (map (\<lambda>x. - f x) (ranked f xs))" by (simp add: ranked_def)
  then show "sorted_wrt (\<lambda>x y. f y \<le> f x) (ranked f xs)" by (simp add: sorted_wrt_map)
qed (simp_all add: ranked_def)

lemma avgdl_pos:
  assumes "(i, s) \<in> set D" "set (tokenize s) \<noteq> {}"
  shows "0 < real_of_int (sum_list (map snd (map (\<lambda>(i, s). (i, len (tokenize s))) D))) / real_of_int (len D)"
proof -
  from assms(1) have "len (tokenize s) \<in> set (map snd (map (\<lambda>(i, s). (i, len (tokenize s))) D))" by force
  moreover have "\<forall>x \<in> set (map snd (map (\<lambda>(i, s). (i, len (tokenize s))) D)). 0 \<le> x" by auto
  ultimately have "len (tokenize s) \<le> sum_list (map snd (map (\<lambda>(i, s). (i, len (tokenize s))) D))"
    by (metis member_le_sum_list sum_list_nonneg)
  moreover have "0 < len (tokenize s)" using assms(2) by simp
  ultimately have "0 < sum_list (map snd (map (\<lambda>(i, s). (i, len (tokenize s))) D))" by linarith
  moreover have "0 < len D" using assms(1) by (cases D) auto
  ultimately show ?thesis by (intro divide_pos_pos) simp_all
qed

lemma make_hits:
  assumes "\<forall>p \<in> set ps. \<exists>m. dict_get md (fst p) = Some m"
  shows "rmap_list (make_hit md) ps =
     Inr (map (\<lambda>p. \<lparr>sh_id = fst p, sh_score = snd p, sh_metadata = the (dict_get md (fst p))\<rparr>) ps)"
  using assms by (induction ps) (auto simp: make_hit_def)

lemma bm25_search_finds:
  assumes "bm25_ok ix" "0 \<le> top_k"
  shows "\<exists>hits. bm25_search ix query top_k = Inr hits \<and>
     (\<forall>h \<in> set hits. 0 < sh_score h \<and>
        (\<exists>s. dict_get (bm_docs ix) (sh_id h) = Some s \<and> matches query s \<and>
             dict_get (sh_metadata h) (lit ''text'') = Some (JStr s))) \<and>
     distinct (map sh_id hits) \<and> sorted_wrt (\<lambda>x y. sh_score y \<le> sh_score x) hits \<and>
     length hits = min (nat top_k) (length (filter (\<lambda>(i, s). matches query s) (bm_docs ix)))"
proof (cases "bm_docs ix = []")
  case True
  then show ?thesis by (simp add: bm25_search_def)
next
  case False
  let ?D = "bm_docs ix" and ?n = "len (bm_docs ix)"
  let ?avgdl = "real_of_int (sum_list (map snd (bm_doc_lengths ix))) / real_of_int ?n"
  from assms(1) have wf: "dict_wf ?D" and tf: "bm_term_freqs ix = map (\<lambda>(i, s). (i, counter (tokenize s))) ?D"
    and dl: "bm_doc_lengths ix = map (\<lambda>(i, s). (i, len (tokenize s))) ?D"
    and md: "\<forall>i. described (dict_get ?D i) (dict_get (bm_metadata ix) i)"
    by (simp_all add: bm25_ok_def)
  have get: "dict_get ?D i = Some s" if "(i, s) \<in> set ?D" for i s
    using wf that by (simp add: dict_wf_def)
  have n: "?n = len (bm_term_freqs ix)" by (simp add: tf)
  have "\<forall>(i, s) \<in> set ?D. dict_get (bm_doc_lengths ix) i = Some (len (tokenize s)) \<and>
      (set (tokenize s) \<noteq> {} \<longrightarrow> 0 < ?avgdl)"
    using get avgdl_pos [where D = ?D] by (fastforce simp: dl map_of_map)
  from score_docs_ok [OF n this, of query] obtain r where r:
      "score_docs ix ?n ?avgdl (tokenize query) (bm_term_freqs ix) = Inr r"
      "map fst r = map fst (filter (\<lambda>(i, s). matches query s) ?D)" "\<forall>p \<in> set r. 0 < snd p"
    by (auto simp: tf)
  have found: "\<exists>s m. dict_get ?D (fst p) = Some s \<and> matches query s \<and>
      dict_get (bm_metadata ix) (fst p) = Some m \<and> dict_get m (lit ''text'') = Some (JStr s)"
    if p: "p \<in> set r" for p
  proof -
    from p r(2) have "fst p \<in> set (map fst (filter (\<lambda>(i, s). matches query s) ?D))"
      by (metis image_eqI list.set_map)
    then obtain s where s: "(fst p, s) \<in> set ?D" "matches query s" by auto
    with get have "dict_get ?D (fst p) = Some s" by blast
    moreover from this md have "described (Some s) (dict_get (bm_metadata ix) (fst p))" by metis
    ultimately show ?thesis using s(2) by (auto simp: described_def)
  qed
  let ?ps = "take (nat top_k) (ranked snd r)"
  let ?hit = "\<lambda>p. \<lparr>sh_id = fst p, sh_score = snd p, sh_metadata = the (dict_get (bm_metadata ix) (fst p))\<rparr>"
  have ps: "set ?ps \<subseteq> set r" using set_take_subset by (metis ranked_props(1))
  with found have "rmap_list (make_hit (bm_metadata ix)) ?ps = Inr (map ?hit ?ps)"
    by (intro make_hits) blast
  with r(1) False assms(2) have s: "bm25_search ix query top_k = Inr (map ?hit ?ps)"
    by (simp add: bm25_search_def Let_def py_slice_first)
  moreover have "\<forall>h \<in> set (map ?hit ?ps). 0 < sh_score h \<and>
      (\<exists>s. dict_get ?D (sh_id h) = Some s \<and> matches query s \<and>
           dict_get (sh_metadata h) (lit ''text'') = Some (JStr s))"
    using ps r(3) found by fastforce
  moreover have "distinct (map sh_id (map ?hit ?ps))"
  proof -
    have "distinct (map fst r)"
      using wf by (simp add: r(2) dict_wf_def distinct_map_filter)
    then have "distinct (map fst (ranked snd r))" by (simp add: ranked_props)
    then have "distinct (map fst ?ps)" by (simp add: distinct_take flip: take_map)
    then show ?thesis by (simp add: comp_def)
  qed
  moreover have "sorted_wrt (\<lambda>x y. sh_score y \<le> sh_score x) (map ?hit ?ps)"
    using ranked_props(4) [of snd r] by (simp add: sorted_wrt_map sorted_wrt_take)
  moreover have "length (map ?hit ?ps) = min (nat top_k) (length (filter (\<lambda>(i, s). matches query s) ?D))"
    using arg_cong [OF r(2), of length] by (simp add: ranked_props)
  ultimately show ?thesis by blast
qed


section \<open>Fusing two rankings\<close>

text \<open>A loop over one ranking; a rank that makes the denominator zero raises.\<close>

fun add_ranks ::
  "int \<Rightarrow> int \<Rightarrow> search_hit list \<Rightarrow> (pystr, real) dict \<Rightarrow> exn + (pystr, real) dict" where
  "add_ranks k rank [] scores = Inr scores"
| "add_ranks k rank (h # hits) scores =
     rbind (py_div 1 (real_of_int (k + rank + 1))) (\<lambda>score.
       add_ranks k (rank + 1) hits
         (dict_set (sh_id h)
           ((case dict_get scores (sh_id h) of None \<Rightarrow> 0 | Some x \<Rightarrow> x) + score) scores))"

text \<open>\<open>hits_by_id\<close>: a dense hit replaces what is there, a sparse one does not.\<close>

definition hits_by_id :: "search_hit list \<Rightarrow> search_hit list \<Rightarrow> (pystr, search_hit) dict" where
  "hits_by_id dense sparse =
     foldl (\<lambda>d h. if dict_has d (sh_id h) then d else dict_set (sh_id h) h d)
       (foldl (\<lambda>d h. dict_set (sh_id h) h d) [] dense) sparse"

definition fused_hit ::
  "(pystr, search_hit) dict \<Rightarrow> pystr \<times> real \<Rightarrow> exn + search_hit" where
  "fused_hit hits p =
     (case dict_get hits (fst p) of
        None \<Rightarrow> Inl (missing_key (fst p))
      | Some h \<Rightarrow> Inr \<lparr>sh_id = fst p, sh_score = snd p, sh_metadata = sh_metadata h\<rparr>)"

definition rrf_fuse ::
  "search_hit list \<Rightarrow> search_hit list \<Rightarrow> int \<Rightarrow> int \<Rightarrow> exn + search_hit list" where
  "rrf_fuse dense sparse top_k k =
     rbind (add_ranks k 0 dense []) (\<lambda>s.
     rbind (add_ranks k 0 sparse s) (\<lambda>scores.
       rmap_list (fused_hit (hits_by_id dense sparse)) (py_slice (ranked snd scores) 0 top_k)))"

text \<open>What an identifier gets from one ranking.\<close>

fun rank_sum :: "int \<Rightarrow> int \<Rightarrow> pystr \<Rightarrow> search_hit list \<Rightarrow> real" where
  "rank_sum k rank i [] = 0"
| "rank_sum k rank i (h # hits) =
     (if sh_id h = i then 1 / real_of_int (k + rank + 1) else 0) + rank_sum k (rank + 1) i hits"

lemma add_ranks_ok:
  assumes "0 \<le> k" "0 \<le> rank" "dict_wf scores"
  shows "\<exists>scores'. add_ranks k rank hits scores = Inr scores' \<and> dict_wf scores' \<and>
     (\<forall>i. dict_get scores' i =
        (if i \<in> sh_id ` set hits \<or> dict_get scores i \<noteq> None
         then Some ((case dict_get scores i of None \<Rightarrow> 0 | Some x \<Rightarrow> x) + rank_sum k rank i hits)
         else None))"
  using assms(2,3)
proof (induction hits arbitrary: rank scores)
  case Nil
  then show ?case by (auto split: option.splits)
next
  case (Cons h hits)
  let ?old = "case dict_get scores (sh_id h) of None \<Rightarrow> 0 | Some x \<Rightarrow> x"
  let ?s = "dict_set (sh_id h) (?old + 1 / real_of_int (k + rank + 1)) scores"
  have "add_ranks k rank (h # hits) scores = add_ranks k (rank + 1) hits ?s"
    using assms(1) Cons.prems(1) by (simp add: py_div_def)
  moreover from Cons.IH [of "rank + 1" ?s] Cons.prems obtain s' where
      "add_ranks k (rank + 1) hits ?s = Inr s'" "dict_wf s'"
      "\<forall>i. dict_get s' i = (if i \<in> sh_id ` set hits \<or> dict_get ?s i \<noteq> None
         then Some ((case dict_get ?s i of None \<Rightarrow> 0 | Some x \<Rightarrow> x) + rank_sum k (rank + 1) i hits)
         else None)" by auto
  ultimately show ?case by (auto split: option.splits)
qed

definition rrf_score :: "int \<Rightarrow> search_hit list \<Rightarrow> search_hit list \<Rightarrow> pystr \<Rightarrow> real" where
  "rrf_score k dense sparse i = rank_sum k 0 i dense + rank_sum k 0 i sparse"

lemma fused_scores:
  assumes "0 \<le> k"
  shows "\<exists>scores. rbind (add_ranks k 0 dense []) (\<lambda>s. add_ranks k 0 sparse s) = Inr scores \<and>
     dict_wf scores \<and>
     (\<forall>i. dict_get scores i = (if i \<in> sh_id ` (set dense \<union> set sparse)
        then Some (rrf_score k dense sparse i) else None))"
proof -
  have out: "rank_sum k r i hits = 0" if "i \<notin> sh_id ` set hits" for r i hits
    using that by (induction hits arbitrary: r) auto
  from add_ranks_ok [OF assms, of 0 "[]" dense] obtain s where s: "add_ranks k 0 dense [] = Inr s"
      "dict_wf s" "\<forall>i. dict_get s i = (if i \<in> sh_id ` set dense then Some (rank_sum k 0 i dense) else None)"
    by auto
  from add_ranks_ok [OF assms, of 0 s sparse] s(2) obtain s' where s': "add_ranks k 0 sparse s = Inr s'"
      "dict_wf s'"
      "\<forall>i. dict_get s' i = (if i \<in> sh_id ` set sparse \<or> dict_get s i \<noteq> None
         then Some ((case dict_get s i of None \<Rightarrow> 0 | Some x \<Rightarrow> x) + rank_sum k 0 i sparse) else None)"
    by auto
  with s out show ?thesis by (auto simp: rrf_score_def image_Un)
qed

lemma hits_by_id_dense:
  "dict_get (foldl (\<lambda>d h. dict_set (sh_id h) h d) d0 dense) i =
   (case filter (\<lambda>h. sh_id h = i) dense of [] \<Rightarrow> dict_get d0 i | hs \<Rightarrow> Some (last hs))"
  by (induction dense arbitrary: d0) (auto split: list.splits)

lemma hits_by_id_sparse:
  "dict_get (foldl (\<lambda>d h. if dict_has d (sh_id h) then d else dict_set (sh_id h) h d) d0 sparse) i =
   (case dict_get d0 i of Some h \<Rightarrow> Some h
    | None \<Rightarrow> (case filter (\<lambda>h. sh_id h = i) sparse of [] \<Rightarrow> None | h # _ \<Rightarrow> Some h))"
  by (induction sparse arbitrary: d0) (auto simp: dict_has_def split: option.splits)

text \<open>The hit whose metadata an identifier keeps: the dense one, when there is one.\<close>

definition kept_hit :: "search_hit list \<Rightarrow> search_hit list \<Rightarrow> pystr \<Rightarrow> search_hit" where
  "kept_hit dense sparse i =
     (case filter (\<lambda>h. sh_id h = i) dense of
        [] \<Rightarrow> hd (filter (\<lambda>h. sh_id h = i) sparse)
      | hs \<Rightarrow> last hs)"

lemma hits_by_id_get:
  "i \<in> sh_id ` (set dense \<union> set sparse) \<Longrightarrow>
   dict_get (hits_by_id dense sparse) i = Some (kept_hit dense sparse i)"
  by (auto simp: hits_by_id_def hits_by_id_dense hits_by_id_sparse kept_hit_def filter_empty_conv
      split: list.splits)


lemma fused_hits:
  assumes "\<forall>p \<in> set ps. fst p \<in> sh_id ` (set dense \<union> set sparse)"
  shows "rmap_list (fused_hit (hits_by_id dense sparse)) ps =
     Inr (map (\<lambda>p. \<lparr>sh_id = fst p, sh_score = snd p,
                    sh_metadata = sh_metadata (kept_hit dense sparse (fst p))\<rparr>) ps)"
  using assms by (induction ps) (auto simp: fused_hit_def hits_by_id_get)

lemma rrf_fuse_hits:
  assumes "0 \<le> k" "0 \<le> top_k"
  shows "\<exists>hits. rrf_fuse dense sparse top_k k = Inr hits \<and>
     (\<forall>h \<in> set hits. sh_id h \<in> sh_id ` (set dense \<union> set sparse) \<and>
        sh_score h = rrf_score k dense sparse (sh_id h) \<and>
        sh_metadata h = sh_metadata (kept_hit dense sparse (sh_id h)) \<and>
        (\<forall>i \<in> sh_id ` (set dense \<union> set sparse) - sh_id ` set hits.
           rrf_score k dense sparse i \<le> sh_score h)) \<and>
     distinct (map sh_id hits) \<and> sorted_wrt (\<lambda>x y. sh_score y \<le> sh_score x) hits \<and>
     length hits = min (nat top_k) (card (sh_id ` (set dense \<union> set sparse)))"
proof -
  let ?ids = "sh_id ` (set dense \<union> set sparse)"
  from fused_scores [OF assms(1), of dense sparse] obtain scores where sc:
      "rbind (add_ranks k 0 dense []) (\<lambda>s. add_ranks k 0 sparse s) = Inr scores" "dict_wf scores"
      "\<forall>i. dict_get scores i = (if i \<in> ?ids then Some (rrf_score k dense sparse i) else None)"
    by blast
  have pair: "fst p \<in> ?ids \<and> snd p = rrf_score k dense sparse (fst p)" if "p \<in> set scores" for p
  proof -
    have "dict_get scores (fst p) = Some (snd p)"
      using that sc(2) by (simp add: dict_wf_def map_of_is_SomeI)
    with spec [OF sc(3), of "fst p"] show ?thesis by (simp split: if_splits)
  qed
  have keys: "fst ` set scores = ?ids"
  proof -
    have "fst ` set scores = {i. dict_get scores i \<noteq> None}" by (auto simp: map_of_eq_None_iff)
    also have "\<dots> = ?ids" using sc(3) by auto
    finally show ?thesis .
  qed
  let ?all = "ranked snd scores" and ?n = "nat top_k"
  let ?hit = "\<lambda>p. \<lparr>sh_id = fst p, sh_score = snd p,
      sh_metadata = sh_metadata (kept_hit dense sparse (fst p))\<rparr>"
  let ?hits = "map ?hit (take ?n ?all)"
  have sub: "set (take ?n ?all) \<subseteq> set scores" by (metis ranked_props(1) set_take_subset)
  with pair have "\<forall>p \<in> set (take ?n ?all). fst p \<in> ?ids" by blast
  note h = fused_hits [OF this]
  from sc(1) have "rrf_fuse dense sparse top_k k =
      rmap_list (fused_hit (hits_by_id dense sparse)) (py_slice ?all 0 top_k)"
    by (auto simp: rrf_fuse_def)
  with h assms(2) have fuse: "rrf_fuse dense sparse top_k k = Inr ?hits" by (simp add: py_slice_first)
  have sorted: "sorted_wrt (\<lambda>x y. snd y \<le> snd x) ?all" by (rule ranked_props)
  have rest: "rrf_score k dense sparse i \<le> sh_score h"
    if "h \<in> set ?hits" "i \<in> ?ids - sh_id ` set ?hits" for h i
  proof -
    from that(2) keys have "i \<in> fst ` set scores" by blast
    then obtain q where q: "q \<in> set ?all" "fst q = i" unfolding ranked_props(1) by blast
    have "fst q \<in> sh_id ` set ?hits" if "q \<in> set (take ?n ?all)"
      using that by (force simp: image_image)
    with q(2) that(2) have "q \<notin> set (take ?n ?all)" by blast
    with q(1) have "q \<in> set (drop ?n ?all)" by (metis Un_iff append_take_drop_id set_append)
    moreover from that(1) obtain p where p: "p \<in> set (take ?n ?all)" "h = ?hit p" by auto
    moreover from sorted have "sorted_wrt (\<lambda>x y. snd y \<le> snd x) (take ?n ?all @ drop ?n ?all)" by simp
    ultimately have "snd q \<le> snd p" unfolding sorted_wrt_append by blast
    with p(2) q pair [of q] show ?thesis by (simp add: ranked_props)
  qed
  have "distinct (map fst scores)" using sc(2) by (simp add: dict_wf_def)
  then have "distinct (map fst ?all)" by (simp add: ranked_props)
  then have "distinct (map fst (take ?n ?all))" by (simp add: distinct_take flip: take_map)
  then have dist: "distinct (map sh_id ?hits)" by (simp add: comp_def)
  have "card ?ids = length scores"
    using sc(2) keys by (metis dict_wf_def distinct_card length_map list.set_map)
  then have len: "length ?hits = min ?n (card ?ids)" by (simp add: ranked_props min.commute)
  have "sorted_wrt (\<lambda>x y. sh_score y \<le> sh_score x) ?hits"
    using sorted by (simp add: sorted_wrt_map sorted_wrt_take)
  moreover have "sh_id h \<in> ?ids \<and> sh_score h = rrf_score k dense sparse (sh_id h) \<and>
      sh_metadata h = sh_metadata (kept_hit dense sparse (sh_id h))" if "h \<in> set ?hits" for h
    using that sub pair by fastforce
  ultimately show ?thesis using fuse rest dist len by blast
qed

text \<open>
  C37. The fusion lists identifiers of the two rankings, each once, with the sum of what both
  rankings give it, the best ones first; none left out is better than one listed, and an
  identifier found by both keeps the metadata of the dense hit.
\<close>

theorem rrf_fuse_sound:
  assumes "0 \<le> k" "0 \<le> top_k"
  shows "\<exists>hits. rrf_fuse dense sparse top_k k = Inr hits \<and>
     (\<forall>h \<in> set hits. sh_id h \<in> sh_id ` (set dense \<union> set sparse) \<and>
        sh_score h = rrf_score k dense sparse (sh_id h) \<and>
        sh_metadata h = sh_metadata (kept_hit dense sparse (sh_id h)) \<and>
        (\<forall>i \<in> sh_id ` (set dense \<union> set sparse) - sh_id ` set hits.
           rrf_score k dense sparse i \<le> sh_score h)) \<and>
     distinct (map sh_id hits) \<and> sorted_wrt (\<lambda>x y. sh_score y \<le> sh_score x) hits \<and>
     length hits = min (nat top_k) (card (sh_id ` (set dense \<union> set sparse)))"
  by (rule rrf_fuse_hits [OF assms])

text \<open>A rank, when an identifier occurs once.\<close>

lemma rank_sum_at:
  assumes "distinct (map sh_id hits)" "p < length hits"
  shows "rank_sum k r (sh_id (hits ! p)) hits = 1 / real_of_int (k + r + int p + 1)"
  using assms
proof (induction hits arbitrary: r p)
  case (Cons h hits)
  have out: "rank_sum k r i hits = 0" if "i \<notin> sh_id ` set hits" for r i
    using that by (induction hits arbitrary: r) auto
  show ?case
  proof (cases p)
    case 0
    with Cons.prems(1) out show ?thesis by simp
  next
    case (Suc q)
    with Cons.prems have "sh_id (hits ! q) \<in> sh_id ` set hits" by simp
    with Cons.prems(1) have "sh_id h \<noteq> sh_id (hits ! q)" by (auto simp del: image_iff)
    with Suc Cons.IH [of q "r + 1"] Cons.prems show ?thesis by (simp add: add.assoc)
  qed
qed simp

text \<open>
  The fusion respects agreement: what both rankings place before something else scores
  strictly higher.
\<close>

lemma rrf_respects_agreement:
  assumes "0 \<le> k" "distinct (map sh_id dense)" "distinct (map sh_id sparse)"
    and "p < q" "q < length dense" "p' < q'" "q' < length sparse"
    and "sh_id (dense ! p) = x" "sh_id (sparse ! p') = x"
    and "sh_id (dense ! q) = y" "sh_id (sparse ! q') = y"
  shows "rrf_score k dense sparse y < rrf_score k dense sparse x"
proof -
  have less: "1 / real_of_int (k + 0 + int b + 1) < 1 / real_of_int (k + 0 + int a + 1)" if "a < b" for a b
    using assms(1) that by (intro divide_strict_left_mono mult_pos_pos) simp_all
  have "rank_sum k 0 x dense = 1 / real_of_int (k + 0 + int p + 1)"
    "rank_sum k 0 y dense = 1 / real_of_int (k + 0 + int q + 1)"
    "rank_sum k 0 x sparse = 1 / real_of_int (k + 0 + int p' + 1)"
    "rank_sum k 0 y sparse = 1 / real_of_int (k + 0 + int q' + 1)"
    using rank_sum_at [OF assms(2), of p k 0] rank_sum_at [OF assms(2), of q k 0]
      rank_sum_at [OF assms(3), of p' k 0] rank_sum_at [OF assms(3), of q' k 0] assms(4-11)
    by simp_all
  with less [OF assms(4)] less [OF assms(6)] show ?thesis unfolding rrf_score_def by linarith
qed


section \<open>Samples\<close>

definition sample_index :: bm25_index where
  "sample_index = bm25_add (lit ''d2'') (lit ''b c'') None (bm25_add (lit ''d1'') (lit ''a b'') None bm25_new)"

lemma sample_index_ok: "bm25_ok sample_index"
  by (simp add: sample_index_def bm25_ok_add bm25_ok_new)


definition hit_of :: "string \<Rightarrow> search_hit" where
  "hit_of i = \<lparr>sh_id = lit i, sh_score = 0, sh_metadata = []\<rparr>"

theorem rrf_fuse_sound_witness:
  "\<exists>hits. rrf_fuse [hit_of ''a'', hit_of ''b''] [hit_of ''b''] 1 60 = Inr hits \<and> length hits = 1"
proof -
  have "card (sh_id ` (set [hit_of ''a'', hit_of ''b''] \<union> set [hit_of ''b''])) = 2"
    by code_simp
  with rrf_fuse_sound [of 60 1 "[hit_of ''a'', hit_of ''b'']" "[hit_of ''b'']"] show ?thesis by auto
qed

lemma rrf_respects_agreement_witness:
  "rrf_score 60 [hit_of ''a'', hit_of ''b''] [hit_of ''a'', hit_of ''b''] (lit ''b'')
   < rrf_score 60 [hit_of ''a'', hit_of ''b''] [hit_of ''a'', hit_of ''b''] (lit ''a'')"
  by (rule rrf_respects_agreement [where p = 0 and q = 1 and p' = 0 and q' = 1])
    (simp_all add: hit_of_def lit_def)

text \<open>
  A query of a single Chinese character has no token, so it finds nothing, although the
  character stands in a document.
\<close>

lemma single_character_finds_nothing:
  assumes "is_cjk c" "bm25_ok ix"
  shows "tokenize [c] = [] \<and> (0 \<le> top_k \<longrightarrow> bm25_search ix [c] top_k = Inr [])"
proof -
  from assms(1) have t: "tokenize [c] = []" by (simp add: is_cjk_def is_alnum_def)
  have "length hits = 0" if "bm25_search ix [c] top_k = Inr hits" "0 \<le> top_k" for hits
    using bm25_search_finds [OF assms(2) that(2), of "[c]"] that t by (auto simp: matches_def)
  with t show ?thesis using bm25_search_finds [OF assms(2), of top_k "[c]"] by auto
qed

end
