(* ===== verification/Rag_Store.thy ===== *)
theory Rag_Store
  imports Rag_Hybrid
begin

text \<open>
  \<open>rag/vector_store.py\<close>: the vector store keeps a flat index and three parallel lists. The index
  itself (\<open>faiss\<close>) and numpy's conversion to 32-bit floats are parameters.
\<close>

section \<open>The store\<close>

text \<open>\<open>IndexFlatIP\<close>: a dimension and the vectors added, in order.\<close>

record flat_index =
  fx_d :: int
  fx_vectors :: "real list list"

definition fx_add :: "real list list \<Rightarrow> flat_index \<Rightarrow> flat_index" where
  "fx_add vs ix = ix\<lparr>fx_vectors := fx_vectors ix @ vs\<rparr>"

text \<open>
  The conversion of a number, the exception for rows of different lengths, and the search: scores
  with positions, or an exception.
\<close>

record numpy_faiss =
  nf_float32 :: "real \<Rightarrow> real"
  nf_ragged :: exn
  nf_search :: "flat_index \<Rightarrow> real list \<Rightarrow> int \<Rightarrow> exn + (real \<times> int) list"

record vector_store =
  vs_index :: "flat_index option"
  vs_ids :: "pystr list"
  vs_vectors :: "real list list"
  vs_metadata :: "(pystr, json) dict list"

definition store_new :: vector_store where
  "store_new = \<lparr>vs_index = None, vs_ids = [], vs_vectors = [], vs_metadata = []\<rparr>"

text \<open>\<open>np.array(vectors, dtype=np.float32)\<close> for a list of rows that is not empty.\<close>

definition np_array :: "numpy_faiss \<Rightarrow> real list list \<Rightarrow> exn + real list list" where
  "np_array nf vectors =
     (if list_all (\<lambda>v. length v = length (hd vectors)) vectors
      then Inr (map (map (nf_float32 nf)) vectors) else Inl (nf_ragged nf))"

definition store_value_error :: "pystr \<Rightarrow> exn" where
  "store_value_error m = Exn PyValueError m [] None"

definition store_add ::
  "numpy_faiss \<Rightarrow> pystr list \<Rightarrow> real list list \<Rightarrow> (pystr, json) dict list option \<Rightarrow> vector_store \<Rightarrow>
   exn + vector_store" where
  "store_add nf ids vectors metadata vs =
     (if ids = [] then Inr vs
      else if length ids \<noteq> length vectors then
        Inl (store_value_error (lit ''vectors '' @ [25968, 37327, 24517, 39035, 21644] @ lit '' ids '' @ [19968, 33268] @ lit '': '' @ int_text (len vectors) @ lit '' vs '' @ int_text (len ids)))
      else
        let md = (case metadata of None \<Rightarrow> map (\<lambda>_. []) ids | Some m \<Rightarrow> m) in
        if length md \<noteq> length ids then
          Inl (store_value_error (lit ''metadata '' @ [25968, 37327, 24517, 39035, 21644] @ lit '' ids '' @ [19968, 33268] @ lit '': '' @ int_text (len md) @ lit '' vs '' @ int_text (len ids)))
        else if \<not> distinct ids then Inl (store_value_error (lit ''id '' @ [19981, 33021, 37325, 22797]))
        else if set ids \<inter> set (vs_ids vs) \<noteq> {} then
          Inl (store_value_error (lit ''id '' @ [24050, 23384, 22312, 65292, 22914, 38656, 35206, 30422, 35831, 29992] @ lit '' update()''))
        else rbind (np_array nf vectors) (\<lambda>rows.
          let d = len (hd rows) in
          case (case vs_index vs of
                  None \<Rightarrow> Inr \<lparr>fx_d = d, fx_vectors = []\<rparr>
                | Some ix \<Rightarrow>
                    if d \<noteq> fx_d ix then
                      Inl (store_value_error ([26399, 26395] @ int_text (fx_d ix) @ [32500] @ lit '', '' @ [24471, 21040] @ int_text d @ [32500]))
                    else Inr ix) of
            Inl e \<Rightarrow> Inl e
          | Inr ix \<Rightarrow>
              Inr \<lparr>vs_index = Some (fx_add rows ix), vs_ids = vs_ids vs @ ids,
                   vs_vectors = vs_vectors vs @ rows, vs_metadata = vs_metadata vs @ md\<rparr>))"

text \<open>A position of a list, negative ones from the end.\<close>

definition py_nth :: "'a list \<Rightarrow> int \<Rightarrow> exn + 'a" where
  "py_nth xs i =
     (let j = (if i < 0 then i + len xs else i)
      in if 0 \<le> j \<and> j < len xs then Inr (xs ! nat j)
         else Inl (exn_of PyIndexError ''list index out of range''))"

fun store_hits :: "vector_store \<Rightarrow> (real \<times> int) list \<Rightarrow> exn + search_hit list" where
  "store_hits vs [] = Inr []"
| "store_hits vs ((score, pos) # found) =
     (if pos = -1 then store_hits vs found
      else rbind (py_nth (vs_ids vs) pos) (\<lambda>i.
             rbind (py_nth (vs_metadata vs) pos) (\<lambda>m.
               rmap (\<lambda>hs. \<lparr>sh_id = i, sh_score = score, sh_metadata = m\<rparr> # hs) (store_hits vs found))))"

definition store_search ::
  "numpy_faiss \<Rightarrow> real list \<Rightarrow> int \<Rightarrow> vector_store \<Rightarrow> exn + search_hit list" where
  "store_search nf query top_k vs =
     (case vs_index vs of
        None \<Rightarrow> Inr []
      | Some ix \<Rightarrow>
          if fx_vectors ix = [] then Inr []
          else rbind (nf_search nf ix (map (nf_float32 nf) query) top_k) (store_hits vs))"

text \<open>The lists are filtered by position and the index is built again.\<close>

definition vector_delete :: "numpy_faiss \<Rightarrow> pystr list \<Rightarrow> vector_store \<Rightarrow> vector_store" where
  "vector_delete nf ids vs =
     (if vs_ids vs = [] then vs
      else let keep = filter (\<lambda>i. vs_ids vs ! i \<notin> set ids) [0..<length (vs_ids vs)] in
        if length keep = length (vs_ids vs) then vs
        else let ids' = map (\<lambda>i. vs_ids vs ! i) keep;
                 vectors' = map (\<lambda>i. vs_vectors vs ! i) keep;
                 metadata' = map (\<lambda>i. vs_metadata vs ! i) keep
             in \<lparr>vs_index =
                   (if ids' = [] then None
                    else map_option (\<lambda>ix. fx_add (map (map (nf_float32 nf)) vectors')
                           \<lparr>fx_d = fx_d ix, fx_vectors = []\<rparr>) (vs_index vs)),
                 vs_ids = ids', vs_vectors = vectors', vs_metadata = metadata'\<rparr>)"

text \<open>\<open>update\<close>: what was deleted stays deleted when the new vectors are refused.\<close>

definition store_update ::
  "numpy_faiss \<Rightarrow> pystr list \<Rightarrow> real list list \<Rightarrow> (pystr, json) dict list option \<Rightarrow> vector_store \<Rightarrow>
   (exn + unit) \<times> vector_store" where
  "store_update nf ids vectors metadata vs =
     (let vs' = vector_delete nf ids vs
      in case store_add nf ids vectors metadata vs' of
           Inl e \<Rightarrow> (Inl e, vs')
         | Inr vs'' \<Rightarrow> (Inr (), vs''))"

section \<open>The invariant\<close>

text \<open>
  The lists are parallel, identifiers are unique, and the index holds the vectors of the list, all
  of its dimension; an empty store has no index.
\<close>

definition store_ok :: "numpy_faiss \<Rightarrow> vector_store \<Rightarrow> bool" where
  "store_ok nf vs \<longleftrightarrow>
     length (vs_vectors vs) = length (vs_ids vs) \<and> length (vs_metadata vs) = length (vs_ids vs) \<and>
     distinct (vs_ids vs) \<and>
     (case vs_index vs of
        None \<Rightarrow> vs_ids vs = []
      | Some ix \<Rightarrow> vs_ids vs \<noteq> [] \<and> fx_vectors ix = vs_vectors vs \<and>
          (\<forall>v \<in> set (vs_vectors vs). len v = fx_d ix)) \<and>
     (\<forall>v \<in> set (vs_vectors vs). map (nf_float32 nf) v = v)"

text \<open>The abstract store: what every identifier stands for.\<close>

definition entries :: "vector_store \<Rightarrow> (pystr \<times> real list \<times> (pystr, json) dict) list" where
  "entries vs = zip (vs_ids vs) (zip (vs_vectors vs) (vs_metadata vs))"

definition contents :: "vector_store \<Rightarrow> pystr \<rightharpoonup> real list \<times> (pystr, json) dict" where
  "contents vs = map_of (entries vs)"

lemma kept_positions:
  assumes "length xs = length ids"
  shows "map (\<lambda>i. xs ! i) (filter (\<lambda>i. ids ! i \<notin> D) [0..<length ids]) =
         map snd (filter (\<lambda>p. fst p \<notin> D) (zip ids xs))"
proof -
  have "zip ids xs = map (\<lambda>i. (ids ! i, xs ! i)) [0..<length ids]"
    using assms by (intro nth_equalityI) simp_all
  then show ?thesis by (simp add: filter_map comp_def)
qed

lemma kept_zip:
  assumes "length xs = length ids" "length ys = length ids"
  shows "zip (map snd (filter (\<lambda>p. fst p \<notin> D) (zip ids xs))) (map snd (filter (\<lambda>p. fst p \<notin> D) (zip ids ys)))
       = map snd (filter (\<lambda>p. fst p \<notin> D) (zip ids (zip xs ys)))"
proof -
  from assms have "length ids = length xs" "length xs = length ys" by simp_all
  then show ?thesis by (induction ids xs ys rule: list_induct3) auto
qed

lemma kept_ids:
  assumes "length xs = length ids"
  shows "map fst (filter (\<lambda>p. fst p \<notin> D) (zip ids xs)) = filter (\<lambda>i. i \<notin> D) ids"
  using assms by (induction ids xs rule: list_induct2') auto

lemma kept_all:
  assumes "length xs = length ids" "\<forall>i \<in> set ids. i \<notin> D"
  shows "map snd (filter (\<lambda>p. fst p \<notin> D) (zip ids xs)) = xs"
proof -
  from assms(2) have "filter (\<lambda>p. fst p \<notin> D) (zip ids xs) = zip ids xs"
    by (auto simp: filter_id_conv dest: set_zip_leftD)
  with assms(1) show ?thesis by simp
qed

lemma map_of_kept: "map_of (filter (\<lambda>p. fst p \<notin> D) es) = map_of es |` (- D)"
  by (induction es) (auto simp: restrict_map_def)


lemma vector_deleted:
  assumes "store_ok nf vs"
  shows "vs_ids (vector_delete nf ids vs) = filter (\<lambda>i. i \<notin> set ids) (vs_ids vs)"
    and "vs_vectors (vector_delete nf ids vs) =
      map snd (filter (\<lambda>p. fst p \<notin> set ids) (zip (vs_ids vs) (vs_vectors vs)))"
    and "vs_metadata (vector_delete nf ids vs) =
      map snd (filter (\<lambda>p. fst p \<notin> set ids) (zip (vs_ids vs) (vs_metadata vs)))"
    and "store_ok nf (vector_delete nf ids vs)"
proof -
  let ?I = "vs_ids vs" and ?D = "set ids"
  let ?keep = "filter (\<lambda>i. ?I ! i \<notin> ?D) [0..<length ?I]"
  let ?V = "map snd (filter (\<lambda>p. fst p \<notin> ?D) (zip ?I (vs_vectors vs)))"
  let ?M = "map snd (filter (\<lambda>p. fst p \<notin> ?D) (zip ?I (vs_metadata vs)))"
  from assms have len: "length (vs_vectors vs) = length ?I" "length (vs_metadata vs) = length ?I"
    and dist: "distinct ?I" by (simp_all add: store_ok_def)
  have kI: "map (\<lambda>i. ?I ! i) ?keep = filter (\<lambda>i. i \<notin> ?D) ?I"
    by (simp add: kept_positions [of ?I] zip_same_conv_map filter_map comp_def)
  have "map (\<lambda>i. ?I ! i) ?keep = filter (\<lambda>i. i \<notin> ?D) ?I \<and>
      map (\<lambda>i. vs_vectors vs ! i) ?keep = ?V \<and> map (\<lambda>i. vs_metadata vs ! i) ?keep = ?M"
    using kI len by (simp add: kept_positions)
  note k = this
  have lens: "length ?V = length (filter (\<lambda>i. i \<notin> ?D) ?I)" "length ?M = length (filter (\<lambda>i. i \<notin> ?D) ?I)"
    using kept_ids [of "vs_vectors vs" ?I ?D] kept_ids [of "vs_metadata vs" ?I ?D] len
    by (metis length_map)+
  have sub: "set ?V \<subseteq> set (vs_vectors vs)" by (auto dest: set_zip_rightD)
  consider "?I = []" | "?I \<noteq> []" "length ?keep = length ?I" | "?I \<noteq> []" "length ?keep \<noteq> length ?I" by blast
  then have "vs_ids (vector_delete nf ids vs) = filter (\<lambda>i. i \<notin> ?D) ?I \<and>
      vs_vectors (vector_delete nf ids vs) = ?V \<and> vs_metadata (vector_delete nf ids vs) = ?M \<and>
      store_ok nf (vector_delete nf ids vs)" (is ?all)
  proof cases
    case 1
    with assms len show ?all by (simp add: vector_delete_def)
  next
    case 2
    then have "length (filter (\<lambda>i. i \<notin> ?D) ?I) = length ?I" using kI by (metis length_map)
    then have none: "\<forall>i \<in> set ?I. i \<notin> ?D" by (metis length_filter_less less_irrefl)
    have v: "?V = vs_vectors vs" "?M = vs_metadata vs"
      by (rule kept_all [OF len(1) none], rule kept_all [OF len(2) none])
    have "vector_delete nf ids vs = vs"
      by (simp only: vector_delete_def Let_def 2 if_False if_True refl)
    moreover from none have "filter (\<lambda>i. i \<notin> ?D) ?I = ?I" by (simp add: filter_id_conv)
    ultimately show ?all unfolding v using assms by (simp only: simp_thms)
  next
    case 3
    from assms have st: "\<forall>v \<in> set (vs_vectors vs). map (nf_float32 nf) v = v"
      unfolding store_ok_def by blast
    from assms have "case vs_index vs of None \<Rightarrow> ?I = []
      | Some ix \<Rightarrow> ?I \<noteq> [] \<and> fx_vectors ix = vs_vectors vs \<and>
          (\<forall>v \<in> set (vs_vectors vs). len v = fx_d ix)"
      unfolding store_ok_def by blast
    with 3(1) obtain ix where ix: "vs_index vs = Some ix" "\<forall>v \<in> set (vs_vectors vs). len v = fx_d ix"
      by (cases "vs_index vs") simp_all
    have f: "map (map (nf_float32 nf)) ?V = ?V"
    proof (rule map_idI)
      fix v
      assume "v \<in> set ?V"
      with sub st show "map (nf_float32 nf) v = v" by blast
    qed
    have d: "vector_delete nf ids vs =
        \<lparr>vs_index = (if filter (\<lambda>i. i \<notin> ?D) ?I = [] then None
           else Some \<lparr>fx_d = fx_d ix, fx_vectors = ?V\<rparr>),
         vs_ids = filter (\<lambda>i. i \<notin> ?D) ?I, vs_vectors = ?V, vs_metadata = ?M\<rparr>"
      using 3 k f ix(1) by (simp only: vector_delete_def Let_def if_False) (simp add: fx_add_def)
    from sub ix(2) st have "\<forall>v \<in> set ?V. len v = fx_d ix \<and> map (nf_float32 nf) v = v" by blast
    with lens dist show ?all unfolding d store_ok_def by simp
  qed
  then show "vs_ids (vector_delete nf ids vs) = filter (\<lambda>i. i \<notin> set ids) (vs_ids vs)"
    and "vs_vectors (vector_delete nf ids vs) = ?V"
    and "vs_metadata (vector_delete nf ids vs) = ?M"
    and "store_ok nf (vector_delete nf ids vs)" by blast+
qed

lemma contents_delete:
  assumes "store_ok nf vs"
  shows "contents (vector_delete nf ids vs) = contents vs |` (- set ids)"
proof -
  from assms have len: "length (vs_vectors vs) = length (vs_ids vs)"
    "length (vs_metadata vs) = length (vs_ids vs)" by (simp_all add: store_ok_def)
  let ?z = "zip (vs_ids vs) (zip (vs_vectors vs) (vs_metadata vs))"
  have "length (zip (vs_vectors vs) (vs_metadata vs)) = length (vs_ids vs)" using len by simp
  then have "entries (vector_delete nf ids vs) =
      zip (map fst (filter (\<lambda>p. fst p \<notin> set ids) ?z)) (map snd (filter (\<lambda>p. fst p \<notin> set ids) ?z))"
    by (simp add: entries_def vector_deleted [OF assms] kept_zip [OF len] kept_ids)
  also have "\<dots> = filter (\<lambda>p. fst p \<notin> set ids) ?z" by (simp add: zip_map_fst_snd)
  finally show ?thesis by (simp add: contents_def map_of_kept entries_def)
qed


text \<open>A 32-bit float is not changed by another conversion.\<close>

definition float32_stable :: "numpy_faiss \<Rightarrow> bool" where
  "float32_stable nf \<longleftrightarrow> (\<forall>x. nf_float32 nf (nf_float32 nf x) = nf_float32 nf x)"

lemma store_added:
  assumes "store_add nf ids vectors metadata vs = Inr vs'" "ids \<noteq> []"
  shows "length vectors = length ids" "distinct ids" "set ids \<inter> set (vs_ids vs) = {}"
    and "vs_ids vs' = vs_ids vs @ ids"
    and "vs_vectors vs' = vs_vectors vs @ map (map (nf_float32 nf)) vectors"
    and "vs_metadata vs' =
      vs_metadata vs @ (case metadata of None \<Rightarrow> map (\<lambda>_. []) ids | Some m \<Rightarrow> m)"
    and "length (case metadata of None \<Rightarrow> map (\<lambda>_. []) ids | Some m \<Rightarrow> m) = length ids"
    and "list_all (\<lambda>v. length v = length (hd vectors)) vectors"
    and "\<exists>ix. vs_index vs' = Some (fx_add (map (map (nf_float32 nf)) vectors) ix) \<and>
      fx_d ix = len (hd vectors) \<and>
      (case vs_index vs of None \<Rightarrow> fx_vectors ix = [] | Some old \<Rightarrow> ix = old)"
proof -
  from assms have "vectors \<noteq> []" by (auto simp: store_add_def split: if_splits)
  then have h: "length (hd (map (map (nf_float32 nf)) vectors)) = length (hd vectors)"
    by (cases vectors) simp_all
  from assms show "length vectors = length ids" "distinct ids" "set ids \<inter> set (vs_ids vs) = {}"
    by (simp_all add: store_add_def Let_def split: if_splits)
  from assms h show "vs_ids vs' = vs_ids vs @ ids"
    "vs_vectors vs' = vs_vectors vs @ map (map (nf_float32 nf)) vectors"
    "vs_metadata vs' = vs_metadata vs @ (case metadata of None \<Rightarrow> map (\<lambda>_. []) ids | Some m \<Rightarrow> m)"
    "length (case metadata of None \<Rightarrow> map (\<lambda>_. []) ids | Some m \<Rightarrow> m) = length ids"
    "list_all (\<lambda>v. length v = length (hd vectors)) vectors"
    "\<exists>ix. vs_index vs' = Some (fx_add (map (map (nf_float32 nf)) vectors) ix) \<and>
      fx_d ix = len (hd vectors) \<and>
      (case vs_index vs of None \<Rightarrow> fx_vectors ix = [] | Some old \<Rightarrow> ix = old)"
    by (auto simp: store_add_def np_array_def Let_def split: if_splits option.splits)
qed

lemma store_ok_add:
  assumes "store_ok nf vs" "float32_stable nf" "store_add nf ids vectors metadata vs = Inr vs'"
  shows "store_ok nf vs'"
proof (cases "ids = []")
  case True
  with assms show ?thesis by (simp add: store_add_def)
next
  case False
  note a = store_added [OF assms(3) False]
  from a(9) obtain ix where ix: "vs_index vs' = Some (fx_add (map (map (nf_float32 nf)) vectors) ix)"
      "fx_d ix = len (hd vectors)"
      "case vs_index vs of None \<Rightarrow> fx_vectors ix = [] | Some old \<Rightarrow> ix = old" by blast
  have s: "map (nf_float32 nf) (map (nf_float32 nf) v) = map (nf_float32 nf) v" for v
    using assms(2) by (simp add: float32_stable_def)
  from a(8) have rows: "\<forall>v \<in> set vectors. len (map (nf_float32 nf) v) = fx_d ix"
    by (simp add: ix(2) list_all_iff)
  show ?thesis
    using assms(1) ix(1,3) rows s a(1-7) False
    by (auto simp: store_ok_def fx_add_def split: option.splits)
qed

lemma contents_add:
  assumes "store_ok nf vs" "store_add nf ids vectors metadata vs = Inr vs'"
  shows "contents vs' = contents vs ++ map_of (zip ids (zip (map (map (nf_float32 nf)) vectors)
     (case metadata of None \<Rightarrow> map (\<lambda>_. []) ids | Some m \<Rightarrow> m)))"
proof (cases "ids = []")
  case True
  with assms show ?thesis by (simp add: store_add_def)
next
  case False
  note a = store_added [OF assms(2) False]
  from assms(1) have len: "length (vs_vectors vs) = length (vs_ids vs)"
    "length (vs_metadata vs) = length (vs_ids vs)" by (simp_all add: store_ok_def)
  let ?new = "zip ids (zip (map (map (nf_float32 nf)) vectors)
     (case metadata of None \<Rightarrow> map (\<lambda>_. []) ids | Some m \<Rightarrow> m))"
  have e: "entries vs' = entries vs @ ?new" using a(4-6) len by (simp add: entries_def)
  have "dom (map_of (entries vs)) = set (vs_ids vs)"
    using len by (simp add: entries_def dom_map_of_zip)
  moreover have "dom (map_of ?new) \<subseteq> set ids" by (auto dest!: map_of_SomeD set_zip_leftD)
  ultimately have "dom (map_of (entries vs)) \<inter> dom (map_of ?new) = {}" using a(3) by blast
  then show ?thesis unfolding contents_def e map_of_append by (rule map_add_comm [symmetric])
qed


section \<open>Refinement\<close>

text \<open>
  C35. The store is a finite map: deleting removes the identifiers, adding puts the new entries in
  (never over old ones), an update does both, and a refused update has still deleted.
\<close>

theorem store_refines_map:
  assumes "store_ok nf vs" "float32_stable nf"
  defines "row v \<equiv> map (nf_float32 nf) v"
  shows "contents (vector_delete nf ids vs) = contents vs |` (- set ids) \<and>
     store_ok nf (vector_delete nf ids vs) \<and>
     (case store_add nf ids vectors (Some metadata) vs of
        Inl e \<Rightarrow> exn_class e = PyValueError \<or> e = nf_ragged nf
      | Inr vs' \<Rightarrow> store_ok nf vs' \<and> set ids \<inter> dom (contents vs) = {} \<and>
          contents vs' = contents vs ++ map_of (zip ids (zip (map row vectors) metadata))) \<and>
     (case store_update nf ids vectors (Some metadata) vs of
        (Inl e, vs') \<Rightarrow> contents vs' = contents vs |` (- set ids) \<and> store_ok nf vs'
      | (Inr _, vs') \<Rightarrow> store_ok nf vs' \<and>
          contents vs' = contents vs |` (- set ids) ++ map_of (zip ids (zip (map row vectors) metadata)))"
proof -
  have d: "contents (vector_delete nf ids vs) = contents vs |` (- set ids)"
    "store_ok nf (vector_delete nf ids vs)"
    using assms(1) by (rule contents_delete, rule vector_deleted)
  have err: "exn_class e = PyValueError \<or> e = nf_ragged nf"
    if "store_add nf ids vectors (Some metadata) vs = Inl e" for e
    using that by (auto simp: store_add_def np_array_def store_value_error_def Let_def
        split: if_splits option.splits)
  have add: "store_ok nf v' \<and> contents v' = contents v ++ map_of (zip ids (zip (map row vectors) metadata))"
    if "store_ok nf v" "store_add nf ids vectors (Some metadata) v = Inr v'" for v v'
    using store_ok_add [OF that(1) assms(2) that(2)] contents_add [OF that]
    by (simp add: row_def [abs_def])
  have new: "set ids \<inter> dom (contents vs) = {}"
    if "store_add nf ids vectors (Some metadata) vs = Inr vs'" for vs'
  proof (cases "ids = []")
    case False
    have "dom (contents vs) = set (vs_ids vs)"
      using assms(1) by (simp add: contents_def entries_def store_ok_def dom_map_of_zip)
    with store_added(3) [OF that False] show ?thesis by simp
  qed simp
  show ?thesis
    using d err add [OF assms(1)] add [OF d(2)] new
    by (simp add: store_update_def Let_def split: sum.splits)
qed

section \<open>Search\<close>

text \<open>
  What \<open>IndexFlatIP.search\<close> promises: as many results as asked for, best first, positions inside the
  index and each at most once, then \<open>-1\<close>.
\<close>

definition flat_search_ok :: "numpy_faiss \<Rightarrow> bool" where
  "flat_search_ok nf \<longleftrightarrow>
     (\<forall>ix q k r. nf_search nf ix q k = Inr r \<longrightarrow>
        (\<exists>found pad. r = found @ map (\<lambda>s. (s, -1)) pad \<and> len r = k \<and>
           len found = min k (len (fx_vectors ix)) \<and>
           sorted_wrt (\<lambda>x y. fst y \<le> fst x) found \<and> distinct (map snd found) \<and>
           (\<forall>p \<in> set found. 0 \<le> snd p \<and> snd p < len (fx_vectors ix))))"

lemma store_hits_found:
  assumes "length (vs_metadata vs) = length (vs_ids vs)"
    and "\<forall>p \<in> set found. 0 \<le> snd p \<and> snd p < len (vs_ids vs)"
  shows "store_hits vs (found @ map (\<lambda>s. (s, -1)) pad) =
     Inr (map (\<lambda>p. \<lparr>sh_id = vs_ids vs ! nat (snd p), sh_score = fst p,
                    sh_metadata = vs_metadata vs ! nat (snd p)\<rparr>) found)"
  using assms(2)
proof (induction found)
  case Nil
  show ?case by (induction pad) simp_all
next
  case (Cons p found)
  then show ?case using assms(1) by (cases p) (auto simp: py_nth_def Let_def)
qed

lemma store_search_hits:
  assumes "store_ok nf vs" "flat_search_ok nf" "0 \<le> top_k"
    and "store_search nf query top_k vs = Inr hits"
  shows "(\<forall>h \<in> set hits. \<exists>v. contents vs (sh_id h) = Some (v, sh_metadata h)) \<and>
     distinct (map sh_id hits) \<and> sorted_wrt (\<lambda>x y. sh_score y \<le> sh_score x) hits \<and>
     len hits = min top_k (len (vs_ids vs))"
proof (cases "vs_index vs")
  case None
  with assms show ?thesis by (simp add: store_search_def store_ok_def)
next
  case (Some ix)
  from assms(1) Some have len: "length (vs_vectors vs) = length (vs_ids vs)"
      "length (vs_metadata vs) = length (vs_ids vs)" "distinct (vs_ids vs)"
      "fx_vectors ix = vs_vectors vs" "vs_ids vs \<noteq> []" by (simp_all add: store_ok_def)
  then have "fx_vectors ix \<noteq> []" by auto
  with assms(4) Some obtain r where r: "nf_search nf ix (map (nf_float32 nf) query) top_k = Inr r"
      "store_hits vs r = Inr hits" by (auto simp: store_search_def)
  from assms(2) r(1) obtain found pad where f: "r = found @ map (\<lambda>s. (s, -1)) pad"
      "len found = min top_k (len (fx_vectors ix))" "sorted_wrt (\<lambda>x y. fst y \<le> fst x) found"
      "distinct (map snd found)" "\<forall>p \<in> set found. 0 \<le> snd p \<and> snd p < len (vs_ids vs)"
  proof -
    from assms(2) r(1) have "\<exists>found pad. r = found @ map (\<lambda>s. (s, -1)) pad \<and> len r = top_k \<and>
        len found = min top_k (len (fx_vectors ix)) \<and>
        sorted_wrt (\<lambda>x y. fst y \<le> fst x) found \<and> distinct (map snd found) \<and>
        (\<forall>p \<in> set found. 0 \<le> snd p \<and> snd p < len (fx_vectors ix))"
      unfolding flat_search_ok_def by blast
    then show ?thesis using that len(1,4) by auto
  qed
  let ?hit = "\<lambda>p. \<lparr>sh_id = vs_ids vs ! nat (snd p), sh_score = fst p,
      sh_metadata = vs_metadata vs ! nat (snd p)\<rparr>"
  from store_hits_found [OF len(2) f(5), of pad] r(2) f(1) have h: "hits = map ?hit found" by simp
  have "contents vs (vs_ids vs ! i) = Some (vs_vectors vs ! i, vs_metadata vs ! i)"
    if "i < length (vs_ids vs)" for i
  proof -
    from that len have "(vs_ids vs ! i, vs_vectors vs ! i, vs_metadata vs ! i) \<in> set (entries vs)"
      by (auto simp: entries_def set_zip)
    moreover have "distinct (map fst (entries vs))" using len by (simp add: entries_def)
    ultimately show ?thesis by (simp add: contents_def)
  qed
  with f(5) have "\<forall>h \<in> set hits. \<exists>v. contents vs (sh_id h) = Some (v, sh_metadata h)"
    by (auto simp: h nat_less_iff)
  moreover have "inj_on (\<lambda>i. vs_ids vs ! nat i) (set (map snd found))"
    using f(5) len(3)
    by (auto simp: inj_on_def nth_eq_iff_index_eq nat_less_iff) (metis eq_nat_nat_iff snd_conv)
  then have "distinct (map (\<lambda>i. vs_ids vs ! nat i) (map snd found))"
    using f(4) by (simp only: distinct_map)
  then have "distinct (map sh_id hits)" by (simp add: h comp_def)
  moreover have "sorted_wrt (\<lambda>x y. sh_score y \<le> sh_score x) hits"
    using f(3) by (simp add: h sorted_wrt_map)
  ultimately show ?thesis using f(2) len(1,4) by (simp add: h)
qed

text \<open>
  A search returns entries of the store, each with its own metadata and at most once, the best
  ones first: as many as were asked for, or all there are.
\<close>

lemma store_search_sound:
  assumes "store_ok nf vs" "flat_search_ok nf" "0 \<le> top_k"
    and "store_search nf query top_k vs = Inr hits"
  shows "(\<forall>h \<in> set hits. \<exists>v. contents vs (sh_id h) = Some (v, sh_metadata h)) \<and>
     distinct (map sh_id hits) \<and> sorted_wrt (\<lambda>x y. sh_score y \<le> sh_score x) hits \<and>
     len hits = min top_k (len (vs_ids vs))"
  by (rule store_search_hits [OF assms])

section \<open>An exact index\<close>

text \<open>Inner products with every vector, computed one by one; numbers are not rounded.\<close>

definition exact_found :: "flat_index \<Rightarrow> real list \<Rightarrow> int \<Rightarrow> (real \<times> int) list" where
  "exact_found ix q k =
     take (nat k) (ranked fst
       (map (\<lambda>i. (sum_list (map2 (*) q (fx_vectors ix ! i)), int i)) [0..<length (fx_vectors ix)]))"

definition exact_faiss :: numpy_faiss where
  "exact_faiss =
     \<lparr>nf_float32 = (\<lambda>x. x), nf_ragged = exn_of PyValueError ''inhomogeneous shape'',
      nf_search = (\<lambda>ix q k.
        if k < 0 then Inl (Exn (PyException (lit ''AssertionError'')) [] [] None)
        else Inr (exact_found ix q k @
          map (\<lambda>s. (s, -1)) (replicate (nat k - length (exact_found ix q k)) 0)))\<rparr>"

lemma exact_found_ok:
  assumes "0 \<le> k"
  shows "len (exact_found ix q k) = min k (len (fx_vectors ix))"
    and "sorted_wrt (\<lambda>x y. fst y \<le> fst x) (exact_found ix q k)"
    and "distinct (map snd (exact_found ix q k))"
    and "\<forall>p \<in> set (exact_found ix q k). 0 \<le> snd p \<and> snd p < len (fx_vectors ix)"
proof -
  let ?all = "map (\<lambda>i. (sum_list (map2 (*) q (fx_vectors ix ! i)), int i)) [0..<length (fx_vectors ix)]"
  have f: "exact_found ix q k = take (nat k) (ranked fst ?all)" by (simp add: exact_found_def)
  have "distinct (map snd (ranked fst ?all))"
    by (subst ranked_props) (simp add: comp_def distinct_map)
  then show "distinct (map snd (exact_found ix q k))"
    by (simp add: f distinct_take flip: take_map)
  have "set (exact_found ix q k) \<subseteq> set ?all"
    unfolding f using set_take_subset [of "nat k" "ranked fst ?all"] ranked_props(1) [of fst ?all] by blast
  then show "\<forall>p \<in> set (exact_found ix q k). 0 \<le> snd p \<and> snd p < len (fx_vectors ix)" by auto
  show "sorted_wrt (\<lambda>x y. fst y \<le> fst x) (exact_found ix q k)"
    unfolding f by (intro sorted_wrt_take ranked_props)
  show "len (exact_found ix q k) = min k (len (fx_vectors ix))"
    using assms by (simp add: f ranked_props of_nat_min)
qed

lemma exact_faiss_ok: "flat_search_ok exact_faiss" "float32_stable exact_faiss"
proof -
  show "flat_search_ok exact_faiss"
    unfolding flat_search_ok_def
  proof (intro allI impI)
    fix ix q k r
    assume "nf_search exact_faiss ix q k = Inr r"
    then have k: "0 \<le> k" and r: "r = exact_found ix q k @
        map (\<lambda>s. (s, -1)) (replicate (nat k - length (exact_found ix q k)) 0)"
      by (auto simp: exact_faiss_def split: if_splits)
    then have "len r = k" using exact_found_ok(1) [OF k, of ix q] by simp
    then show "\<exists>found pad. r = found @ map (\<lambda>s. (s, - 1)) pad \<and>
        len r = k \<and> len found = min k (len (fx_vectors ix)) \<and>
        sorted_wrt (\<lambda>x y. fst y \<le> fst x) found \<and> distinct (map snd found) \<and>
        (\<forall>p\<in>set found. 0 \<le> snd p \<and> snd p < len (fx_vectors ix))"
      by (intro exI conjI) (rule r exact_found_ok [OF k] | assumption)+
  qed
  show "float32_stable exact_faiss" by (simp add: float32_stable_def exact_faiss_def)
qed

definition sample_store :: vector_store where
  "sample_store =
     \<lparr>vs_index = Some \<lparr>fx_d = 2, fx_vectors = [[1, 0], [0, 1]]\<rparr>, vs_ids = [lit ''a'', lit ''b''],
      vs_vectors = [[1, 0], [0, 1]], vs_metadata = [[], []]\<rparr>"

lemma sample_store_ok: "store_ok exact_faiss sample_store"
  by (simp add: store_ok_def sample_store_def exact_faiss_def lit_def)

theorem store_refines_map_witness:
  "contents (vector_delete exact_faiss [lit ''a''] sample_store) = contents sample_store |` {x. x \<noteq> lit ''a''}"
proof -
  have "- set [lit ''a''] = {x. x \<noteq> lit ''a''}" by auto
  then show ?thesis
    using store_refines_map [OF sample_store_ok exact_faiss_ok(2), of "[lit ''a'']" "[]" "[]"] by simp
qed

lemma store_search_sound_witness:
  "\<exists>h. store_search exact_faiss [1, 0] 1 sample_store = Inr [h] \<and>
     (\<exists>v. contents sample_store (sh_id h) = Some (v, sh_metadata h))"
proof -
  have "\<exists>hits. store_search exact_faiss [1, 0] 1 sample_store = Inr hits"
    by (simp add: store_search_def sample_store_def exact_faiss_def exact_found_def ranked_def py_nth_def)
  then obtain hits where h: "store_search exact_faiss [1, 0] 1 sample_store = Inr hits" by blast
  note s = store_search_sound [OF sample_store_ok exact_faiss_ok(1) _ h]
  then have "len hits = 1" by (simp add: sample_store_def)
  then obtain x where "hits = [x]" by (auto simp: length_Suc_conv)
  with h s show ?thesis by simp
qed

end
