(* ===== verification/Rag_Pipeline.thy ===== *)
theory Rag_Pipeline
  imports Rag_Store Json_Round_Trip
begin

text \<open>
  \<open>rag/pipeline.py\<close> and \<open>rag/rerank.py\<close>: indexing a document into the vector store and the keyword
  index, and answering a question from what they find. The PDF reader, the embedding model, the
  cross encoder and the chat model are parameters.
\<close>

section \<open>State\<close>

record rag_env =
  ra_nf :: numpy_faiss
  ra_reader :: "pystr \<Rightarrow> pdf_open"
  ra_embed_batch :: "pystr list \<Rightarrow> exn + real list list"
  ra_embed :: "pystr \<Rightarrow> exn + real list"
  ra_str :: "json \<Rightarrow> pystr"
  ra_chat :: "(pystr \<times> pystr) list \<Rightarrow> exn + pystr option"

text \<open>A reranker is its model's \<open>predict\<close>: one score for each pair of question and text.\<close>

record rag_pipeline =
  rp_store :: vector_store
  rp_keywords :: "bm25_index option"
  rp_reranker :: "((pystr \<times> json) list \<Rightarrow> exn + real list) option"
  rp_chunk_size :: int
  rp_overlap :: int
  rp_doc_chunks :: "(pystr, pystr list) dict"

section \<open>Indexing\<close>

definition chunk_id :: "pystr \<Rightarrow> int \<Rightarrow> int \<Rightarrow> pystr" where
  "chunk_id path page index = path @ lit '':'' @ int_text page @ lit '':'' @ int_text index"

text \<open>\<open>{**chunk.metadata, "source": path, "page": page, "text": chunk.text}\<close>.\<close>

definition document_chunk :: "pystr \<Rightarrow> int \<Rightarrow> int \<Rightarrow> chunk \<Rightarrow> chunk" where
  "document_chunk path page index c =
     \<lparr>ck_id = chunk_id path page index, ck_text = ck_text c,
      ck_metadata =
        dict_set (lit ''text'') (JStr (ck_text c))
          (dict_set (lit ''page'') (JInt page)
            (dict_set (lit ''source'') (JStr path) (ck_metadata c)))\<rparr>"

definition chunk_index :: "chunk \<Rightarrow> int" where
  "chunk_index c =
     (case dict_get (ck_metadata c) (lit ''chunk_index'') of Some (JInt i) \<Rightarrow> i | _ \<Rightarrow> 0)"

definition page_chunks :: "rag_pipeline \<Rightarrow> pystr \<Rightarrow> page_text \<Rightarrow> exn + chunk list" where
  "page_chunks p path page =
     rmap (map (\<lambda>c. document_chunk path (pg_page page) (chunk_index c) c))
       (chunk_text (pg_text page) (rp_chunk_size p) (rp_overlap p))"

definition document_chunks :: "rag_pipeline \<Rightarrow> pystr \<Rightarrow> page_text list \<Rightarrow> exn + chunk list" where
  "document_chunks p path pages = rmap concat (rmap_list (page_chunks p path) pages)"

text \<open>The old chunks go only when the new ones have been embedded; the books are kept last.\<close>

definition index_pdf :: "rag_env \<Rightarrow> pystr \<Rightarrow> rag_pipeline \<Rightarrow> (exn + int) \<times> rag_pipeline" where
  "index_pdf env path p =
     (case rbind (load_pdf (ra_reader env) path) (document_chunks p path) of
        Inl e \<Rightarrow> (Inl e, p)
      | Inr chunks \<Rightarrow>
          (case ra_embed_batch env (map ck_text chunks) of
             Inl e \<Rightarrow> (Inl e, p)
           | Inr vectors \<Rightarrow>
               let old = (case dict_get (rp_doc_chunks p) path of None \<Rightarrow> [] | Some ids \<Rightarrow> ids);
                   p1 = p\<lparr>rp_store := vector_delete (ra_nf env) old (rp_store p),
                          rp_keywords := map_option (bm25_delete old) (rp_keywords p)\<rparr>
               in case store_add (ra_nf env) (map ck_id chunks) vectors (Some (map ck_metadata chunks))
                         (rp_store p1) of
                    Inl e \<Rightarrow> (Inl e, p1)
                  | Inr store \<Rightarrow>
                      (Inr (len chunks),
                       p1\<lparr>rp_store := store,
                          rp_keywords := map_option (\<lambda>ix.
                            foldl (\<lambda>i c. bm25_add (ck_id c) (ck_text c) (Some (ck_metadata c)) i) ix chunks)
                            (rp_keywords p1),
                          rp_doc_chunks := dict_set path (map ck_id chunks) (rp_doc_chunks p1)\<rparr>)))"

section \<open>Asking\<close>

record source =
  so_id :: pystr
  so_number :: int
  so_score :: real
  so_metadata :: "(pystr, json) dict"

record answer =
  an_text :: pystr
  an_sources :: "source list"

text \<open>\<open>hit.text\<close> and \<open>source.text\<close>.\<close>

definition metadata_text :: "(pystr, json) dict \<Rightarrow> exn + json" where
  "metadata_text m =
     (case dict_get m (lit ''text'') of None \<Rightarrow> Inl (missing_key (lit ''text'')) | Some v \<Rightarrow> Inr v)"

text \<open>\<open>CrossEncoderReranker.rerank\<close>; \<open>zip(..., strict=True)\<close> raises for a wrong number of scores.\<close>

definition rerank ::
  "((pystr \<times> json) list \<Rightarrow> exn + real list) \<Rightarrow> pystr \<Rightarrow> search_hit list \<Rightarrow> int \<Rightarrow> exn + search_hit list" where
  "rerank predict query hits top_k =
     (if hits = [] then Inr []
      else rbind (rmap_list (\<lambda>h. rmap (\<lambda>t. (query, t)) (metadata_text (sh_metadata h))) hits) (\<lambda>pairs.
           rbind (predict pairs) (\<lambda>scores.
             if length scores \<noteq> length hits then
               Inl (Exn PyValueError
                 (lit ''zip() argument 2 is '' @
                  (if length hits < length scores then lit ''shorter'' else lit ''longer'') @
                  lit '' than argument 1'') [] None)
             else Inr (py_slice (ranked sh_score
               (map (\<lambda>(score, h). \<lparr>sh_id = sh_id h, sh_score = score, sh_metadata = sh_metadata h\<rparr>)
                 (zip scores hits))) 0 top_k))))"

definition number_sources :: "search_hit list \<Rightarrow> source list" where
  "number_sources hits =
     map (\<lambda>(i, h). \<lparr>so_id = sh_id h, so_number = int i + 1, so_score = sh_score h,
                    so_metadata = sh_metadata h\<rparr>) (zip [0..<length hits] hits)"

definition json_str :: "rag_env \<Rightarrow> json \<Rightarrow> pystr" where
  "json_str env v = (case v of JStr s \<Rightarrow> s | _ \<Rightarrow> ra_str env v)"

definition source_line :: "rag_env \<Rightarrow> source \<Rightarrow> exn + pystr" where
  "source_line env s =
     rmap (\<lambda>t. lit ''['' @ int_text (so_number s) @ lit ''] '' @ json_str env t)
       (metadata_text (so_metadata s))"

definition system_text :: pystr where
  "system_text =
     [20320, 26159, 30693, 35782, 24211, 21161, 25163, 12290] @
     [21482, 33021, 26681, 25454, 19978, 19979, 25991, 22238, 31572, 38382, 39064, 12290] @
     [19981, 30693, 36947, 23601, 35828, 19981, 30693, 36947] @ lit '', '' @ [19981, 35201, 33258, 24049, 29468, 24819, 12290] @
     [22238, 31572, 26102, 35831, 29992] @ lit '' ['' @ [32534, 21495] @ lit ''] '' @ [26631, 27880, 20320, 24341, 29992, 20102, 21738, 27573, 19978, 19979, 25991, 12290]"

definition indent :: pystr where
  "indent = lit ''        ''"

definition user_text :: "pystr \<Rightarrow> pystr \<Rightarrow> pystr" where
  "user_text context question =
     [10] @ indent @ [19978, 19979, 25991] @ lit '':'' @ [10] @ indent @ context @ [10] @
     indent @ [38382, 39064] @ lit '':'' @ [10] @ indent @ question @ [10] @ indent"

definition rag_messages :: "pystr \<Rightarrow> pystr \<Rightarrow> (pystr \<times> pystr) list" where
  "rag_messages context question =
     [(lit ''system'', system_text), (lit ''user'', user_text context question)]"

text \<open>\<open>fetch_k or top_k\<close>.\<close>

definition fetch_count :: "int \<Rightarrow> int option \<Rightarrow> int" where
  "fetch_count top_k fetch_k =
     (case fetch_k of None \<Rightarrow> top_k | Some n \<Rightarrow> if n = 0 then top_k else n)"

text \<open>The candidates for the context.\<close>

definition retrieve ::
  "rag_env \<Rightarrow> pystr \<Rightarrow> int \<Rightarrow> rag_pipeline \<Rightarrow> exn + search_hit list" where
  "retrieve env question fetch p =
     rbind (ra_embed env question) (\<lambda>query_vector.
     rbind (store_search (ra_nf env) query_vector fetch (rp_store p)) (\<lambda>dense.
       case rp_keywords p of
         None \<Rightarrow> Inr dense
       | Some ix \<Rightarrow> rbind (bm25_search ix question fetch) (\<lambda>sparse. rrf_fuse dense sparse fetch 60)))"

text \<open>The request sent to the model, if any, and the answer.\<close>

definition ask ::
  "rag_env \<Rightarrow> pystr \<Rightarrow> int \<Rightarrow> int option \<Rightarrow> rag_pipeline \<Rightarrow>
   (pystr \<times> pystr) list option \<times> (exn + answer)" where
  "ask env question top_k fetch_k p =
     (case retrieve env question (fetch_count top_k fetch_k) p of
        Inl e \<Rightarrow> (None, Inl e)
      | Inr hits \<Rightarrow>
          if hits = [] then
            (None, Inr \<lparr>an_text = [30693, 35782, 24211, 20013, 27809, 26377, 25214, 21040, 30456, 20851, 20869, 23481], an_sources = []\<rparr>)
          else
            (case (case rp_reranker p of
                     None \<Rightarrow> Inr hits
                   | Some predict \<Rightarrow> rerank predict question hits top_k) of
               Inl e \<Rightarrow> (None, Inl e)
             | Inr hits' \<Rightarrow>
                 (let sources = number_sources hits'
                  in case rmap_list (source_line env) sources of
                       Inl e \<Rightarrow> (None, Inl e)
                     | Inr ls \<Rightarrow>
                         (let messages = rag_messages (py_join [10, 10] ls) question
                          in (Some messages,
                              rmap (\<lambda>content.
                                \<lparr>an_text = (case content of None \<Rightarrow> [] | Some t \<Rightarrow> t),
                                 an_sources = sources\<rparr>) (ra_chat env messages))))))"

section \<open>Identifiers\<close>

lemma is_digit_not_colon: "list_all is_digit ds \<Longrightarrow> 58 \<notin> set ds \<and> 45 \<notin> set ds"
  by (auto simp: list_all_iff is_digit_def)

lemma int_text_no_colon: "58 \<notin> set (int_text i)"
  using nat_digits_props [of "\<bar>i\<bar>"] is_digit_not_colon by (auto simp: int_text_def abs_if)

lemma int_text_inj: "int_text i = int_text j \<Longrightarrow> i = j"
proof -
  assume h: "int_text i = int_text j"
  have m: "45 \<notin> set (nat_digits n)" "digits_value (nat_digits n) = n" if "0 \<le> n" for n
    using nat_digits_props [OF that] is_digit_not_colon by blast+
  have "i < 0 \<longleftrightarrow> 45 \<in> set (int_text i)" for i
    using m(1) [of i] by (cases "i < 0") (simp_all add: int_text_def)
  with h have "i < 0 \<longleftrightarrow> j < 0" by metis
  with h have "nat_digits \<bar>i\<bar> = nat_digits \<bar>j\<bar>"
    by (cases "i < 0"; cases "j < 0") (simp_all add: int_text_def)
  then have "\<bar>i\<bar> = \<bar>j\<bar>" by (metis abs_ge_zero m(2))
  with \<open>i < 0 \<longleftrightarrow> j < 0\<close> show ?thesis by (auto simp: abs_if split: if_splits)
qed

lemma last_separator:
  assumes "xs @ c # ys = xs' @ c # ys'" "c \<notin> set ys" "c \<notin> set ys'"
  shows "xs = xs' \<and> ys = ys'"
  using assms by (auto simp: append_eq_append_conv2 append_eq_Cons_conv Cons_eq_append_conv)

lemma chunk_id_inj:
  assumes "chunk_id path page index = chunk_id path' page' index'"
  shows "path = path' \<and> page = page' \<and> index = index'"
proof -
  have colon: "lit '':'' = [58]" by (simp add: lit_def)
  from assms have "(path @ 58 # int_text page) @ 58 # int_text index =
      (path' @ 58 # int_text page') @ 58 # int_text index'"
    by (simp add: chunk_id_def colon)
  from last_separator [OF this int_text_no_colon int_text_no_colon]
  have a: "path @ 58 # int_text page = path' @ 58 # int_text page'" "int_text index = int_text index'"
    by blast+
  from last_separator [OF a(1) int_text_no_colon int_text_no_colon] a(2) show ?thesis
    using int_text_inj by blast
qed

definition belongs :: "pystr \<Rightarrow> pystr \<Rightarrow> bool" where
  "belongs path i \<longleftrightarrow> (\<exists>page index. i = chunk_id path page index)"

lemma belongs_one: "belongs path i \<Longrightarrow> belongs path' i \<Longrightarrow> path = path'"
  unfolding belongs_def using chunk_id_inj by blast

lemma chunk_indices:
  "distinct (map chunk_index (chunks_from s sz step start n)) \<and>
   (\<forall>c \<in> set (chunks_from s sz step start n). n \<le> chunk_index c)"
proof (induction s sz step start n rule: chunks_from.induct)
  case (1 s sz step start n)
  show ?case
  proof (cases "start < len s \<and> 0 < step")
    case True
    with 1 have ih: "distinct (map chunk_index (chunks_from s sz step (start + step) (n + 1)))"
        "\<forall>c \<in> set (chunks_from s sz step (start + step) (n + 1)). n + 1 \<le> chunk_index c" by blast+
    have "chunks_from s sz step start n = make_chunk n (py_slice s start (start + sz)) #
        chunks_from s sz step (start + step) (n + 1)"
      using True by (subst chunks_from.simps) simp
    moreover have "chunk_index (make_chunk n x) = n" for x
      by (simp add: chunk_index_def make_chunk_def)
    ultimately show ?thesis using ih by (force simp: Ball_def)
  next
    case False
    then have "chunks_from s sz step start n = []" by (subst chunks_from.simps) simp
    then show ?thesis by simp
  qed
qed

lemma page_chunk_ids:
  assumes "page_chunks p path page = Inr cs"
  shows "distinct (map ck_id cs)" "\<forall>c \<in> set cs. \<exists>index. ck_id c = chunk_id path (pg_page page) index"
proof -
  from assms obtain raw where raw: "chunk_text (pg_text page) (rp_chunk_size p) (rp_overlap p) = Inr raw"
      "cs = map (\<lambda>c. document_chunk path (pg_page page) (chunk_index c) c) raw"
    by (auto simp: page_chunks_def)
  have "distinct (map chunk_index raw)"
    using raw(1) chunk_indices by (auto simp: chunk_text_def split: if_splits)
  moreover have "inj_on (\<lambda>i. chunk_id path (pg_page page) i) A" for A
    using chunk_id_inj by (auto intro!: inj_onI)
  ultimately have "distinct (map (\<lambda>i. chunk_id path (pg_page page) i) (map chunk_index raw))"
    by (simp only: distinct_map)
  then show "distinct (map ck_id cs)" by (simp add: raw(2) document_chunk_def comp_def)
  show "\<forall>c \<in> set cs. \<exists>index. ck_id c = chunk_id path (pg_page page) index"
    by (auto simp: raw(2) document_chunk_def)
qed

lemma document_chunk_ids:
  assumes "document_chunks p path pages = Inr cs" "distinct (map pg_page pages)"
  shows "distinct (map ck_id cs)" "\<forall>c \<in> set cs. belongs path (ck_id c)"
proof -
  have "distinct (map ck_id (concat css)) \<and>
      (\<forall>c \<in> set (concat css). \<exists>page \<in> pg_page ` set pages. \<exists>index. ck_id c = chunk_id path page index)"
    if "rmap_list (page_chunks p path) pages = Inr css" for css
    using that assms(2)
  proof (induction pages arbitrary: css)
    case (Cons page pages)
    then obtain c css' where c: "page_chunks p path page = Inr c"
        "rmap_list (page_chunks p path) pages = Inr css'" "css = c # css'" by auto
    note one = page_chunk_ids [OF c(1)]
    from Cons.IH [OF c(2)] Cons.prems(2) have rest: "distinct (map ck_id (concat css'))"
        "\<forall>x \<in> set (concat css'). \<exists>pg \<in> pg_page ` set pages. \<exists>index. ck_id x = chunk_id path pg index"
      by simp_all
    have "ck_id x \<noteq> ck_id y" if "x \<in> set c" "y \<in> set (concat css')" for x y
      using one(2) rest(2) that Cons.prems(2) chunk_id_inj by (metis distinct.simps(2) list.simps(9) list.set_map)
    then have "set (map ck_id c) \<inter> set (map ck_id (concat css')) = {}" by auto
    with one(1) rest(1) have "distinct (map ck_id (concat css))" by (simp add: c(3))
    with one(2) rest(2) show ?case by (fastforce simp: c(3))
  qed simp
  moreover from assms(1) obtain css where
      "rmap_list (page_chunks p path) pages = Inr css" "cs = concat css"
    by (auto simp: document_chunks_def)
  ultimately show "distinct (map ck_id cs)" "\<forall>c \<in> set cs. belongs path (ck_id c)"
    unfolding belongs_def by blast+
qed

end
