(* ===== verification/Rag_Index.thy ===== *)
theory Rag_Index
  imports Rag_Pipeline
begin

text \<open>
  What indexing and asking keep: the contract \<open>RAGPipeline\<close> expects of a store, the two stores that
  meet it, the books the pipeline keeps about its documents, and the answers.
\<close>

section \<open>The contract of a store\<close>

text \<open>
  A store stands for a finite map. Deleting removes keys; inserting distinct keys either fails or
  puts them in.
\<close>

locale keyed_store =
  fixes ok :: "'s \<Rightarrow> bool"
    and abs :: "'s \<Rightarrow> 'k \<rightharpoonup> 'w"
    and del :: "'k list \<Rightarrow> 's \<Rightarrow> 's"
    and ins :: "'k list \<Rightarrow> 'v list \<Rightarrow> 's \<Rightarrow> exn + 's"
    and conv :: "'v \<Rightarrow> 'w"
  assumes del_ok: "ok s \<Longrightarrow> ok (del ks s)"
    and del_abs: "ok s \<Longrightarrow> abs (del ks s) = abs s |` (- set ks)"
    and ins_ok: "ok s \<Longrightarrow> distinct ks \<Longrightarrow> ins ks vs s = Inr s' \<Longrightarrow> ok s'"
    and ins_abs: "ok s \<Longrightarrow> distinct ks \<Longrightarrow> length ks = length vs \<Longrightarrow> ins ks vs s = Inr s' \<Longrightarrow>
      abs s' = abs s ++ map_of (zip ks (map conv vs))"
begin

text \<open>Replacing the entries of one owner by others of the same owner.\<close>

lemma replace:
  assumes "ok s" "distinct ks" "length ks = length vs" "ins ks vs (del old s) = Inr s'"
    and "\<forall>k \<in> set old \<union> set ks. mine k" "\<forall>k \<in> dom (abs s). mine k \<longrightarrow> k \<in> set old"
  shows "ok s'" "\<not> mine k \<Longrightarrow> abs s' k = abs s k"
    "mine k \<Longrightarrow> abs s' k = map_of (zip ks (map conv vs)) k"
proof -
  note d = del_ok [OF assms(1), of old]
  from d assms(2,4) show "ok s'" by (rule ins_ok)
  have a: "abs s' = abs s |` (- set old) ++ map_of (zip ks (map conv vs))"
    using ins_abs [OF d assms(2-4)] del_abs [OF assms(1)] by simp
  have "map_of (zip ks (map conv vs)) k = None" if "\<not> mine k" for k
    using that assms(5) by (auto simp: map_of_eq_None_iff dest: set_zip_leftD)
  then show "\<not> mine k \<Longrightarrow> abs s' k = abs s k"
    using assms(5) by (auto simp: a map_add_def restrict_map_def)
  show "mine k \<Longrightarrow> abs s' k = map_of (zip ks (map conv vs)) k"
    using assms(6) by (auto simp: a map_add_def restrict_map_def split: option.splits)
qed

lemma keep_others:
  assumes "ok s" "\<forall>k \<in> set old. mine k" "\<not> mine k"
  shows "abs (del old s) k = abs s k"
  using assms by (auto simp: del_abs restrict_map_def)

end

section \<open>The two stores\<close>

definition insert_vectors ::
  "numpy_faiss \<Rightarrow> pystr list \<Rightarrow> (real list \<times> (pystr, json) dict) list \<Rightarrow> vector_store \<Rightarrow>
   exn + vector_store" where
  "insert_vectors nf ids es vs = store_add nf ids (map fst es) (Some (map snd es)) vs"

definition stored_entry ::
  "numpy_faiss \<Rightarrow> real list \<times> (pystr, json) dict \<Rightarrow> real list \<times> (pystr, json) dict" where
  "stored_entry nf e = (map (nf_float32 nf) (fst e), snd e)"

text \<open>The laws of the vector store hold when conversions to 32 bits are stable.\<close>

definition vectors_ok :: "numpy_faiss \<Rightarrow> vector_store \<Rightarrow> bool" where
  "vectors_ok nf vs \<longleftrightarrow> store_ok nf vs \<and> float32_stable nf"

lemma zip_entries:
  "zip ids (zip (map (map f) (map fst es)) (map snd es)) =
   zip ids (map (\<lambda>e. (map f (fst e), snd e)) es)"
proof -
  have "zip (map (map f) (map fst es)) (map snd es) = map (\<lambda>e. (map f (fst e), snd e)) es"
    by (induction es) simp_all
  then show ?thesis by (simp only:)
qed

interpretation vectors: keyed_store "vectors_ok nf" contents "vector_delete nf" "insert_vectors nf"
    "stored_entry nf" for nf
proof unfold_locales
  fix s :: vector_store and s' ks es
  show "vectors_ok nf s \<Longrightarrow> vectors_ok nf (vector_delete nf ks s)"
    by (simp add: vectors_ok_def vector_deleted)
  show "vectors_ok nf s \<Longrightarrow> contents (vector_delete nf ks s) = contents s |` (- set ks)"
    by (simp add: vectors_ok_def contents_delete)
  show "vectors_ok nf s \<Longrightarrow> distinct ks \<Longrightarrow> insert_vectors nf ks es s = Inr s' \<Longrightarrow> vectors_ok nf s'"
    by (auto simp: vectors_ok_def insert_vectors_def intro: store_ok_add)
  show "vectors_ok nf s \<Longrightarrow> distinct ks \<Longrightarrow> length ks = length es \<Longrightarrow>
      insert_vectors nf ks es s = Inr s' \<Longrightarrow>
      contents s' = contents s ++ map_of (zip ks (map (stored_entry nf) es))"
    using contents_add [of nf s ks "map fst es" "Some (map snd es)" s']
    by (simp add: vectors_ok_def insert_vectors_def stored_entry_def [abs_def] zip_entries del: map_map)
qed

text \<open>\<open>BM25Index.add\<close> for one chunk after the other never fails.\<close>

definition insert_texts ::
  "pystr list \<Rightarrow> (pystr \<times> (pystr, json) dict) list \<Rightarrow> bm25_index \<Rightarrow> exn + bm25_index" where
  "insert_texts ids es ix =
     Inr (foldl (\<lambda>i (k, s, m). bm25_add k s (Some m) i) ix (zip ids es))"

lemma insert_texts_get:
  assumes "distinct ids"
  shows "dict_get (bm_docs (foldl (\<lambda>i (k, s, m). bm25_add k s (Some m) i) ix (zip ids es))) =
    dict_get (bm_docs ix) ++ map_of (zip ids (map fst es))"
  using assms
proof (induction ids arbitrary: ix es)
  case (Cons i ids)
  show ?case
  proof (cases es)
    case (Cons e es')
    have "map_of (zip ids (map fst es')) i = None"
      using Cons.prems by (auto simp: map_of_eq_None_iff dest: set_zip_leftD)
    with Cons Cons.IH [of "bm25_add i (fst e) (Some (snd e)) ix" es'] Cons.prems show ?thesis
      by (auto simp: bm25_add_def map_add_def fun_eq_iff split_beta split: option.splits)
  qed simp
qed simp

interpretation texts: keyed_store bm25_ok "\<lambda>ix. dict_get (bm_docs ix)" bm25_delete insert_texts fst
proof unfold_locales
  fix s :: bm25_index and s' ks es
  show "bm25_ok s \<Longrightarrow> bm25_ok (bm25_delete ks s)" by (rule bm25_ok_delete)
  show "bm25_ok s \<Longrightarrow> dict_get (bm_docs (bm25_delete ks s)) = dict_get (bm_docs s) |` (- set ks)"
    by (auto simp: bm25_delete_docs restrict_map_def fun_eq_iff)
  have "bm25_ok s \<Longrightarrow> bm25_ok (foldl (\<lambda>i (k, s, m). bm25_add k s (Some m) i) s xs)" for xs
    by (induction xs arbitrary: s) (auto intro: bm25_ok_add)
  then show "bm25_ok s \<Longrightarrow> distinct ks \<Longrightarrow> insert_texts ks es s = Inr s' \<Longrightarrow> bm25_ok s'"
    by (auto simp: insert_texts_def)
  show "bm25_ok s \<Longrightarrow> distinct ks \<Longrightarrow> length ks = length es \<Longrightarrow> insert_texts ks es s = Inr s' \<Longrightarrow>
      dict_get (bm_docs s') = dict_get (bm_docs s) ++ map_of (zip ks (map fst es))"
    by (auto simp: insert_texts_def insert_texts_get)
qed

section \<open>The books of the pipeline\<close>

definition booked :: "rag_pipeline \<Rightarrow> pystr set \<Rightarrow> bool" where
  "booked p K \<longleftrightarrow> (\<forall>i \<in> K. \<exists>path ids. dict_get (rp_doc_chunks p) path = Some ids \<and> i \<in> set ids)"

definition has_text :: "(pystr, json) dict \<Rightarrow> bool" where
  "has_text m \<longleftrightarrow> (\<exists>t. dict_get m (lit ''text'') = Some (JStr t))"

text \<open>
  Both stores are well formed, every identifier in them is in the books of its document, and the
  books of a document name only chunks of that document; every vector carries its text.
\<close>

definition pipeline_ok :: "rag_env \<Rightarrow> rag_pipeline \<Rightarrow> bool" where
  "pipeline_ok env p \<longleftrightarrow>
     vectors_ok (ra_nf env) (rp_store p) \<and> booked p (dom (contents (rp_store p))) \<and>
     (\<forall>i v m. contents (rp_store p) i = Some (v, m) \<longrightarrow> has_text m) \<and>
     (\<forall>ix. rp_keywords p = Some ix \<longrightarrow> bm25_ok ix \<and> booked p (dom (dict_get (bm_docs ix)))) \<and>
     (\<forall>path ids. dict_get (rp_doc_chunks p) path = Some ids \<longrightarrow> (\<forall>i \<in> set ids. belongs path i))"

abbreviation old_chunks :: "rag_pipeline \<Rightarrow> pystr \<Rightarrow> pystr list" where
  "old_chunks p path \<equiv> (case dict_get (rp_doc_chunks p) path of None \<Rightarrow> [] | Some ids \<Rightarrow> ids)"

lemma old_chunks_belong: "pipeline_ok env p \<Longrightarrow> i \<in> set (old_chunks p path) \<Longrightarrow> belongs path i"
  by (cases "dict_get (rp_doc_chunks p) path") (auto simp: pipeline_ok_def)

lemma booked_old:
  assumes "pipeline_ok env p" "booked p K" "i \<in> K" "belongs path i"
  shows "i \<in> set (old_chunks p path)"
proof -
  from assms(2,3) obtain path' ids where h: "dict_get (rp_doc_chunks p) path' = Some ids" "i \<in> set ids"
    by (auto simp: booked_def)
  with assms(1) have "belongs path' i" by (auto simp: pipeline_ok_def)
  from belongs_one [OF this assms(4)] have "path' = path" .
  with h show ?thesis by simp
qed

text \<open>What a document is turned into: its chunks and their vectors.\<close>

definition prepared :: "rag_env \<Rightarrow> pystr \<Rightarrow> rag_pipeline \<Rightarrow> exn + (chunk list \<times> real list list)" where
  "prepared env path p =
     rbind (rbind (load_pdf (ra_reader env) path) (document_chunks p path)) (\<lambda>chunks.
       rmap (\<lambda>vectors. (chunks, vectors)) (ra_embed_batch env (map ck_text chunks)))"

definition vector_entries :: "chunk list \<Rightarrow> real list list \<Rightarrow> (real list \<times> (pystr, json) dict) list" where
  "vector_entries chunks vectors = zip vectors (map ck_metadata chunks)"

definition text_entries :: "chunk list \<Rightarrow> (pystr \<times> (pystr, json) dict) list" where
  "text_entries chunks = map (\<lambda>c. (ck_text c, ck_metadata c)) chunks"

lemma index_pdf_cases:
  "index_pdf env path p =
     (case prepared env path p of
        Inl e \<Rightarrow> (Inl e, p)
      | Inr (chunks, vectors) \<Rightarrow>
          let p1 = p\<lparr>rp_store := vector_delete (ra_nf env) (old_chunks p path) (rp_store p),
                     rp_keywords := map_option (bm25_delete (old_chunks p path)) (rp_keywords p)\<rparr>
          in case store_add (ra_nf env) (map ck_id chunks) vectors (Some (map ck_metadata chunks))
                    (rp_store p1) of
               Inl e \<Rightarrow> (Inl e, p1)
             | Inr store \<Rightarrow>
                 (Inr (len chunks),
                  p1\<lparr>rp_store := store,
                     rp_keywords := map_option (\<lambda>ix.
                       foldl (\<lambda>i c. bm25_add (ck_id c) (ck_text c) (Some (ck_metadata c)) i) ix chunks)
                       (rp_keywords p1),
                     rp_doc_chunks := dict_set path (map ck_id chunks) (rp_doc_chunks p1)\<rparr>))"
  by (cases "rbind (load_pdf (ra_reader env) path) (document_chunks p path)")
    (auto simp: index_pdf_def prepared_def Let_def split: sum.splits)

lemma page_chunks_nonempty:
  assumes "page_chunks p path page = Inr cs" "pg_text page \<noteq> []"
  shows "cs \<noteq> []"
proof -
  from assms obtain raw where raw: "raw = chunks_from (pg_text page) (rp_chunk_size p)
        (rp_chunk_size p - rp_overlap p) 0 0" "rp_overlap p < rp_chunk_size p"
      "cs = map (\<lambda>c. document_chunk path (pg_page page) (chunk_index c) c) raw"
    by (auto simp: page_chunks_def chunk_text_def split: if_splits)
  then have "raw \<noteq> []" using assms(2) by (subst raw(1), subst chunks_from.simps) simp
  with raw(3) show ?thesis by simp
qed

lemma prepared_chunks:
  assumes "prepared env path p = Inr (chunks, vectors)"
  shows "distinct (map ck_id chunks)" "\<forall>c \<in> set chunks. belongs path (ck_id c)"
    "\<forall>c \<in> set chunks. has_text (ck_metadata c)" "chunks \<noteq> []"
proof -
  from assms obtain pages where p: "load_pdf (ra_reader env) path = Inr pages"
      "document_chunks p path pages = Inr chunks" by (auto simp: prepared_def)
  show "distinct (map ck_id chunks)" "\<forall>c \<in> set chunks. belongs path (ck_id c)"
    using document_chunk_ids [OF p(2) load_pdf_pages(2) [OF p(1)]] by blast+
  from p(2) obtain css where css: "rmap_list (page_chunks p path) pages = Inr css" "chunks = concat css"
    by (auto simp: document_chunks_def)
  have "\<forall>c \<in> set cs. has_text (ck_metadata c)" if "page_chunks p path page = Inr cs" for page cs
    using that by (auto simp: page_chunks_def document_chunk_def has_text_def)
  with css show "\<forall>c \<in> set chunks. has_text (ck_metadata c)"
    by (fastforce simp: rmap_list_Inr list_all2_conv_all_nth in_set_conv_nth)
  from load_pdf_pages [OF p(1)] obtain page pages' where "pages = page # pages'" "pg_text page \<noteq> []"
    by (cases pages) auto
  with css show "chunks \<noteq> []" using page_chunks_nonempty by auto
qed

lemma insert_chunks:
  "foldl (\<lambda>i c. bm25_add (ck_id c) (ck_text c) (Some (ck_metadata c)) i) ix chunks =
   foldl (\<lambda>i (k, s, m). bm25_add k s (Some m) i) ix (zip (map ck_id chunks) (text_entries chunks))"
  by (induction chunks arbitrary: ix) (auto simp: text_entries_def)

text \<open>The two stores after a document was indexed.\<close>

lemma indexed_stores:
  assumes "pipeline_ok env p" "prepared env path p = Inr (chunks, vectors)"
    and "index_pdf env path p = (Inr n, p')"
  shows "length vectors = length chunks" "n = len chunks"
    and "rp_doc_chunks p' = dict_set path (map ck_id chunks) (rp_doc_chunks p)"
    and "vectors_ok (ra_nf env) (rp_store p')"
    and "\<not> belongs path i \<Longrightarrow> contents (rp_store p') i = contents (rp_store p) i"
    and "belongs path i \<Longrightarrow> contents (rp_store p') i =
      map_of (zip (map ck_id chunks) (map (stored_entry (ra_nf env)) (vector_entries chunks vectors))) i"
    and "rp_chunk_size p' = rp_chunk_size p" "rp_overlap p' = rp_overlap p"
proof -
  let ?nf = "ra_nf env" and ?old = "old_chunks p path" and ?ids = "map ck_id chunks"
  let ?es = "vector_entries chunks vectors"
  note c = prepared_chunks [OF assms(2)]
  from assms(2,3) have a: "store_add ?nf ?ids vectors (Some (map ck_metadata chunks))
        (vector_delete ?nf ?old (rp_store p)) = Inr (rp_store p')"
      and r: "n = len chunks" "rp_doc_chunks p' = dict_set path ?ids (rp_doc_chunks p)"
        "rp_chunk_size p' = rp_chunk_size p" "rp_overlap p' = rp_overlap p"
    by (auto simp: index_pdf_cases Let_def split: sum.splits)
  from store_added(1) [OF a] c(4) show len: "length vectors = length chunks" by simp
  show "n = len chunks" "rp_doc_chunks p' = dict_set path ?ids (rp_doc_chunks p)"
    "rp_chunk_size p' = rp_chunk_size p" "rp_overlap p' = rp_overlap p" by (rule r)+
  have ins: "insert_vectors ?nf ?ids ?es (vector_delete ?nf ?old (rp_store p)) = Inr (rp_store p')"
    using a len by (simp add: insert_vectors_def vector_entries_def)
  have ok: "vectors_ok ?nf (rp_store p)" using assms(1) by (simp add: pipeline_ok_def)
  have mine: "\<forall>k \<in> set ?old \<union> set ?ids. belongs path k"
    using old_chunks_belong [OF assms(1)] c(2) by auto
  have all: "\<forall>k \<in> dom (contents (rp_store p)). belongs path k \<longrightarrow> k \<in> set ?old"
    using booked_old [OF assms(1)] assms(1) unfolding pipeline_ok_def by blast
  note v = vectors.replace [OF ok c(1) _ ins mine all]
  have l: "length ?ids = length ?es" using len by (simp add: vector_entries_def)
  show "vectors_ok ?nf (rp_store p')" by (rule v(1) [OF l])
  show "\<not> belongs path i \<Longrightarrow> contents (rp_store p') i = contents (rp_store p) i" by (rule v(2) [OF l])
  show "belongs path i \<Longrightarrow> contents (rp_store p') i =
      map_of (zip ?ids (map (stored_entry ?nf) ?es)) i" by (rule v(3) [OF l])
qed


text \<open>The keyword index, when there is one, follows.\<close>

lemma indexed_keywords:
  assumes "pipeline_ok env p" "prepared env path p = Inr (chunks, vectors)"
    and "index_pdf env path p = (Inr n, p')" "rp_keywords p' = Some ix'"
  shows "\<exists>ix. rp_keywords p = Some ix \<and> bm25_ok ix' \<and>
     (\<forall>i. dict_get (bm_docs ix') i =
       (if belongs path i then map_of (zip (map ck_id chunks) (map ck_text chunks)) i
        else dict_get (bm_docs ix) i))"
proof -
  let ?old = "old_chunks p path" and ?ids = "map ck_id chunks"
  note c = prepared_chunks [OF assms(2)]
  from assms(2-4) obtain ix where ix: "rp_keywords p = Some ix"
      "insert_texts ?ids (text_entries chunks) (bm25_delete ?old ix) = Inr ix'"
    by (auto simp: index_pdf_cases Let_def insert_texts_def insert_chunks split: sum.splits)
  have ok: "bm25_ok ix" "booked p (dom (dict_get (bm_docs ix)))"
    using assms(1) ix(1) by (simp_all add: pipeline_ok_def)
  have mine: "\<forall>k \<in> set ?old \<union> set ?ids. belongs path k"
    using old_chunks_belong [OF assms(1)] c(2) by auto
  have all: "\<forall>k \<in> dom (dict_get (bm_docs ix)). belongs path k \<longrightarrow> k \<in> set ?old"
    using booked_old [OF assms(1) ok(2)] by blast
  have l: "length ?ids = length (text_entries chunks)" by (simp add: text_entries_def)
  note t = texts.replace [OF ok(1) c(1) l ix(2) mine all]
  have "map fst (text_entries chunks) = map ck_text chunks" by (simp add: text_entries_def)
  with t ix(1) show ?thesis by auto
qed

lemma dom_entry:
  "map_of (zip (map ck_id chunks) (map f es)) i = Some e \<Longrightarrow>
   i \<in> ck_id ` set chunks \<and> e \<in> f ` set es"
  by (auto dest!: map_of_SomeD simp: set_zip)

lemma indexed_ok:
  assumes "pipeline_ok env p" "prepared env path p = Inr (chunks, vectors)"
    and "index_pdf env path p = (Inr n, p')"
  shows "pipeline_ok env p'"
proof -
  note s = indexed_stores [OF assms] and k = indexed_keywords [OF assms]
  note c = prepared_chunks [OF assms(2)]
  have here: "booked p' K" if "booked p (K - Collect (belongs path))"
    "\<forall>i \<in> K. belongs path i \<longrightarrow> i \<in> ck_id ` set chunks" for K
    unfolding booked_def
  proof
    fix i assume i: "i \<in> K"
    show "\<exists>path' ids. dict_get (rp_doc_chunks p') path' = Some ids \<and> i \<in> set ids"
    proof (cases "belongs path i")
      case True
      with that(2) i s(3) show ?thesis by (intro exI [of _ path]) auto
    next
      case False
      with that(1) i obtain path' ids where o: "dict_get (rp_doc_chunks p) path' = Some ids" "i \<in> set ids"
        unfolding booked_def by blast
      with assms(1) have "belongs path' i" by (auto simp: pipeline_ok_def)
      with False have "path' \<noteq> path" by auto
      with o s(3) show ?thesis by (intro exI [of _ path'] exI [of _ ids]) simp
    qed
  qed
  have sub: "booked p (L - M)" if "booked p L'" "L - M \<subseteq> L'" for L L' M
    using that unfolding booked_def by blast
  have "booked p (dom (contents (rp_store p)))" using assms(1) by (simp add: pipeline_ok_def)
  then have b1: "booked p' (dom (contents (rp_store p')))"
    by (rule here [OF sub]) (use s(5,6) dom_entry in \<open>fastforce+\<close>)
  have t: "has_text m" if e: "contents (rp_store p') i = Some (v, m)" for i v m
  proof (cases "belongs path i")
    case True
    with e s(6) have "(v, m) \<in> stored_entry (ra_nf env) ` set (vector_entries chunks vectors)"
      using dom_entry by metis
    then show ?thesis using c(3) by (auto simp: stored_entry_def vector_entries_def dest!: set_zip_rightD)
  next
    case False
    with e s(5) assms(1) show ?thesis by (simp add: pipeline_ok_def)
  qed
  have b2: "bm25_ok ix' \<and> booked p' (dom (dict_get (bm_docs ix')))" if h: "rp_keywords p' = Some ix'" for ix'
  proof -
    from k [OF h] obtain ix where ix: "rp_keywords p = Some ix" "bm25_ok ix'"
        "\<forall>i. dict_get (bm_docs ix') i =
           (if belongs path i then map_of (zip (map ck_id chunks) (map ck_text chunks)) i
            else dict_get (bm_docs ix) i)" by blast
    from ix(1) assms(1) have "booked p (dom (dict_get (bm_docs ix)))" by (simp add: pipeline_ok_def)
    then have "booked p' (dom (dict_get (bm_docs ix')))"
      by (rule here [OF sub]) (use ix(3) dom_entry in \<open>fastforce+\<close>)
    with ix(2) show ?thesis by blast
  qed
  have "\<forall>path' ids. dict_get (rp_doc_chunks p') path' = Some ids \<longrightarrow> (\<forall>i \<in> set ids. belongs path' i)"
    using assms(1) c(2) by (auto simp: s(3) pipeline_ok_def)
  with s(4) b1 t b2 show ?thesis unfolding pipeline_ok_def by blast
qed

lemma pipeline_ok_unbook:
  assumes "pipeline_ok env p"
  shows "pipeline_ok env
    (p\<lparr>rp_store := vector_delete (ra_nf env) ids (rp_store p),
       rp_keywords := map_option (bm25_delete ids) (rp_keywords p)\<rparr>)"
  using assms
  by (auto simp: pipeline_ok_def booked_def vectors.del_ok vectors.del_abs texts.del_ok texts.del_abs
      restrict_map_def domIff split: if_splits)

text \<open>
  C33. Indexing a document replaces it: whatever was stored of it before, afterwards exactly its new
  chunks are in the vector store and in the keyword index, each with its vector and its metadata,
  no other document has changed, and the books are right.
\<close>

theorem index_pdf_replaces:
  assumes "pipeline_ok env p" "prepared env path p = Inr (chunks, vectors)"
    and "index_pdf env path p = (Inr n, p')"
  shows "pipeline_ok env p' \<and> n = len chunks \<and> length vectors = length chunks \<and>
     dict_get (rp_doc_chunks p') path = Some (map ck_id chunks) \<and>
     (\<forall>i. contents (rp_store p') i =
        (if belongs path i
         then map_of (zip (map ck_id chunks) (map (stored_entry (ra_nf env)) (vector_entries chunks vectors))) i
         else contents (rp_store p) i)) \<and>
     (\<forall>ix'. rp_keywords p' = Some ix' \<longrightarrow> (\<exists>ix. rp_keywords p = Some ix \<and>
        (\<forall>i. dict_get (bm_docs ix') i =
          (if belongs path i then map_of (zip (map ck_id chunks) (map ck_text chunks)) i
           else dict_get (bm_docs ix) i))))"
proof -
  have "\<forall>ix'. rp_keywords p' = Some ix' \<longrightarrow> (\<exists>ix. rp_keywords p = Some ix \<and>
        (\<forall>i. dict_get (bm_docs ix') i =
          (if belongs path i then map_of (zip (map ck_id chunks) (map ck_text chunks)) i
           else dict_get (bm_docs ix) i)))"
    using indexed_keywords [OF assms] by blast
  then show ?thesis using indexed_ok [OF assms] indexed_stores [OF assms] by simp
qed

text \<open>
  Indexing twice is indexing once: the second run finds the same number of chunks and leaves
  the same contents and the same books.
\<close>

lemma index_pdf_idempotent:
  assumes "pipeline_ok env p" "index_pdf env path p = (Inr n, p1)"
    and "index_pdf env path p1 = (Inr m, p2)"
  shows "m = n \<and> contents (rp_store p2) = contents (rp_store p1) \<and>
     dict_get (rp_doc_chunks p2) = dict_get (rp_doc_chunks p1) \<and> pipeline_ok env p2"
proof -
  from assms(2) obtain chunks vectors where prep: "prepared env path p = Inr (chunks, vectors)"
    by (cases "prepared env path p") (auto simp: index_pdf_cases)
  note i1 = indexed_stores [OF assms(1) prep assms(2)] and ok = indexed_ok [OF assms(1) prep assms(2)]
  have "page_chunks p1 = page_chunks p" using i1(7,8) by (simp add: page_chunks_def fun_eq_iff)
  then have "document_chunks p1 = document_chunks p"
    by (intro ext) (simp add: document_chunks_def)
  with prep have prep1: "prepared env path p1 = Inr (chunks, vectors)" by (simp add: prepared_def)
  note i2 = indexed_stores [OF ok prep1 assms(3)]
  have "contents (rp_store p2) i = contents (rp_store p1) i" for i
    using i1(5,6) [of i] i2(5,6) [of i] by (cases "belongs path i") simp_all
  moreover have "dict_get (rp_doc_chunks p2) = dict_get (rp_doc_chunks p1)"
    using i1(3) i2(3) by (auto simp: fun_eq_iff)
  ultimately show ?thesis using i1(2) i2(2) indexed_ok [OF ok prep1 assms(3)] by auto
qed

text \<open>
  A failed run leaves the pipeline well formed, the books as they were and every other document
  untouched. When the document could not be read, split or embedded, nothing at all has changed;
  only when the vector store refuses the new chunks are the old ones already gone.
\<close>

lemma index_pdf_failure:
  assumes "pipeline_ok env p" "index_pdf env path p = (Inl e, p')"
  shows "pipeline_ok env p' \<and> rp_doc_chunks p' = rp_doc_chunks p \<and>
     (\<forall>i. \<not> belongs path i \<longrightarrow> contents (rp_store p') i = contents (rp_store p) i) \<and>
     (case prepared env path p of
        Inl e' \<Rightarrow> e' = e \<and> p' = p
      | Inr _ \<Rightarrow> \<forall>i. belongs path i \<longrightarrow> contents (rp_store p') i = None)"
proof (cases "prepared env path p")
  case (Inl e')
  with assms show ?thesis by (simp add: index_pdf_cases)
next
  case (Inr cv)
  let ?old = "old_chunks p path"
  from Inr assms(2) have p': "p' = p\<lparr>rp_store := vector_delete (ra_nf env) ?old (rp_store p),
      rp_keywords := map_option (bm25_delete ?old) (rp_keywords p)\<rparr>"
    by (auto simp: index_pdf_cases Let_def split: prod.splits sum.splits)
  have ok: "vectors_ok (ra_nf env) (rp_store p)" "booked p (dom (contents (rp_store p)))"
    using assms(1) by (simp_all add: pipeline_ok_def)
  have "contents (rp_store p') = contents (rp_store p) |` (- set ?old)"
    by (simp add: p' vectors.del_abs [OF ok(1)])
  moreover have "i \<in> set ?old" if "belongs path i" "contents (rp_store p) i \<noteq> None" for i
    using booked_old [OF assms(1) ok(2) _ that(1)] that(2) by (simp add: domIff)
  moreover have "i \<notin> set ?old" if "\<not> belongs path i" for i
    using old_chunks_belong [OF assms(1)] that by blast
  ultimately have c: "contents (rp_store p') i = (if belongs path i then None else contents (rp_store p) i)"
    for i by (metis ComplI Compl_iff restrict_in restrict_out)
  have "pipeline_ok env p'" unfolding p' by (rule pipeline_ok_unbook [OF assms(1)])
  moreover have "rp_doc_chunks p' = rp_doc_chunks p" by (simp add: p')
  ultimately show ?thesis by (simp add: c Inr)
qed

section \<open>Answers\<close>

definition good_hits :: "search_hit list \<Rightarrow> bool" where
  "good_hits hits \<longleftrightarrow> distinct (map sh_id hits) \<and> (\<forall>h \<in> set hits. has_text (sh_metadata h))"

lemma stored_hits:
  assumes "pipeline_ok env p" "flat_search_ok (ra_nf env)" "0 \<le> fetch"
    and "store_search (ra_nf env) v fetch (rp_store p) = Inr hits"
  shows "good_hits hits" "len hits = min fetch (len (vs_ids (rp_store p)))"
proof -
  have ok: "store_ok (ra_nf env) (rp_store p)" using assms(1) by (simp add: pipeline_ok_def vectors_ok_def)
  note s = store_search_hits [OF ok assms(2-4)]
  then show "len hits = min fetch (len (vs_ids (rp_store p)))" by blast
  from assms(1) have "\<forall>i v m. contents (rp_store p) i = Some (v, m) \<longrightarrow> has_text m"
    by (simp add: pipeline_ok_def)
  with s show "good_hits hits" unfolding good_hits_def by blast
qed

lemma kept_hit_in:
  "i \<in> sh_id ` (set dense \<union> set sparse) \<Longrightarrow> kept_hit dense sparse i \<in> set dense \<union> set sparse"
proof -
  assume i: "i \<in> sh_id ` (set dense \<union> set sparse)"
  show ?thesis
  proof (cases "filter (\<lambda>h. sh_id h = i) dense")
    case Nil
    with i obtain h where "h \<in> set sparse" "sh_id h = i" by (auto simp: filter_empty_conv)
    then have "h \<in> set (filter (\<lambda>h. sh_id h = i) sparse)" by simp
    then have "filter (\<lambda>h. sh_id h = i) sparse \<noteq> []" by (metis list.distinct(1) list.set_cases)
    then have "hd (filter (\<lambda>h. sh_id h = i) sparse) \<in> set (filter (\<lambda>h. sh_id h = i) sparse)"
      by (rule hd_in_set)
    with Nil show ?thesis by (simp add: kept_hit_def)
  next
    case (Cons h hs)
    then have "last (filter (\<lambda>h. sh_id h = i) dense) \<in> set (filter (\<lambda>h. sh_id h = i) dense)"
      by (intro last_in_set) simp
    then have "last (filter (\<lambda>h. sh_id h = i) dense) \<in> set dense" by simp
    with Cons show ?thesis by (simp add: kept_hit_def del: last.simps)
  qed
qed

lemma retrieved_hits:
  assumes "pipeline_ok env p" "flat_search_ok (ra_nf env)" "0 \<le> fetch"
    and "retrieve env question fetch p = Inr hits"
  shows "good_hits hits \<and> len hits \<le> fetch"
proof -
  from assms(4) obtain v dense where d: "store_search (ra_nf env) v fetch (rp_store p) = Inr dense"
      "(case rp_keywords p of None \<Rightarrow> Inr dense
        | Some ix \<Rightarrow> rbind (bm25_search ix question fetch) (\<lambda>sparse. rrf_fuse dense sparse fetch 60)) = Inr hits"
    by (auto simp: retrieve_def)
  note s = stored_hits [OF assms(1-3) d(1)]
  show ?thesis
  proof (cases "rp_keywords p")
    case None
    with d(2) s show ?thesis by simp
  next
    case (Some ix)
    with d(2) obtain sparse where sp: "bm25_search ix question fetch = Inr sparse"
        "rrf_fuse dense sparse fetch 60 = Inr hits" by auto
    have "bm25_ok ix" using assms(1) Some by (simp add: pipeline_ok_def)
    from bm25_search_finds [OF this assms(3), of question] sp(1)
    have tx: "\<forall>h \<in> set dense \<union> set sparse. has_text (sh_metadata h)"
      using s(1) by (auto simp: good_hits_def has_text_def)
    from rrf_fuse_hits [of 60 fetch dense sparse] assms(3) sp(2)
    have f: "\<forall>h \<in> set hits. sh_id h \<in> sh_id ` (set dense \<union> set sparse) \<and>
          sh_metadata h = sh_metadata (kept_hit dense sparse (sh_id h))"
        "distinct (map sh_id hits)"
        "length hits = min (nat fetch) (card (sh_id ` (set dense \<union> set sparse)))" by auto
    from f(1) tx have "\<forall>h \<in> set hits. has_text (sh_metadata h)" using kept_hit_in by metis
    with f(2,3) assms(3) show ?thesis by (simp add: good_hits_def)
  qed
qed

lemma reranked_hits:
  assumes "rerank predict query hits top_k = Inr hits'" "good_hits hits" "0 \<le> top_k"
  shows "good_hits hits' \<and> len hits' \<le> top_k \<and> sorted_wrt (\<lambda>x y. sh_score y \<le> sh_score x) hits'"
proof (cases "hits = []")
  case True
  with assms show ?thesis by (simp add: rerank_def)
next
  case False
  let ?hit = "\<lambda>(score, h). \<lparr>sh_id = sh_id h, sh_score = score, sh_metadata = sh_metadata h\<rparr>"
  from assms(1,3) False obtain scores where sc: "length scores = length hits"
      "hits' = take (nat top_k) (ranked sh_score (map ?hit (zip scores hits)))"
    by (auto simp: rerank_def py_slice_first split: if_splits)
  let ?all = "map ?hit (zip scores hits)"
  have "map sh_id ?all = map sh_id hits" using sc(1) by (intro nth_equalityI) simp_all
  then have "distinct (map sh_id (ranked sh_score ?all))"
    using assms(2) by (simp add: ranked_props good_hits_def)
  then have "distinct (map sh_id hits')" by (simp add: sc(2) distinct_take flip: take_map)
  moreover have "set hits' \<subseteq> set ?all"
    unfolding sc(2) by (rule order_trans [OF set_take_subset]) (simp only: ranked_props order_refl)
  moreover have "has_text (sh_metadata h)" if "h \<in> set ?all" for h
  proof -
    from that obtain h0 where "h0 \<in> set hits" "sh_metadata h = sh_metadata h0"
      by (auto dest: set_zip_rightD)
    with assms(2) show ?thesis by (simp add: good_hits_def)
  qed
  ultimately have "\<forall>h \<in> set hits'. has_text (sh_metadata h)" "distinct (map sh_id hits')" by blast+
  moreover have "sorted_wrt (\<lambda>x y. sh_score y \<le> sh_score x) hits'"
    unfolding sc(2) by (intro sorted_wrt_take ranked_props)
  ultimately show ?thesis using assms(3) by (simp add: good_hits_def sc(2))
qed

lemma numbered:
  "map so_number (number_sources hits) = map (\<lambda>i. int i + 1) [0..<length hits]"
  "map so_id (number_sources hits) = map sh_id hits"
  "length (number_sources hits) = length hits"
  "s \<in> set (number_sources hits) \<Longrightarrow> \<exists>h \<in> set hits. so_metadata s = sh_metadata h"
proof -
  show "map so_number (number_sources hits) = map (\<lambda>i. int i + 1) [0..<length hits]"
    by (intro nth_equalityI) (simp_all add: number_sources_def)
  show "map so_id (number_sources hits) = map sh_id hits"
    by (intro nth_equalityI) (simp_all add: number_sources_def)
  show "length (number_sources hits) = length hits" by (simp add: number_sources_def)
  show "s \<in> set (number_sources hits) \<Longrightarrow> \<exists>h \<in> set hits. so_metadata s = sh_metadata h"
    by (auto simp: number_sources_def dest: set_zip_rightD)
qed

definition plain_text :: "(pystr, json) dict \<Rightarrow> pystr" where
  "plain_text m = (case dict_get m (lit ''text'') of Some (JStr t) \<Rightarrow> t | _ \<Rightarrow> [])"

lemma source_lines:
  assumes "\<forall>s \<in> set ss. has_text (so_metadata s)"
  shows "rmap_list (source_line env) ss =
    Inr (map (\<lambda>s. lit ''['' @ int_text (so_number s) @ lit ''] '' @ plain_text (so_metadata s)) ss)"
  using assms
  by (induction ss) (auto simp: source_line_def metadata_text_def json_str_def has_text_def plain_text_def)

lemma asked:
  assumes "ask env question top_k fetch_k p = (sent, Inr a)"
  obtains (none) "retrieve env question (fetch_count top_k fetch_k) p = Inr []" "sent = None" "an_sources a = []"
  | (some) hits hits' ls where "retrieve env question (fetch_count top_k fetch_k) p = Inr hits" "hits \<noteq> []"
      "(case rp_reranker p of None \<Rightarrow> Inr hits | Some predict \<Rightarrow> rerank predict question hits top_k) = Inr hits'"
      "an_sources a = number_sources hits'" "rmap_list (source_line env) (an_sources a) = Inr ls"
      "sent = Some (rag_messages (py_join [10, 10] ls) question)"
  using assms by (auto simp: ask_def Let_def split: sum.splits if_splits)


text \<open>
  Without a reranker the answer has as many sources as were fetched, not \<open>top_k\<close>: a caller
  that asks for more candidates than \<open>top_k\<close> gets them all in the context.
\<close>

lemma ask_without_reranker:
  assumes "pipeline_ok env p" "flat_search_ok (ra_nf env)" "0 \<le> fetch_count top_k fetch_k"
    and "rp_reranker p = None" "rp_keywords p = None"
    and "ask env question top_k fetch_k p = (sent, Inr a)"
  shows "len (an_sources a) = min (fetch_count top_k fetch_k) (len (vs_ids (rp_store p)))"
proof -
  have len: "len hits = min (fetch_count top_k fetch_k) (len (vs_ids (rp_store p)))"
    if "retrieve env question (fetch_count top_k fetch_k) p = Inr hits" for hits
    using that assms(5) stored_hits(2) [OF assms(1-3)] by (auto simp: retrieve_def)
  from assms(6) show ?thesis
  proof (cases rule: asked)
    case none
    with len [OF none(1)] show ?thesis by simp
  next
    case (some hits hits' ls)
    with len [OF some(1)] assms(4) show ?thesis by (simp add: numbered)
  qed
qed

section \<open>A sample run\<close>

definition sample_rag :: rag_env where
  "sample_rag =
     \<lparr>ra_nf = exact_faiss,
      ra_reader = (\<lambda>path. if path = lit ''a'' then PdfPages [None, Some (lit ''abcdef'')]
        else PdfReadError (exn_of (PyException (lit ''PdfReadError'')) ''EOF'')),
      ra_embed_batch = (\<lambda>texts. Inr (map (\<lambda>_. [1, 0]) texts)),
      ra_embed = (\<lambda>question. Inr [1, 0]), ra_str = (\<lambda>_. []),
      ra_chat = (\<lambda>messages. Inr (Some (lit ''[1] it is'')))\<rparr>"

definition empty_pipeline :: rag_pipeline where
  "empty_pipeline =
     \<lparr>rp_store = store_new, rp_keywords = None, rp_reranker = None, rp_chunk_size = 4,
      rp_overlap = 1, rp_doc_chunks = []\<rparr>"

lemma empty_pipeline_ok: "pipeline_ok sample_rag empty_pipeline"
  by (simp add: pipeline_ok_def empty_pipeline_def vectors_ok_def store_ok_def store_new_def
      sample_rag_def exact_faiss_ok contents_def entries_def booked_def)

definition sample_pipeline :: rag_pipeline where
  "sample_pipeline = snd (index_pdf sample_rag (lit ''a'') empty_pipeline)"

definition indexed_again :: rag_pipeline where
  "indexed_again = snd (index_pdf sample_rag (lit ''a'') sample_pipeline)"

lemma sample_indexed:
  "index_pdf sample_rag (lit ''a'') empty_pipeline = (Inr 2, sample_pipeline)"
  "index_pdf sample_rag (lit ''a'') sample_pipeline = (Inr 2, indexed_again)"
proof -
  have "fst (index_pdf sample_rag (lit ''a'') empty_pipeline) = Inr 2"
    "fst (index_pdf sample_rag (lit ''a'') sample_pipeline) = Inr 2" by code_simp+
  then show "index_pdf sample_rag (lit ''a'') empty_pipeline = (Inr 2, sample_pipeline)"
    "index_pdf sample_rag (lit ''a'') sample_pipeline = (Inr 2, indexed_again)"
    unfolding sample_pipeline_def indexed_again_def by (metis prod.collapse)+
qed

lemma sample_prepared:
  "\<exists>chunks vectors. prepared sample_rag (lit ''a'') empty_pipeline = Inr (chunks, vectors)"
proof -
  have "\<not> isl (prepared sample_rag (lit ''a'') empty_pipeline)" by code_simp
  then show ?thesis by (cases "prepared sample_rag (lit ''a'') empty_pipeline") auto
qed

theorem index_pdf_replaces_witness:
  "\<exists>chunks :: chunk list. length chunks = 2 \<and>
     dict_get (rp_doc_chunks sample_pipeline) (lit ''a'') = Some (map ck_id chunks) \<and>
     pipeline_ok sample_rag sample_pipeline"
proof -
  from sample_prepared obtain chunks vectors
    where p: "prepared sample_rag (lit ''a'') empty_pipeline = Inr (chunks, vectors)" by blast
  from index_pdf_replaces [OF empty_pipeline_ok p sample_indexed(1)] show ?thesis
    by - (rule exI [of _ chunks], simp)
qed

lemma sample_pipeline_ok: "pipeline_ok sample_rag sample_pipeline"
  using sample_prepared indexed_ok [OF empty_pipeline_ok _ sample_indexed(1)] by blast

lemma index_pdf_idempotent_witness:
  "contents (rp_store indexed_again) = contents (rp_store sample_pipeline)"
  using index_pdf_idempotent [OF empty_pipeline_ok sample_indexed] by blast

lemma index_pdf_failure_witness:
  "\<exists>e. index_pdf sample_rag (lit ''b'') sample_pipeline = (Inl e, sample_pipeline)"
proof -
  have "isl (fst (index_pdf sample_rag (lit ''b'') sample_pipeline))"
    "isl (prepared sample_rag (lit ''b'') sample_pipeline)" by code_simp+
  then obtain e e' p' where i: "index_pdf sample_rag (lit ''b'') sample_pipeline = (Inl e, p')"
      "prepared sample_rag (lit ''b'') sample_pipeline = Inl e'"
    by (metis isl_def prod.collapse)
  from index_pdf_failure [OF sample_pipeline_ok i(1)] i show ?thesis by auto
qed

lemma sample_stores:
  "rp_keywords sample_pipeline = None" "rp_reranker sample_pipeline = None"
  "length (vs_ids (rp_store sample_pipeline)) = 2"
proof -
  show "rp_keywords sample_pipeline = None" "length (vs_ids (rp_store sample_pipeline)) = 2" by code_simp+
  show "rp_reranker sample_pipeline = None"
    by (simp add: sample_pipeline_def index_pdf_def empty_pipeline_def Let_def split: sum.splits)
qed

lemma sample_asked:
  "\<exists>sent a. ask sample_rag (lit ''q'') 1 (Some 2) sample_pipeline = (Some sent, Inr a)"
proof -
  have "\<not> isl (store_search exact_faiss [1, 0] 2 (rp_store sample_pipeline))" by code_simp
  then obtain hits where h: "store_search exact_faiss [1, 0] 2 (rp_store sample_pipeline) = Inr hits"
    by (cases "store_search exact_faiss [1, 0] 2 (rp_store sample_pipeline)") auto
  then have r: "retrieve sample_rag (lit ''q'') 2 sample_pipeline = Inr hits"
    by (simp add: retrieve_def sample_stores sample_rag_def)
  have "ra_nf sample_rag = exact_faiss" by (simp add: sample_rag_def)
  with stored_hits [OF sample_pipeline_ok, of 2 "[1, 0]" hits] h exact_faiss_ok(1) sample_stores(3)
  have g: "good_hits hits" "len hits = 2" by simp_all
  then have "\<forall>s \<in> set (number_sources hits). has_text (so_metadata s)"
    using numbered(4) by (metis good_hits_def)
  from source_lines [OF this, of sample_rag] r g(2) show ?thesis
    by (auto simp: ask_def fetch_count_def sample_stores Let_def sample_rag_def)
qed


text \<open>Two sources, though \<open>top_k\<close> is one.\<close>

lemma ask_without_reranker_witness:
  "\<exists>sent a. ask sample_rag (lit ''q'') 1 (Some 2) sample_pipeline = (sent, Inr a) \<and>
     length (an_sources a) = 2"
proof -
  from sample_asked obtain sent a
    where a: "ask sample_rag (lit ''q'') 1 (Some 2) sample_pipeline = (Some sent, Inr a)" by blast
  have "len (an_sources a) = 2"
    using ask_without_reranker [OF sample_pipeline_ok _ _ _ _ a] exact_faiss_ok(1) sample_stores
    by (simp add: sample_rag_def fetch_count_def)
  with a show ?thesis by auto
qed

end
