(* ===== verification/Runtime_Rules.thy ===== *)
theory Runtime_Rules
  imports Runtime
begin

text \<open>
  Rules for the calls of \<open>Runtime\<close>: triples, and the locale of the invariants that every single
  update of a step keeps, with the steps composed once inside it.
\<close>

section \<open>Reasoning about calls that may raise\<close>

text \<open>
  \<open>triple P m Q E\<close>: from a world with \<open>P\<close> the call ends in \<open>Q\<close> when it returns and in \<open>E\<close> when it
  raises. \<open>keeps I m\<close>: whichever way it ends, \<open>I\<close> still holds.
\<close>

definition triple ::
  "(world \<Rightarrow> bool) \<Rightarrow> 'a run \<Rightarrow> ('a \<Rightarrow> world \<Rightarrow> bool) \<Rightarrow> (exn \<Rightarrow> world \<Rightarrow> bool) \<Rightarrow> bool" where
  "triple P m Q E \<longleftrightarrow>
     (\<forall>w. P w \<longrightarrow> (case m w of (Inl e, w') \<Rightarrow> E e w' | (Inr v, w') \<Rightarrow> Q v w'))"

abbreviation keeps :: "(world \<Rightarrow> bool) \<Rightarrow> 'a run \<Rightarrow> bool" where
  "keeps I m \<equiv> triple I m (\<lambda>_. I) (\<lambda>_. I)"

lemma tripleI:
  assumes "\<And>w v w'. P w \<Longrightarrow> m w = (Inr v, w') \<Longrightarrow> Q v w'"
    and "\<And>w e w'. P w \<Longrightarrow> m w = (Inl e, w') \<Longrightarrow> E e w'"
  shows "triple P m Q E"
  using assms by (auto simp: triple_def split: prod.splits sum.splits)

lemma triple_Inr: "triple P m Q E \<Longrightarrow> P w \<Longrightarrow> m w = (Inr v, w') \<Longrightarrow> Q v w'"
  by (auto simp: triple_def split: prod.splits sum.splits)

lemma triple_Inl: "triple P m Q E \<Longrightarrow> P w \<Longrightarrow> m w = (Inl e, w') \<Longrightarrow> E e w'"
  by (auto simp: triple_def split: prod.splits sum.splits)

lemma keeps_iff: "keeps I m \<longleftrightarrow> (\<forall>w. I w \<longrightarrow> I (snd (m w)))"
proof -
  have "(case m w of (Inl e, w') \<Rightarrow> I w' | (Inr v, w') \<Rightarrow> I w') = I (snd (m w))" for w
    by (cases "m w"; cases "fst (m w)") auto
  then show ?thesis by (simp add: triple_def)
qed

lemma keepsD: "keeps I m \<Longrightarrow> I w \<Longrightarrow> I (snd (m w))"
  by (simp add: keeps_iff)

lemma triple_weaken:
  assumes "triple P m Q E" "\<And>w. P' w \<Longrightarrow> P w" "\<And>v w. Q v w \<Longrightarrow> Q' v w" "\<And>e w. E e w \<Longrightarrow> E' e w"
  shows "triple P' m Q' E'"
  by (rule tripleI)
    (use assms(2-4) triple_Inr [OF assms(1)] triple_Inl [OF assms(1)] in blast)+

lemma triple_andthen:
  assumes "triple P m R E" "\<And>v. triple (R v) (f v) Q E"
  shows "triple P (andthen m f) Q E"
  using assms unfolding triple_def andthen_def
  by (fastforce split: prod.splits sum.splits)

lemma triple_ret: "(\<And>w. P w \<Longrightarrow> Q v w) \<Longrightarrow> triple P (ret v) Q E"
  by (simp add: triple_def ret_def)

lemma triple_fail: "(\<And>w. P w \<Longrightarrow> E e w) \<Longrightarrow> triple P (fail e) Q E"
  by (simp add: triple_def fail_def)

lemma triple_modify: "(\<And>w. P w \<Longrightarrow> Q () (f w)) \<Longrightarrow> triple P (modify f) Q E"
  by (simp add: triple_def modify_def)

lemma triple_if:
  "(b \<Longrightarrow> triple P m Q E) \<Longrightarrow> (\<not> b \<Longrightarrow> triple P n Q E) \<Longrightarrow> triple P (if b then m else n) Q E"
  by simp

lemma triple_except_any:
  assumes "triple P m Q (\<lambda>e w.
      if is_agent_error (exn_class e) then E e (on_state (fail_agent (en_dict_repr env) src e) w)
      else if is_exception (exn_class e) then E e (on_state (fail_plain (en_dict_repr env) src e) w)
      else E e w)"
  shows "triple P (except_any env src m) Q E"
  using assms by (auto simp: triple_def except_any_def split: prod.splits sum.splits if_splits)

lemma triple_except_agent:
  assumes "triple P m Q (\<lambda>e w.
      if is_agent_error (exn_class e) then E e (on_state (fail_agent (en_dict_repr env) src e) w)
      else E e w)"
  shows "triple P (except_agent env src m) Q E"
  using assms by (auto simp: triple_def except_agent_def split: prod.splits sum.splits if_splits)

section \<open>Progress\<close>

abbreviation step_count :: "world \<Rightarrow> int" where
  "step_count w \<equiv> rs_step_count (wo_state w)"

lemma emit_frame [simp]:
  "wo_state (emit t d i w) = wo_state w" "wo_mm (emit t d i w) = wo_mm w"
  "wo_router (emit t d i w) = wo_router w"
  "wo_events (emit t d i w) = wo_events w @ [\<lparr>ev_type = t, ev_data = d, ev_step_index = i\<rparr>]"
  by (simp_all add: emit_def)

lemma remember_frame [simp]:
  "wo_state (remember enc m w) = wo_state w" "wo_router (remember enc m w) = wo_router w"
  "wo_events (remember enc m w) = wo_events w"
  by (simp_all add: remember_def split: option.splits)

lemma session_window_frame [simp]:
  "wo_state (session_window env w) = wo_state w" "wo_router (session_window env w) = wo_router w"
  "wo_events (session_window env w) = wo_events w"
  by (simp_all add: session_window_def)

lemma foldl_keeps: "(\<And>x w. I w \<Longrightarrow> I (f w x)) \<Longrightarrow> I w \<Longrightarrow> I (foldl f w xs)"
  by (induction xs arbitrary: w) auto

lemma consume_stream_state [simp]:
  "wo_state (snd (consume_stream b parts items w)) = wo_state w"
  by (induction b parts items w rule: consume_stream.induct) (auto simp: Let_def split: option.splits)

lemma get_llm_message_state [simp]:
  "wo_state (snd (get_llm_message env rt ms ss b w)) = wo_state w"
  by (simp add: get_llm_message_def Let_def split: llm_wiring.splits outcome.splits)

section \<open>Where a step is\<close>

text \<open>
  What the single updates of a step may rely on: steps are left (\<open>below\<close>), the last route of the
  run selected \<open>names\<close> (\<open>routed\<close>), the calls with the identifiers \<open>ids\<close> wait for their tool
  messages (\<open>opened\<close>), and a configured critic has accepted (\<open>approved\<close>).
\<close>

definition below :: "runtime \<Rightarrow> world \<Rightarrow> bool" where
  "below rt w \<longleftrightarrow> step_count w < lp_max_steps (rt_policy rt)"

definition routed :: "pystr list \<Rightarrow> world \<Rightarrow> bool" where
  "routed names w \<longleftrightarrow>
     rs_tool_routes (wo_state w) \<noteq> [] \<and>
     rr_selected_tools (last (rs_tool_routes (wo_state w))) = names \<and> session_memory w \<noteq> None"

definition opened :: "pystr list \<Rightarrow> pystr list \<Rightarrow> world \<Rightarrow> bool" where
  "opened names ids w \<longleftrightarrow> routed names w \<and> open_ids (session_messages w) = ids"

definition approved :: "runtime \<Rightarrow> world \<Rightarrow> bool" where
  "approved rt w \<longleftrightarrow>
     (rt_critic rt \<noteq> None \<longrightarrow>
        (\<exists>c\<in>set (rs_critiques (wo_state w)). cq_decision c = Accept))"

definition call_allowed :: "env \<Rightarrow> runtime \<Rightarrow> pystr list \<Rightarrow> tool_call \<Rightarrow> bool" where
  "call_allowed env rt names tc =
     call_ok (en_text env) (en_iter_errors env) (rt_validator rt) (Some (set names)) (raw_of tc)"

lemma session_memory_frame [simp]:
  "session_memory (emit t d i w) = session_memory w"
  "session_memory (w\<lparr>wo_router := er\<rparr>) = session_memory w"
  by (simp_all add: session_memory_def)

lemma session_memory_state [simp]:
  "rs_session_id s = rs_session_id (wo_state w) \<Longrightarrow>
   session_memory (w\<lparr>wo_state := s\<rparr>) = session_memory w"
  by (simp add: session_memory_def)

lemma session_memory_remember:
  "session_memory (remember enc m w) = map_option (add_message enc m) (session_memory w)"
  by (auto simp: remember_def session_memory_def split: option.split)

lemma session_memory_window:
  "session_memory (session_window env w) =
     Some (case session_memory w of
             Some b \<Rightarrow> b
           | None \<Rightarrow> bm_new (en_enc env) None (mm_max_tokens (wo_mm w)))"
  by (auto simp: session_memory_def session_window_def get_or_create_def Let_def split: option.split)

lemma session_messages_frame [simp]:
  "session_messages (emit t d i w) = session_messages w"
  "session_messages (w\<lparr>wo_router := er\<rparr>) = session_messages w"
  "session_messages (session_window env w) = session_messages w"
  by (simp_all add: session_messages_def session_memory_window bm_new_def split: option.split)

lemma session_messages_state [simp]:
  "rs_session_id s = rs_session_id (wo_state w) \<Longrightarrow>
   session_messages (w\<lparr>wo_state := s\<rparr>) = session_messages w"
  by (simp add: session_messages_def)

lemma session_messages_remember:
  "session_messages (remember enc m w) =
     (case session_memory w of None \<Rightarrow> [] | Some b \<Rightarrow> bm_messages (add_message enc m b))"
  by (simp add: session_messages_def session_memory_remember split: option.split)

lemma open_ids_remember:
  "session_memory w \<noteq> None \<Longrightarrow>
   open_ids (session_messages (remember enc m w)) =
     (if is_tool m then open_ids (session_messages w)
      else if has_calls m then map tc_id (m_tool_calls m) else [])"
  by (auto simp: session_messages_def session_memory_remember add_message_open_ids)

lemma routed_frame [simp]:
  "routed names (emit t d i w) = routed names w"
  "routed names (remember enc m w) = routed names w"
  by (simp_all add: routed_def session_memory_remember)

lemma routed_state [simp]:
  "rs_session_id s = rs_session_id (wo_state w) \<Longrightarrow>
   rs_tool_routes s = rs_tool_routes (wo_state w) \<Longrightarrow>
   routed names (w\<lparr>wo_state := s\<rparr>) = routed names w"
  by (simp add: routed_def)

lemma opened_frame [simp]:
  "opened names ids (emit t d i w) = opened names ids w"
  by (simp add: opened_def)

lemma opened_state [simp]:
  "rs_session_id s = rs_session_id (wo_state w) \<Longrightarrow>
   rs_tool_routes s = rs_tool_routes (wo_state w) \<Longrightarrow>
   opened names ids (w\<lparr>wo_state := s\<rparr>) = opened names ids w"
  by (simp add: opened_def)

lemma opened_remember_tool:
  "opened names ids w \<Longrightarrow> is_tool m \<Longrightarrow> opened names ids (remember enc m w)"
  by (simp add: opened_def open_ids_remember routed_def session_memory_remember)

lemma opened_remember_calls:
  "routed names w \<Longrightarrow> lm_tool_calls m \<noteq> [] \<Longrightarrow>
   opened names (map tc_id (lm_tool_calls m)) (remember enc (model_dump m) w)"
  by (simp add: opened_def open_ids_remember routed_def session_memory_remember)

lemma message_is_tool [simp]: "is_tool (violation_message v)" "is_tool (result_message r)"
  by (simp_all add: violation_message_def result_message_def)

lemma opened_process_result: "opened names ids w \<Longrightarrow> opened names ids (process_result env tr w)"
  by (simp add: process_result_def Let_def opened_remember_tool add_step_def)

section \<open>Invariants of a step\<close>

text \<open>
  A property of worlds that every single update of a step keeps, at the point where the step
  makes it, is kept by the whole step. The updates are the operations of \<open>Run_State\<close> and
  \<open>Runtime\<close> the step is made of.
\<close>

locale step_invariant =
  fixes env :: env and rt :: runtime and I :: "world \<Rightarrow> bool"
  assumes keep_window: "I w \<Longrightarrow> I (session_window env w)"
    and keep_router:
      "\<lbrakk>I w; route emb q (rt_tool_schemas rt) (wo_router w) = (res, er)\<rbrakk> \<Longrightarrow> I (w\<lparr>wo_router := er\<rparr>)"
    and keep_routed: "\<lbrakk>I w; below rt w; record_route r w = (Inr names, w')\<rbrakk> \<Longrightarrow> I w'"
    and keep_token: "\<lbrakk>I w; rt_critic rt = None\<rbrakk> \<Longrightarrow> I (emit LlmToken (Token t) n w)"
    and keep_token_calls:
      "\<lbrakk>I w; rt_critic rt = None\<rbrakk> \<Longrightarrow> I (emit LlmToken (TokenCalls tcs) n w)"
    and keep_message: "\<lbrakk>I w; below rt w\<rbrakk> \<Longrightarrow> I (record_message m w)"
    and keep_calls:
      "\<lbrakk>I w; lm_tool_calls m \<noteq> []\<rbrakk> \<Longrightarrow> I (remember (en_enc env) (model_dump m) w)"
    and keep_feedback:
      "\<lbrakk>I w; opened names ids w; v_tool_call_id v \<in> set ids\<rbrakk> \<Longrightarrow>
       I (remember (en_enc env) (violation_message v) w)"
    and keep_result:
      "\<lbrakk>I w; opened names ids w; call_allowed env rt names (tres_call tr);
        tc_id (tres_call tr) \<in> set ids\<rbrakk> \<Longrightarrow> I (process_result env tr w)"
    and keep_answer:
      "\<lbrakk>I w; approved rt w; lm_tool_calls m = []\<rbrakk> \<Longrightarrow> I (remember (en_enc env) (model_dump m) w)"
    and keep_history: "I w \<Longrightarrow> I (on_state (\<lambda>s. s\<lparr>rs_tool_call_history := h\<rparr>) w)"
    and keep_status: "\<lbrakk>I w; \<not> is_terminal st\<rbrakk> \<Longrightarrow> I (on_state (\<lambda>s. s\<lparr>rs_status := st\<rparr>) w)"
    and keep_validation_rounds:
      "\<lbrakk>I w; k = 0 \<or> k = rs_validation_failure_rounds (wo_state w) + 1\<rbrakk> \<Longrightarrow>
       I (on_state (\<lambda>s. s\<lparr>rs_validation_failure_rounds := k\<rparr>) w)"
    and keep_tool_rounds:
      "\<lbrakk>I w; k = 0 \<or> k = rs_tool_error_rounds (wo_state w) + 1\<rbrakk> \<Longrightarrow>
       I (on_state (\<lambda>s. s\<lparr>rs_tool_error_rounds := k\<rparr>) w)"
    and keep_revision_rounds:
      "\<lbrakk>I w; rs_reflection_revision_rounds (wo_state w) <
             lp_reflection_revision_rounds (rt_policy rt)\<rbrakk> \<Longrightarrow>
       I (on_state (\<lambda>s. s\<lparr>rs_reflection_revision_rounds :=
                       rs_reflection_revision_rounds s + 1\<rparr>) w)"
    and keep_terminate:
      "\<lbrakk>I w; is_terminal st\<rbrakk> \<Longrightarrow> I (on_state (terminate (en_dict_repr env) st rs e i src) w)"
    and keep_critique_step:
      "\<lbrakk>I w; below rt w\<rbrakk> \<Longrightarrow>
       I (on_state (record_critique_step (rs_step_count (wo_state w)) c k d err) w)"
    and keep_critique: "I w \<Longrightarrow> I (on_state (\<lambda>s. s\<lparr>rs_critiques := rs_critiques s @ [cq]\<rparr>) w)"
    and keep_completed: "I w \<Longrightarrow> I (emit CritiqueCompleted (CritiqueData cq) n w)"
begin

lemma keep_fail:
  "I w \<Longrightarrow> I (on_state (fail_agent (en_dict_repr env) src e) w)"
  "I w \<Longrightarrow> I (on_state (fail_plain (en_dict_repr env) src e) w)"
  unfolding fail_agent_def fail_plain_def by (rule keep_terminate; simp)+

text \<open>The error handlers keep \<open>I\<close> on the raising side; the returning side is free.\<close>

lemma any_triple: "triple P m Q (\<lambda>_. I) \<Longrightarrow> triple P (except_any env src m) Q (\<lambda>_. I)"
  by (rule triple_except_any, erule triple_weaken) (simp_all add: keep_fail)

lemma agent_triple: "triple P m Q (\<lambda>_. I) \<Longrightarrow> triple P (except_agent env src m) Q (\<lambda>_. I)"
  by (rule triple_except_agent, erule triple_weaken) (simp_all add: keep_fail)

lemma router_triple:
  "triple (\<lambda>w. I w \<and> below rt w \<and> session_memory w \<noteq> None)
     (except_agent env ''router'' (call_router env rt plan rv))
     (\<lambda>_ w. I w \<and> below rt w \<and> session_memory w \<noteq> None) (\<lambda>_. I)"
  by (rule agent_triple, rule tripleI)
    (auto simp: call_router_def below_def intro: keep_router split: sum.splits prod.splits)

lemma record_route_triple:
  "triple (\<lambda>w. I w \<and> below rt w \<and> session_memory w \<noteq> None) (record_route r)
     (\<lambda>names w. I w \<and> below rt w \<and> routed names w) (\<lambda>_. I)"
proof (rule tripleI)
  fix w names w'
  assume w: "I w \<and> below rt w \<and> session_memory w \<noteq> None"
    and r: "record_route r w = (Inr names, w')"
  have "I w'" using w r keep_routed by blast
  moreover have "below rt w' \<and> routed names w'"
    using w r by (auto simp: record_route_def Let_def below_def routed_def split: sum.splits)
  ultimately show "I w' \<and> below rt w' \<and> routed names w'" by blast
next
  fix w e w'
  assume "I w \<and> below rt w \<and> session_memory w \<noteq> None" "record_route r w = (Inl e, w')"
  then show "I w'" by (auto simp: record_route_def Let_def split: sum.splits)
qed

lemma stream_keeps:
  "I w \<Longrightarrow> I (snd (consume_stream (rt_critic rt = None) parts items w))"
  by (induction "rt_critic rt = None" parts items w rule: consume_stream.induct)
    (auto simp: Let_def keep_token keep_token_calls split: option.splits)

lemma stream_frame:
  "session_memory (snd (consume_stream b parts items w)) = session_memory w"
  by (induction b parts items w rule: consume_stream.induct) (auto simp: Let_def split: option.splits)

lemma get_llm_message_keeps:
  assumes "I w" shows "I (snd (get_llm_message env rt ms ss (rt_critic rt = None) w))"
  using assms stream_keeps
  by (auto simp: get_llm_message_def Let_def split: llm_wiring.splits outcome.splits)

lemma get_llm_message_frame:
  "session_memory (snd (get_llm_message env rt ms ss b w)) = session_memory w"
  by (auto simp: get_llm_message_def Let_def stream_frame split: llm_wiring.splits outcome.splits)

lemma get_llm_message_world:
  assumes "get_llm_message env rt ms ss (rt_critic rt = None) w = (res, w')" "I w"
  shows "I w' \<and> wo_state w' = wo_state w \<and> session_memory w' = session_memory w"
  using get_llm_message_keeps [of w ms ss] get_llm_message_state [of env rt ms ss _ w]
    get_llm_message_frame [of ms ss _ w] assms by (metis snd_conv)

lemma model_triple:
  "triple (\<lambda>w. I w \<and> below rt w \<and> routed names w) (call_model env rt plan rv schemas)
     (\<lambda>_ w. I w \<and> below rt w \<and> routed names w) (\<lambda>_. I)"
proof -
  have "triple (\<lambda>w. I w \<and> below rt w \<and> routed names w)
     (get_llm_message env rt ms ss (rt_critic rt = None))
     (\<lambda>_ w. I w \<and> below rt w \<and> routed names w) (\<lambda>_. I)" for ms ss
    by (rule tripleI)
      (auto simp: below_def routed_def dest!: get_llm_message_world)
  from any_triple [OF this, of "''llm''"] show ?thesis
    by (simp add: triple_def call_model_def Let_def)
qed

lemma message_triple:
  "triple (\<lambda>w. I w \<and> below rt w \<and> routed names w) (modify (record_message m))
     (\<lambda>_ w. I w \<and> routed names w) (\<lambda>_. I)"
  by (rule triple_modify) (auto simp: keep_message, simp add: record_message_def Let_def add_step_def)

text \<open>The tool branch.\<close>

lemma feedback_fold:
  "I w \<Longrightarrow> opened names ids w \<Longrightarrow> \<forall>v\<in>set vs. v_tool_call_id v \<in> set ids \<Longrightarrow>
   I (foldl (\<lambda>u v. remember (en_enc env) (violation_message v) u) w vs) \<and>
   opened names ids (foldl (\<lambda>u v. remember (en_enc env) (violation_message v) u) w vs)"
  by (induction vs arbitrary: w) (auto simp: keep_feedback opened_remember_tool)

lemma validation_triple:
  assumes "\<forall>v\<in>set vs. v_tool_call_id v \<in> set ids"
  shows "triple (\<lambda>w. I w \<and> opened names ids w) (handle_validation_failure env rt vs)
     (\<lambda>_ w. I w \<and> opened names ids w) (\<lambda>_. I)"
proof -
  have "I (foldl (\<lambda>u v. remember (en_enc env) (violation_message v) u)
        (on_state (\<lambda>s. s\<lparr>rs_validation_failure_rounds := rs_validation_failure_rounds s + 1\<rparr>) w) vs) \<and>
      opened names ids (foldl (\<lambda>u v. remember (en_enc env) (violation_message v) u)
        (on_state (\<lambda>s. s\<lparr>rs_validation_failure_rounds := rs_validation_failure_rounds s + 1\<rparr>) w) vs)"
    if "I w" "opened names ids w" for w
    by (rule feedback_fold) (use that assms keep_validation_rounds in auto)
  then show ?thesis
    by (intro tripleI)
      (auto simp: handle_validation_failure_def Let_def keep_terminate split: if_splits)
qed

lemma result_fold:
  "I w \<Longrightarrow> opened names ids w \<Longrightarrow>
   \<forall>r\<in>set rs. call_allowed env rt names (tres_call r) \<and> tc_id (tres_call r) \<in> set ids \<Longrightarrow>
   I (foldl (\<lambda>u r. process_result env r u) w rs)"
  by (induction rs arbitrary: w) (auto simp: keep_result opened_process_result)

lemma results_triple:
  assumes "\<forall>r\<in>set rs. call_allowed env rt names (tres_call r) \<and> tc_id (tres_call r) \<in> set ids"
  shows "triple (\<lambda>w. I w \<and> opened names ids w) (process_tool_results env rt rs)
     (\<lambda>_. I) (\<lambda>_. I)"
proof -
  have fold: "I (foldl (\<lambda>u r. process_result env r u) w rs)" if "I w" "opened names ids w" for w
    by (rule result_fold [OF that]) (rule assms)
  have reset: "I (on_state (\<lambda>s. s\<lparr>rs_tool_error_rounds := k, rs_status := StRunning\<rparr>) u)"
    if "I u" "k = 0 \<or> k = rs_tool_error_rounds (wo_state u) + 1" for u k
    using keep_status [OF keep_tool_rounds [OF that], of StRunning] by simp
  have fail: "I (on_state (\<lambda>s. fail_agent dr src e (s\<lparr>rs_tool_error_rounds := k\<rparr>)) u)"
    if "I u" "k = 0 \<or> k = rs_tool_error_rounds (wo_state u) + 1" "dr = en_dict_repr env"
    for u src e k dr
    using keep_fail(1) [OF keep_tool_rounds [OF that(1,2)], of src e] that(3) by simp
  show ?thesis
    using fold reset fail
    by (intro tripleI)
      (auto simp: process_tool_results_def Let_def split: if_splits)
qed

lemma execute_results:
  assumes "execute_calls fl dr reg calls = Inr rs"
    and "\<forall>tc\<in>set calls. call_allowed env rt names tc \<and> tc_id tc \<in> set ids"
  shows "\<forall>r\<in>set rs. call_allowed env rt names (tres_call r) \<and> tc_id (tres_call r) \<in> set ids"
proof -
  have "set (map tres_call rs) = set calls" using execute_calls_order [OF assms(1)] by simp
  then show ?thesis using assms(2) by auto
qed

lemma valid_calls_triple:
  assumes "\<forall>tc\<in>set calls. call_allowed env rt names tc \<and> tc_id tc \<in> set ids"
  shows "triple (\<lambda>w. I w \<and> opened names ids w) (run_valid_calls env rt rv calls)
     (\<lambda>_. I) (\<lambda>_. I)"
  unfolding run_valid_calls_def
proof (rule triple_andthen)
  let ?ok = "\<lambda>rs w. (I w \<and> opened names ids w) \<and>
      (\<forall>r\<in>set rs. call_allowed env rt names (tres_call r) \<and> tc_id (tres_call r) \<in> set ids)"
  show "triple (\<lambda>w. I w \<and> opened names ids w)
     (except_any env ''tool'' (\<lambda>w. (execute_calls (en_text env) (en_dict_repr env)
        (rt_registry rt) calls, w))) ?ok (\<lambda>_. I)"
    by (rule any_triple, rule tripleI) (use execute_results [OF _ assms] in auto)
  show "triple (?ok rs) (andthen (process_tool_results env rt rs) (\<lambda>_. ret rv)) (\<lambda>_. I) (\<lambda>_. I)" for rs
  proof (cases "\<forall>r\<in>set rs. call_allowed env rt names (tres_call r) \<and> tc_id (tres_call r) \<in> set ids")
    case True
    from results_triple [OF True] have
      "triple (?ok rs) (process_tool_results env rt rs) (\<lambda>_. I) (\<lambda>_. I)"
      by (rule triple_weaken) auto
    then show ?thesis by (rule triple_andthen) (rule triple_ret)
  qed (auto simp: triple_def)
qed

lemma after_validation_triple:
  assumes "\<forall>c\<in>set (vr_valid_calls v). call_allowed env rt names c \<and> tc_id c \<in> set ids"
    and "\<forall>x\<in>set (vr_violations v). v_tool_call_id x \<in> set ids"
  shows "triple (\<lambda>w. I w \<and> opened names ids w) (after_validation env rt rv v) (\<lambda>_. I) (\<lambda>_. I)"
  unfolding after_validation_def
proof (rule triple_andthen [where R = "\<lambda>_ w. I w \<and> opened names ids w"])
  show "triple (\<lambda>w. I w \<and> opened names ids w)
     (if vr_violations v \<noteq> [] then handle_validation_failure env rt (vr_violations v)
      else andthen (modify (on_state (\<lambda>s. s\<lparr>rs_validation_failure_rounds := 0\<rparr>))) (\<lambda>_. ret True))
     (\<lambda>_ w. I w \<and> opened names ids w) (\<lambda>_. I)"
    by (intro triple_if validation_triple assms(2)
        triple_andthen [where R = "\<lambda>_ w. I w \<and> opened names ids w"] triple_modify triple_ret)
      (auto simp: keep_validation_rounds)
next
  fix ok
  have "triple (\<lambda>w. I w \<and> opened names ids w)
      (andthen (modify (on_state (\<lambda>s. s\<lparr>rs_status := StRunning\<rparr>))) (\<lambda>_. ret rv)) (\<lambda>_. I) (\<lambda>_. I)"
    by (intro triple_andthen [where R = "\<lambda>_. I"] triple_modify triple_ret) (auto simp: keep_status)
  moreover have "triple (\<lambda>w. I w \<and> opened names ids w) (ret None) (\<lambda>_. I) (\<lambda>_. I)"
    by (rule triple_ret) simp
  ultimately show "triple (\<lambda>w. I w \<and> opened names ids w)
     (if \<not> ok then ret None
      else if vr_valid_calls v = [] then
        andthen (modify (on_state (\<lambda>s. s\<lparr>rs_status := StRunning\<rparr>))) (\<lambda>_. ret rv)
      else run_valid_calls env rt rv (vr_valid_calls v)) (\<lambda>_. I) (\<lambda>_. I)"
    using valid_calls_triple [OF assms(1)] by auto
qed

lemma validated_calls:
  assumes "validate_routed env rt names calls = Inr v"
  shows "\<forall>c\<in>set (vr_valid_calls v). call_allowed env rt names c \<and> tc_id c \<in> set (map tc_id calls)"
    and "\<forall>x\<in>set (vr_violations v). v_tool_call_id x \<in> set (map tc_id calls)"
proof -
  let ?check = "\<lambda>c. validate_one (en_text env) (en_iter_errors env) (rt_validator rt)
      (Some (set names)) (raw_of c)"
  have split: "vr_valid_calls v = filter (\<lambda>c. ?check c = Inr None) calls"
      "map Some (vr_violations v) = map (\<lambda>c. projr (?check c)) (filter (\<lambda>c. ?check c \<noteq> Inr None) calls)"
      "\<forall>c\<in>set calls. \<exists>x. ?check c = Inr x"
    using validate_calls_split [of ?check calls v] assms by (auto simp: validate_routed_def validate_def)
  show "\<forall>c\<in>set (vr_valid_calls v). call_allowed env rt names c \<and> tc_id c \<in> set (map tc_id calls)"
    using split(1) by (auto simp: validate_one_None_iff call_allowed_def)
  show "\<forall>x\<in>set (vr_violations v). v_tool_call_id x \<in> set (map tc_id calls)"
  proof
    fix x assume "x \<in> set (vr_violations v)"
    then have "Some x \<in> set (map Some (vr_violations v))" by simp
    then obtain c where c: "c \<in> set calls" "Some x = projr (?check c)"
      unfolding split(2) by auto
    with split(3) have "?check c = Inr (Some x)" by fastforce
    then have "v_tool_call_id x = rc_id (raw_of c)" by (rule validate_one_id)
    with c(1) show "v_tool_call_id x \<in> set (map tc_id calls)" by (simp add: raw_of_def)
  qed
qed

lemma tool_branch_triple:
  assumes calls: "lm_tool_calls m \<noteq> []"
  shows "triple (\<lambda>w. I w \<and> routed names w) (tool_branch env rt rv names m) (\<lambda>_. I) (\<lambda>_. I)"
proof -
  let ?ids = "map tc_id (lm_tool_calls m)"
  have awaiting: "triple (\<lambda>w. I w \<and> routed names w)
      (modify (on_state (\<lambda>s. s\<lparr>rs_status := StAwaitingTool\<rparr>))) (\<lambda>_ w. I w \<and> routed names w) (\<lambda>_. I)"
    by (rule triple_modify) (auto simp: keep_status)
  have history: "triple (\<lambda>w. I w \<and> routed names w) (note_calls env (lm_tool_calls m))
      (\<lambda>_ w. I w \<and> routed names w) (\<lambda>_. I)"
    by (rule tripleI) (auto simp: note_calls_def keep_history split: prod.splits)
  have loop: "triple (\<lambda>w. I w \<and> routed names w) (check_loop rt)
      (\<lambda>_ w. I w \<and> routed names w) (\<lambda>_. I)"
    by (rule tripleI) (auto simp: check_loop_def)
  have stop: "triple (\<lambda>w. I w \<and> routed names w) (andthen (modify (on_state
        (terminate (en_dict_repr env) StLoopDetected StopLoopDetected None None None)))
        (\<lambda>_. ret None)) (\<lambda>_. I) (\<lambda>_. I)"
    by (intro triple_andthen [where R = "\<lambda>_. I"] triple_modify triple_ret) (auto simp: keep_terminate)
  have remember: "triple (\<lambda>w. I w \<and> routed names w) (modify (remember (en_enc env) (model_dump m)))
      (\<lambda>_ w. I w \<and> opened names ?ids w) (\<lambda>_. I)"
    by (rule triple_modify) (auto simp: keep_calls calls opened_remember_calls)
  have check: "triple (\<lambda>w. I w \<and> opened names ?ids w)
      (andthen (\<lambda>w. (validate_routed env rt names (lm_tool_calls m), w))
        (after_validation env rt rv)) (\<lambda>_. I) (\<lambda>_. I)"
  proof (cases "validate_routed env rt names (lm_tool_calls m)")
    case (Inl e)
    then show ?thesis by (simp add: triple_def andthen_def)
  next
    case (Inr v)
    then show ?thesis
      using after_validation_triple [OF validated_calls [OF Inr], of rv]
      by (simp add: triple_def andthen_def)
  qed
  show ?thesis
    unfolding tool_branch_def
    by (rule triple_andthen [OF awaiting], rule triple_andthen [OF history],
        rule triple_andthen [OF loop], rule triple_if [OF stop],
        rule triple_andthen [OF remember], rule check)
qed

text \<open>The candidate branch.\<close>

lemma stop_triple: "is_terminal st \<Longrightarrow> triple I (stop_with env st r) (\<lambda>_. I) (\<lambda>_. I)"
  unfolding stop_with_def
  by (intro triple_andthen [where R = "\<lambda>_. I"] triple_modify triple_ret keep_terminate)

lemma raise_triple: "triple I (raise_failed env src e) (\<lambda>_. I) (\<lambda>_. I)"
  unfolding raise_failed_def
  by (intro triple_andthen [where R = "\<lambda>_. I"] triple_modify triple_fail keep_fail)

lemma finish_triple:
  "lm_tool_calls m = [] \<Longrightarrow>
   triple (\<lambda>w. I w \<and> approved rt w) (finish_with env m) (\<lambda>_. I) (\<lambda>_. I)"
  unfolding finish_with_def
  by (intro triple_andthen [where R = "\<lambda>_. I"] triple_modify triple_ret)
    (auto simp: keep_answer intro!: keep_terminate)

lemma review_triple:
  "triple (\<lambda>w. I w \<and> below rt w) (review_candidate env ct context answer)
     (\<lambda>r w. I w \<and> (\<exists>c\<in>set (rs_critiques (wo_state w)). cq_decision c = cr_decision r)) (\<lambda>_. I)"
proof (rule tripleI)
  fix w e w'
  assume I: "I w \<and> below rt w" and "review_candidate env ct context answer w = (Inl e, w')"
  then show "I w'"
    using keep_fail [OF keep_critique_step] keep_critique_step
    by (auto simp: review_candidate_def critic_failed_def Let_def split: sum.splits if_splits)
next
  fix w r w'
  assume I: "I w \<and> below rt w" and "review_candidate env ct context answer w = (Inr r, w')"
  then show "I w' \<and> (\<exists>c\<in>set (rs_critiques (wo_state w')). cq_decision c = cr_decision r)"
    using keep_completed [OF keep_critique [OF keep_critique_step]]
    by (auto simp: review_candidate_def Let_def split: sum.splits)
qed

lemma after_critique_triple:
  assumes "lm_tool_calls m = []"
  shows "triple (\<lambda>w. I w \<and> (\<exists>c\<in>set (rs_critiques (wo_state w)). cq_decision c = cr_decision cr))
     (after_critique env rt m answer cr) (\<lambda>_. I) (\<lambda>_. I)"
proof -
  have bump: "triple (\<lambda>w. I w \<and> rs_reflection_revision_rounds (wo_state w) <
          lp_reflection_revision_rounds (rt_policy rt))
      (andthen (modify (on_state (\<lambda>s. s\<lparr>rs_reflection_revision_rounds :=
              rs_reflection_revision_rounds s + 1, rs_status := StRunning\<rparr>)))
        (\<lambda>_. case cr_feedback cr of
            None \<Rightarrow> raise_failed env src e
          | Some f \<Rightarrow> ret (Some \<lparr>rv_candidate_answer = answer, rv_feedback = f\<rparr>)))
      (\<lambda>_. I) (\<lambda>_. I)" for src e
    using keep_status [OF keep_revision_rounds]
    by (intro triple_andthen [where R = "\<lambda>_. I"] triple_modify)
      (auto intro: triple_ret raise_triple split: option.split)
  show ?thesis
    using bump [unfolded triple_def] finish_triple [OF assms, unfolded triple_def]
      stop_triple [of StReflectionLimit StopReflectionLimit, unfolded triple_def]
    by (auto simp: triple_def after_critique_def approved_def split: critique_decision.split)
qed

lemma candidate_branch_triple:
  assumes "lm_tool_calls m = []"
  shows "triple I (candidate_branch env rt m) (\<lambda>_. I) (\<lambda>_. I)"
proof -
  have review: "triple (\<lambda>w. I w \<and> below rt w) (andthen (review_candidate env ct ctx answer)
      (after_critique env rt m answer)) (\<lambda>_. I) (\<lambda>_. I)" for ct ctx answer
    by (rule triple_andthen [OF review_triple after_critique_triple [OF assms]])
  have fails: "triple I (raise_failed env ''llm'' e :: revision_context option run)
      (\<lambda>_. I) (\<lambda>_. I)" for e
    by (rule raise_triple)
  show ?thesis
    using review [unfolded triple_def] finish_triple [OF assms, unfolded triple_def]
      stop_triple [of StMaxSteps StopMaxSteps, unfolded triple_def] fails [unfolded triple_def]
    by (auto simp: triple_def candidate_branch_def Let_def approved_def below_def split: option.split)
qed

lemma branches_triple:
  "triple (\<lambda>w. I w \<and> routed names w)
     (if lm_tool_calls m \<noteq> [] then tool_branch env rt rv names m else candidate_branch env rt m)
     (\<lambda>_. I) (\<lambda>_. I)"
  by (intro triple_if tool_branch_triple triple_weaken [OF candidate_branch_triple]) auto

end

text \<open>
  The whole step; the message of the model may take the world from one invariant to another.
\<close>

lemma step_body_triple:
  assumes I: "step_invariant env rt I" and J: "step_invariant env rt J"
    and message: "\<And>m w. I w \<Longrightarrow> below rt w \<Longrightarrow> J (record_message m w)"
  shows "triple (\<lambda>w. I w \<and> below rt w) (step_body env rt plan rv) (\<lambda>_. J) (\<lambda>_ w. I w \<or> J w)"
proof -
  have E: "triple P m Q (\<lambda>_ w. I w \<or> J w)" if "triple P m Q (\<lambda>_. I)" for P and m :: "'x run" and Q
    by (rule triple_weaken [OF that]) auto
  have F: "triple P m Q (\<lambda>_ w. I w \<or> J w)" if "triple P m Q (\<lambda>_. J)" for P and m :: "'x run" and Q
    by (rule triple_weaken [OF that]) auto
  have window: "triple (\<lambda>w. I w \<and> below rt w) (modify (session_window env))
      (\<lambda>_ w. I w \<and> below rt w \<and> session_memory w \<noteq> None) (\<lambda>_ w. I w \<or> J w)"
    using step_invariant.keep_window [OF I]
    by (intro triple_modify) (auto simp: below_def session_memory_window)
  have msg: "triple (\<lambda>w. I w \<and> below rt w \<and> routed names w) (modify (record_message m))
      (\<lambda>_ w. J w \<and> routed names w) (\<lambda>_ w. I w \<or> J w)" for names m
    using message by (intro triple_modify) (auto, simp add: record_message_def Let_def add_step_def)
  show ?thesis
    unfolding step_body_def
    by (rule triple_andthen [OF window], rule triple_andthen [OF E [OF step_invariant.router_triple [OF I]]],
        rule triple_andthen [OF E [OF step_invariant.record_route_triple [OF I]]],
        rule triple_andthen [OF E [OF step_invariant.model_triple [OF I]]],
        rule triple_andthen [OF msg], rule F [OF step_invariant.branches_triple [OF J]])
qed

context step_invariant
begin

lemma keeps_run_steps: "keeps I (run_steps env rt plan rv)"
proof -
  have "step_invariant env rt I" by unfold_locales
  then have "triple (\<lambda>w. I w \<and> below rt w) (step_body env rt plan rv) (\<lambda>_. I) (\<lambda>_. I)"
    using step_body_triple [of env rt I I] keep_message
    by (auto intro: triple_weaken)
  then show ?thesis
    using stop_triple [of StMaxSteps StopMaxSteps]
    by (auto simp: triple_def run_steps_def below_def)
qed

end

end
