(* ===== verification/Runtime_Loop.thy ===== *)
theory Runtime_Loop
  imports Runtime_Rules
begin

text \<open>
  The loop of \<open>Runtime.run_async\<close>: that it ends, and the run around it with its error handling
  and the terminal event.
\<close>

section \<open>Every step makes progress\<close>

lemma route_record_count:
  "record_route r w = (Inr names, w') \<Longrightarrow> step_count w' = step_count w"
  by (auto simp: record_route_def Let_def split: sum.splits)

lemma record_message_count [simp]: "step_count (record_message m w) = step_count w + 1"
  by (simp add: record_message_def Let_def add_step_def)

lemma process_result_count [simp]: "step_count (process_result env r w) = step_count w + 1"
  by (simp add: process_result_def Let_def add_step_def)

interpretation progress: step_invariant env rt "\<lambda>w. n < step_count w" for env rt n
  by unfold_locales (auto simp: record_critique_step_def dest: route_record_count)

interpretation count: step_invariant env rt "\<lambda>w. n \<le> step_count w" for env rt n
  by unfold_locales (auto simp: record_critique_step_def dest: route_record_count)

lemma step_body_progress:
  "triple (\<lambda>w. step_count w = n \<and> below rt w) (step_body env rt plan rv)
     (\<lambda>_ w. n < step_count w) (\<lambda>_ _. True)"
  by (rule triple_weaken [OF step_body_triple
        [OF count.step_invariant_axioms [of env rt n] progress.step_invariant_axioms [of env rt n]]])
    auto

lemma run_steps_progress:
  assumes "run_steps env rt plan revision w = (Inr rv, w')"
  shows "is_terminal (rs_status (wo_state w')) \<or>
    step_count w < step_count w' \<and> step_count w < lp_max_steps (rt_policy rt)"
proof (cases "lp_max_steps (rt_policy rt) \<le> step_count w")
  case True
  with assms show ?thesis by (auto simp: run_steps_def stop_with_def run_defs)
next
  case False
  with assms triple_Inr [OF step_body_progress, of w] show ?thesis
    by (auto simp: run_steps_def below_def not_le)
qed

section \<open>The loop and the run\<close>

function run_loop ::
  "env \<Rightarrow> runtime \<Rightarrow> task_plan option \<Rightarrow> revision_context option \<Rightarrow> unit run" where
  "run_loop env rt plan revision w =
     (if is_terminal (rs_status (wo_state w)) then (Inr (), w)
      else
        (case run_steps env rt plan revision w of
           (Inl e, w') \<Rightarrow> (Inl e, w')
         | (Inr revision', w') \<Rightarrow> run_loop env rt plan revision' w'))"
  by pat_completeness auto
termination
  by (relation "measure (\<lambda>(env, rt, plan, revision, w).
      if is_terminal (rs_status (wo_state w)) then 0
      else Suc (nat (lp_max_steps (rt_policy rt) - step_count w)))")
    (auto dest!: run_steps_progress [OF sym])

declare run_loop.simps [simp del]

text \<open>
  The loop with its number of tests bounded: \<open>max_steps\<close> rounds that each use up a step, the
  round that finds the limit reached and the test that ends the loop are enough.
\<close>

fun run_loop_fuel ::
  "nat \<Rightarrow> env \<Rightarrow> runtime \<Rightarrow> task_plan option \<Rightarrow> revision_context option \<Rightarrow> world \<Rightarrow>
   ((exn + unit) \<times> world) option" where
  "run_loop_fuel 0 env rt plan revision w = None"
| "run_loop_fuel (Suc n) env rt plan revision w =
     (if is_terminal (rs_status (wo_state w)) then Some (Inr (), w)
      else
        (case run_steps env rt plan revision w of
           (Inl e, w') \<Rightarrow> Some (Inl e, w')
         | (Inr revision', w') \<Rightarrow> run_loop_fuel n env rt plan revision' w'))"

definition rounds_left :: "runtime \<Rightarrow> world \<Rightarrow> nat" where
  "rounds_left rt w =
     (if is_terminal (rs_status (wo_state w)) then 0
      else Suc (nat (lp_max_steps (rt_policy rt) - step_count w)))"

lemma rounds_left_decreases:
  "\<not> is_terminal (rs_status (wo_state w)) \<Longrightarrow> run_steps env rt plan revision w = (Inr rv, w') \<Longrightarrow>
   rounds_left rt w' < rounds_left rt w"
  using run_steps_progress [of env rt plan revision w rv w'] by (auto simp: rounds_left_def)

lemma run_loop_fuel_enough:
  "rounds_left rt w < n \<Longrightarrow>
   run_loop_fuel n env rt plan revision w = Some (run_loop env rt plan revision w)"
proof (induction n arbitrary: revision w)
  case (Suc n)
  show ?case
  proof (cases "is_terminal (rs_status (wo_state w))")
    case True
    then show ?thesis by (subst run_loop.simps) simp
  next
    case False
    have "rounds_left rt w' < n" if "run_steps env rt plan revision w = (Inr rv, w')" for rv w'
      using rounds_left_decreases [OF False that] Suc.prems by linarith
    with False Suc.IH show ?thesis
      by (subst run_loop.simps) (auto split: prod.split sum.split)
  qed
qed simp

text \<open>
  The body of the \<open>try\<close>: the plan, then the loop.
\<close>

definition run_body :: "env \<Rightarrow> runtime \<Rightarrow> pystr \<Rightarrow> unit run" where
  "run_body env rt user_input =
     andthen (create_plan env rt user_input) (\<lambda>plan. run_loop env rt plan None)"

text \<open>
  \<open>_run_acquired_async\<close>. An \<open>AgentError\<close> has been turned into a terminal state where it was
  raised, a cancellation is recorded here; any other exception leaves the run as it is.
\<close>

definition run_acquired :: "env \<Rightarrow> runtime \<Rightarrow> pystr \<Rightarrow> pystr \<Rightarrow> run_state run" where
  "run_acquired env rt user_input sid w =
     (let w0 = emit RunStart (UserInput user_input) 0 (init_world env rt user_input sid w) in
      case run_body env rt user_input w0 of
        (Inr _, w1) \<Rightarrow> (Inr (wo_state w1), emit_terminal_event w1)
      | (Inl e, w1) \<Rightarrow>
          if is_agent_error (exn_class e) then (Inr (wo_state w1), emit_terminal_event w1)
          else if exn_class e = PyCancelledError then
            (Inl e,
             emit_terminal_event
               (on_state (terminate (en_dict_repr env) StCanceled StopCanceled (Some e) None
                            (Some (lit ''runtime''))) w1))
          else (Inl e, w1))"

text \<open>\<open>run_async\<close>, once the session's lease is held: the wiring check comes first.\<close>

definition run_async :: "env \<Rightarrow> runtime \<Rightarrow> pystr \<Rightarrow> pystr \<Rightarrow> run_state run" where
  "run_async env rt user_input sid =
     (if rt_wiring rt = NoModel then fail no_model_error
      else run_acquired env rt user_input sid)"

end
