(* ===== verification/Runtime_Facts.thy ===== *)
theory Runtime_Facts
  imports Runtime_Loop
begin

text \<open>
  What holds after every step, and so at the end of every run: the step list, the events, the
  router's cache, status and stop reason, the budgets, the tools that ran, the window.
\<close>

section \<open>The loop rule\<close>

lemma run_loop_triple:
  assumes step: "\<And>rv. triple (\<lambda>w. J rv w \<and> \<not> is_terminal (rs_status (wo_state w)))
      (run_steps env rt plan rv) J E"
  shows "triple (J rv) (run_loop env rt plan rv)
    (\<lambda>_ w. (\<exists>rv. J rv w) \<and> is_terminal (rs_status (wo_state w))) E"
proof -
  have "J rv w \<longrightarrow> (case run_loop env rt plan rv w of
      (Inl e, w') \<Rightarrow> E e w'
    | (Inr v, w') \<Rightarrow> (\<exists>rv. J rv w') \<and> is_terminal (rs_status (wo_state w')))" for w
    using step
  proof (induction env rt plan rv w rule: run_loop.induct)
    case (1 env rt plan rv w)
    show ?case
    proof (cases "is_terminal (rs_status (wo_state w))")
      case True
      then show ?thesis by (subst run_loop.simps) auto
    next
      case False
      obtain res w' where r: "run_steps env rt plan rv w = (res, w')" by fastforce
      show ?thesis
      proof (cases res)
        case (Inl e)
        with r False triple_Inl [OF "1.prems"] show ?thesis by (subst run_loop.simps) auto
      next
        case (Inr rv')
        with r False triple_Inr [OF "1.prems"] "1.IH" "1.prems" show ?thesis
          by (subst run_loop.simps) auto
      qed
    qed
  qed
  then show ?thesis by (simp add: triple_def)
qed

lemma run_loop_keeps:
  assumes "\<And>rv. keeps I (run_steps env rt plan rv)"
  shows "keeps I (run_loop env rt plan rv)"
  by (rule triple_weaken [OF run_loop_triple [where J = "\<lambda>_. I" and E = "\<lambda>_. I"]])
    (auto intro: triple_weaken [OF assms])

section \<open>Steps, events, router, session\<close>

definition steps_numbered :: "run_state \<Rightarrow> bool" where
  "steps_numbered s \<longleftrightarrow> map st_index (rs_steps s) = [0..rs_step_count s - 1] \<and> 0 \<le> rs_step_count s"

lemma steps_numbered_snoc:
  "steps_numbered s \<Longrightarrow> st_index st = rs_step_count s \<Longrightarrow>
   steps_numbered (s\<lparr>rs_steps := rs_steps s @ [st], rs_step_count := rs_step_count s + 1\<rparr>)"
  using upto_rec2 [of 0 "rs_step_count s"] by (simp add: steps_numbered_def)

lemma record_route_state:
  "record_route r w = (Inr names, w') \<Longrightarrow>
   \<exists>rec. wo_state w' = (wo_state w)\<lparr>rs_tool_routes := rs_tool_routes (wo_state w) @ [rec]\<rparr> \<and>
     rr_selected_tools rec = names \<and> wo_mm w' = wo_mm w \<and> wo_router w' = wo_router w \<and>
     wo_events w' = wo_events w @
       [\<lparr>ev_type = ToolRouting, ev_data = RouteData rec, ev_step_index = step_count w\<rparr>,
        \<lparr>ev_type = LlmRequest, ev_data = NoData, ev_step_index = step_count w\<rparr>]"
  by (auto simp: record_route_def Let_def split: sum.splits)

lemma update_same_numbered [simp]:
  "steps_numbered (s\<lparr>rs_tool_routes := x1\<rparr>) = steps_numbered s"
  "steps_numbered (s\<lparr>rs_tool_call_history := x2\<rparr>) = steps_numbered s"
  "steps_numbered (s\<lparr>rs_status := x3\<rparr>) = steps_numbered s"
  "steps_numbered (s\<lparr>rs_validation_failure_rounds := x4\<rparr>) = steps_numbered s"
  "steps_numbered (s\<lparr>rs_tool_error_rounds := x5\<rparr>) = steps_numbered s"
  "steps_numbered (s\<lparr>rs_reflection_revision_rounds := x6\<rparr>) = steps_numbered s"
  "steps_numbered (s\<lparr>rs_critiques := x7\<rparr>) = steps_numbered s"
  "steps_numbered (s\<lparr>rs_plan := x8\<rparr>) = steps_numbered s"
  "steps_numbered (terminate dr st r e i src s) = steps_numbered s"
  by (simp_all add: steps_numbered_def)

interpretation numbered: step_invariant env rt "\<lambda>w. steps_numbered (wo_state w)" for env rt
  by unfold_locales
    (auto simp: record_critique_step_def record_message_def process_result_def add_step_def Let_def
      intro!: steps_numbered_snoc dest!: record_route_state)

text \<open>The events since \<open>pre\<close>, none of a type in \<open>bad\<close>.\<close>

definition events_avoid :: "event_type set \<Rightarrow> event list \<Rightarrow> event list \<Rightarrow> bool" where
  "events_avoid bad pre evs \<longleftrightarrow> (\<exists>es. evs = pre @ es \<and> ev_type ` set es \<inter> bad = {})"

lemma events_avoid_refl [simp]: "events_avoid bad pre pre"
  by (simp add: events_avoid_def)

lemma events_avoid_snoc:
  "events_avoid bad pre evs \<Longrightarrow> ev_type ` set es \<inter> bad = {} \<Longrightarrow> events_avoid bad pre (evs @ es)"
  by (force simp: events_avoid_def)

interpretation no_terminal:
  step_invariant env rt "\<lambda>w. events_avoid {RunFinish, RunError} pre (wo_events w)" for env rt pre
  by unfold_locales
    (auto simp: record_message_def process_result_def Let_def
      intro!: events_avoid_snoc dest!: record_route_state)

interpretation no_tokens:
  step_invariant env rt
    "\<lambda>w. rt_critic rt \<noteq> None \<longrightarrow> events_avoid {LlmToken} pre (wo_events w)" for env rt pre
  by unfold_locales
    (auto simp: record_message_def process_result_def Let_def
      intro!: events_avoid_snoc dest!: record_route_state)

interpretation cache: step_invariant env rt "\<lambda>w. cache_ok (wo_router w)" for env rt
  by unfold_locales
    (auto simp: record_message_def process_result_def Let_def
      intro: er.pick_ok dest!: record_route_state)

interpretation session: step_invariant env rt "\<lambda>w. rs_session_id (wo_state w) = sid" for env rt sid
  by unfold_locales
    (auto simp: record_message_def process_result_def record_critique_step_def add_step_def Let_def
      dest!: record_route_state)

section \<open>Status, stop reason and attribution\<close>

text \<open>
  A run that goes on has no stop reason; an ended run has the reason of its status. An
  \<open>AgentError\<close> that leaves a step has been attributed to the component it came from.
\<close>

definition live :: "world \<Rightarrow> bool" where
  "live w \<longleftrightarrow> \<not> is_terminal (rs_status (wo_state w)) \<and> rs_stop_reason (wo_state w) = None"

definition reason_fits :: "world \<Rightarrow> bool" where
  "reason_fits w \<longleftrightarrow> rs_stop_reason (wo_state w) = reason_of (rs_status (wo_state w))"

definition attributed :: "env \<Rightarrow> exn \<Rightarrow> run_state \<Rightarrow> bool" where
  "attributed env e s \<longleftrightarrow>
     rs_status s = StFailed \<and> rs_stop_reason s = Some StopError \<and> rs_error s = Some e \<and>
     rs_error_info s = Some (exn_to_dict (en_dict_repr env) e) \<and>
     (\<exists>src\<in>{''planner'', ''router'', ''llm'', ''tool'', ''critic''}.
        rs_error_source s = Some (lit src))"

definition raised_ok :: "env \<Rightarrow> exn \<Rightarrow> world \<Rightarrow> bool" where
  "raised_ok env e w \<longleftrightarrow>
     reason_fits w \<and> (is_agent_error (exn_class e) \<longrightarrow> attributed env e (wo_state w))"

text \<open>A step that returned: a failed run has an attributed error.\<close>

definition settled_ok :: "env \<Rightarrow> world \<Rightarrow> bool" where
  "settled_ok env w \<longleftrightarrow>
     reason_fits w \<and> (rs_status (wo_state w) = StFailed \<longrightarrow> (\<exists>e. attributed env e (wo_state w)))"

lemma live_settled_ok: "live w \<Longrightarrow> settled_ok env w"
  by (cases "rs_status (wo_state w)")
    (auto simp: live_def settled_ok_def reason_fits_def)

lemma settled_ok_ended: "settled_ok env w \<Longrightarrow> reason_fits w"
  by (simp add: settled_ok_def)

lemma live_iff: "live w \<longleftrightarrow> reason_fits w \<and> \<not> is_terminal (rs_status (wo_state w))"
  by (auto simp: live_def reason_fits_def reason_of_terminal)

lemma live_reason_fits: "live w \<Longrightarrow> reason_fits w"
  by (simp add: live_iff)

lemma live_frame [simp]:
  "live (emit t d i w) = live w" "live (remember enc m w) = live w"
  "live (session_window env w) = live w" "live (w\<lparr>wo_router := er\<rparr>) = live w"
  "live (process_result env r w) = live w" "live (record_message lm w) = live w"
  "live (on_state (\<lambda>s. s\<lparr>rs_tool_call_history := h\<rparr>) w) = live w"
  by (simp_all add: live_def process_result_def record_message_def Let_def add_step_def)

lemma fail_agent_attributed:
  "src \<in> {''planner'', ''router'', ''llm'', ''tool'', ''critic''} \<Longrightarrow>
   attributed env e (fail_agent (en_dict_repr env) src e s)"
  by (simp add: attributed_def fail_agent_def terminate_def)

lemma raised_ok_agent:
  "src \<in> {''planner'', ''router'', ''llm'', ''tool'', ''critic''} \<Longrightarrow>
   raised_ok env e (on_state (fail_agent (en_dict_repr env) src e) w)"
  using fail_agent_attributed by (simp add: raised_ok_def reason_fits_def)

lemma raised_ok_plain:
  "\<not> is_agent_error (exn_class e) \<Longrightarrow>
   raised_ok env e (on_state (fail_plain (en_dict_repr env) src e) w)"
  by (simp add: raised_ok_def reason_fits_def)

lemma raised_ok_other:
  "\<not> is_agent_error (exn_class e) \<Longrightarrow> reason_fits w \<Longrightarrow> raised_ok env e w"
  by (simp add: raised_ok_def)

lemma raised_ok_any:
  assumes "triple P m Q (\<lambda>_. reason_fits)"
    and "src \<in> {''planner'', ''router'', ''llm'', ''tool'', ''critic''}"
  shows "triple P (except_any env src m) Q (raised_ok env)"
  by (rule triple_except_any, rule triple_weaken [OF assms(1)])
    (use raised_ok_agent [OF assms(2)] raised_ok_plain raised_ok_other in auto)

lemma raised_ok_router:
  assumes "triple P m Q (\<lambda>_. reason_fits)"
    and "src \<in> {''planner'', ''router'', ''llm'', ''tool'', ''critic''}"
  shows "triple P (except_agent env src m) Q (raised_ok env)"
  by (rule triple_except_agent, rule triple_weaken [OF assms(1)])
    (use raised_ok_agent [OF assms(2)] raised_ok_other in auto)

lemma live_router: "triple live (call_router env rt plan rv) (\<lambda>_. live) (\<lambda>_. reason_fits)"
  by (rule tripleI) (auto simp: call_router_def live_reason_fits split: sum.splits prod.splits)

lemma live_model: "triple live (call_model env rt plan rv schemas) (\<lambda>_. live) (raised_ok env)"
proof -
  have "triple live (get_llm_message env rt ms ss b) (\<lambda>_. live) (\<lambda>_. reason_fits)" for ms ss b
    by (rule tripleI) (metis get_llm_message_state live_def live_reason_fits snd_conv)+
  then have "triple live (except_any env ''llm'' (get_llm_message env rt ms ss b)) (\<lambda>_. live)
      (raised_ok env)" for ms ss b
    by (rule raised_ok_any) simp
  then show ?thesis by (simp add: triple_def call_model_def Let_def)
qed

lemma extend_history_error:
  "extend_history fl tcs h = (Inl e, h') \<Longrightarrow> exn_class e = PyValueError"
  by (induction fl tcs h rule: extend_history.induct)
    (auto simp: make_signature_def canonicalize_arguments_def value_error_def
      split: sum.splits json_error.splits)

lemma check_loop_error: "check_loop rt w = (Inl e, w') \<Longrightarrow> exn_class e = PyValueError \<and> w' = w"
  by (auto simp: check_loop_def check_tool_calls_def is_consecutive_repeat_def value_error_def
      split: if_splits)

lemma validate_error: "validate fl ie ss allowed raw calls = Inl e \<Longrightarrow> exn_class e = PyValueError"
proof -
  have one: "validate_one fl ie ss allowed c = Inl e \<Longrightarrow> exn_class e = PyValueError" for c
    by (auto simp: validate_one_def Let_def parse_arguments_def
        split: option.splits if_splits json.splits sum.splits json_error.splits parsed_arguments.splits)
  have "validate_calls (\<lambda>c. validate_one fl ie ss allowed (raw c)) cs = Inl e \<Longrightarrow>
      exn_class e = PyValueError" for cs
    by (induction cs) (auto dest: one split: sum.splits)
  then show "validate fl ie ss allowed raw calls = Inl e \<Longrightarrow> exn_class e = PyValueError"
    by (simp add: validate_def)
qed

lemma live_foldl: "(\<And>u x. live (f u x) = live u) \<Longrightarrow> live (foldl f w xs) = live w"
  by (induction xs arbitrary: w) auto

lemma live_validation_failure:
  "triple live (handle_validation_failure env rt vs)
     (\<lambda>ok w. if ok then live w else settled_ok env w) (raised_ok env)"
proof (rule tripleI)
  fix w ok w' assume w: "live w" and r: "handle_validation_failure env rt vs w = (Inr ok, w')"
  have "live (foldl (\<lambda>u v. remember (en_enc env) (violation_message v) u)
      (on_state (\<lambda>s. s\<lparr>rs_validation_failure_rounds := rs_validation_failure_rounds s + 1\<rparr>) w) vs)"
    using w by (subst live_foldl) (simp_all add: live_def)
  then show "if ok then live w' else settled_ok env w'"
    using r by (auto simp: handle_validation_failure_def Let_def settled_ok_def reason_fits_def split: if_splits)
qed (auto simp: handle_validation_failure_def Let_def split: if_splits)

lemma settled_ok_agent:
  "src \<in> {''planner'', ''router'', ''llm'', ''tool'', ''critic''} \<Longrightarrow>
   settled_ok env (w\<lparr>wo_state := fail_agent (en_dict_repr env) src e s\<rparr>)"
  using fail_agent_attributed [of src env e s]
  by (auto simp: settled_ok_def reason_fits_def)

lemma live_results:
  "triple live (process_tool_results env rt rs) (\<lambda>_. settled_ok env) (raised_ok env)"
proof (rule tripleI)
  fix w v w' assume w: "live w" and r: "process_tool_results env rt rs w = (Inr v, w')"
  have "live (foldl (\<lambda>u r. process_result env r u) w rs)"
    using w by (subst live_foldl) simp_all
  then have live: "live (on_state (\<lambda>s. s\<lparr>rs_tool_error_rounds := k, rs_status := StRunning\<rparr>)
      (foldl (\<lambda>u r. process_result env r u) w rs))" for k
    by (simp add: live_def)
  show "settled_ok env w'"
    using r live_settled_ok [OF live] settled_ok_agent [of "''tool''" env]
    by (auto simp: process_tool_results_def Let_def split: if_splits)
qed (auto simp: process_tool_results_def Let_def split: if_splits)

lemma check_tool_calls_error: "check_tool_calls p h = Inl e \<Longrightarrow> exn_class e = PyValueError"
  by (auto simp: check_tool_calls_def is_consecutive_repeat_def value_error_def split: if_splits)

lemma reason_terminate:
  "reason_of st = Some r \<Longrightarrow> st \<noteq> StFailed \<Longrightarrow>
   settled_ok env (on_state (terminate dr st r e i src) w)"
  by (simp add: settled_ok_def reason_fits_def)

lemma fits_stop:
  "reason_of st = Some r \<Longrightarrow> st \<noteq> StFailed \<Longrightarrow>
   triple P (stop_with env st r) (\<lambda>_. settled_ok env) E"
  unfolding stop_with_def
  by (intro triple_andthen [where R = "\<lambda>_. settled_ok env"] triple_modify triple_ret reason_terminate)

lemma fits_finish: "triple P (finish_with env m) (\<lambda>_. settled_ok env) E"
  unfolding finish_with_def
  by (intro triple_andthen [where R = "\<lambda>_. settled_ok env" and m = "modify (on_state f)" for f]
      triple_andthen [where R = "\<lambda>_ _. True"] triple_modify triple_ret)
    (simp_all add: settled_ok_def reason_fits_def)

lemma fits_raise:
  assumes "src \<in> {''planner'', ''router'', ''llm'', ''tool'', ''critic''}"
  shows "triple P (raise_failed env src e) (\<lambda>_. Q) (raised_ok env)"
  unfolding raise_failed_def
proof (rule triple_andthen)
  show "triple P (modify (on_state (fail_agent (en_dict_repr env) src e))) (\<lambda>_. raised_ok env e)
      (raised_ok env)"
    by (rule triple_modify) (rule raised_ok_agent [OF assms])
qed (rule triple_fail)

lemma fits_valid_calls:
  "triple live (run_valid_calls env rt rv calls) (\<lambda>_. settled_ok env) (raised_ok env)"
proof -
  have "triple live (\<lambda>w. (execute_calls fl dr reg calls, w)) (\<lambda>_. live) (\<lambda>_. reason_fits)"
    for fl dr reg
    by (rule tripleI) (auto simp: live_reason_fits)
  then have "triple live (except_any env ''tool'' (\<lambda>w. (execute_calls fl dr reg calls, w)))
      (\<lambda>_. live) (raised_ok env)" for fl dr reg
    by (rule raised_ok_any) simp
  then show ?thesis
    unfolding run_valid_calls_def
    by (rule triple_andthen [where R = "\<lambda>_. live"])
      (intro triple_andthen [where R = "\<lambda>_. settled_ok env"] live_results triple_ret)
qed

lemma fits_after_validation:
  "triple live (after_validation env rt rv v) (\<lambda>_. settled_ok env) (raised_ok env)"
  unfolding after_validation_def
proof (rule triple_andthen [where R = "\<lambda>ok w. if ok then live w else settled_ok env w"])
  show "triple live
     (if vr_violations v \<noteq> [] then handle_validation_failure env rt (vr_violations v)
      else andthen (modify (on_state (\<lambda>s. s\<lparr>rs_validation_failure_rounds := 0\<rparr>))) (\<lambda>_. ret True))
     (\<lambda>ok w. if ok then live w else settled_ok env w) (raised_ok env)"
    by (intro triple_if live_validation_failure triple_andthen [where R = "\<lambda>_. live"]
        triple_modify triple_ret) (auto simp: live_def)
next
  fix ok
  have "triple live (andthen (modify (on_state (\<lambda>s. s\<lparr>rs_status := StRunning\<rparr>))) (\<lambda>_. ret rv))
      (\<lambda>_. settled_ok env) (raised_ok env)"
    by (intro triple_andthen [where R = "\<lambda>_. settled_ok env"] triple_modify triple_ret)
      (auto simp: live_def settled_ok_def reason_fits_def)
  then show "triple (\<lambda>w. if ok then live w else settled_ok env w)
     (if \<not> ok then ret None
      else if vr_valid_calls v = [] then
        andthen (modify (on_state (\<lambda>s. s\<lparr>rs_status := StRunning\<rparr>))) (\<lambda>_. ret rv)
      else run_valid_calls env rt rv (vr_valid_calls v)) (\<lambda>_. settled_ok env) (raised_ok env)"
    using fits_valid_calls by (cases ok) (auto intro: triple_ret)
qed

lemma fits_tool_branch:
  "triple live (tool_branch env rt rv names m) (\<lambda>_. settled_ok env) (raised_ok env)"
proof -
  have note_calls: "triple live (note_calls env calls) (\<lambda>_. live) (raised_ok env)" for calls
    by (rule tripleI)
      (auto simp: note_calls_def raised_ok_def live_reason_fits dest!: extend_history_error
        split: prod.splits)
  have loop: "triple live (check_loop rt) (\<lambda>_. live) (raised_ok env)"
    by (rule tripleI)
      (auto simp: check_loop_def raised_ok_def live_reason_fits dest: check_tool_calls_error)
  have check: "triple live (\<lambda>w. (validate_routed env rt names calls, w)) (\<lambda>_. live) (raised_ok env)"
    for calls
    by (rule tripleI)
      (auto simp: raised_ok_def live_reason_fits validate_routed_def dest: validate_error)
  have awaiting: "triple live (modify (on_state (\<lambda>s. s\<lparr>rs_status := StAwaitingTool\<rparr>))) (\<lambda>_. live)
      (raised_ok env)"
    by (rule triple_modify) (simp add: live_def)
  have stop: "triple live (andthen (modify (on_state
        (terminate (en_dict_repr env) StLoopDetected StopLoopDetected None None None)))
        (\<lambda>_. ret None)) (\<lambda>_. settled_ok env) (raised_ok env)"
    by (intro triple_andthen [where R = "\<lambda>_. settled_ok env"] triple_modify triple_ret
        reason_terminate) simp_all
  show ?thesis
    unfolding tool_branch_def
    by (intro triple_andthen [where R = "\<lambda>_. live"] triple_if note_calls loop check awaiting stop
        fits_after_validation triple_modify) simp_all
qed

lemma fits_review:
  "triple live (review_candidate env ct ctx answer) (\<lambda>_. live) (raised_ok env)"
proof (rule tripleI)
  fix w r w' assume "live w" "review_candidate env ct ctx answer w = (Inr r, w')"
  then show "live w'"
    by (auto simp: review_candidate_def Let_def live_def record_critique_step_def split: sum.splits)
next
  fix w e w' assume w: "live w" and "review_candidate env ct ctx answer w = (Inl e, w')"
  then obtain i c k where "w' = on_state (critic_failed env i c k e) w"
    by (auto simp: review_candidate_def Let_def split: sum.splits)
  with w show "raised_ok env e w'"
    by (auto simp: critic_failed_def Let_def raised_ok_def attributed_def fail_agent_def
        fail_plain_def terminate_def settled_ok_def reason_fits_def live_def record_critique_step_def
        reason_of_terminal)
qed

lemma fits_after_critique:
  "triple live (after_critique env rt m answer cr) (\<lambda>_. settled_ok env) (raised_ok env)"
proof -
  have bump: "triple live
      (andthen (modify (on_state (\<lambda>s. s\<lparr>rs_reflection_revision_rounds :=
              rs_reflection_revision_rounds s + 1, rs_status := StRunning\<rparr>)))
        (\<lambda>_. case cr_feedback cr of
            None \<Rightarrow> raise_failed env ''critic'' e
          | Some f \<Rightarrow> ret (Some \<lparr>rv_candidate_answer = answer, rv_feedback = f\<rparr>)))
      (\<lambda>_. settled_ok env) (raised_ok env)" for e
    by (intro triple_andthen [where R = "\<lambda>_. live"] triple_modify)
      (auto simp: live_def settled_ok_def reason_fits_def reason_of_terminal intro!: triple_ret fits_raise
        split: option.split)
  show ?thesis
    using bump [unfolded triple_def] fits_finish [of live env m "raised_ok env", unfolded triple_def]
      fits_stop [of StReflectionLimit StopReflectionLimit live env "raised_ok env", unfolded triple_def]
    by (simp add: triple_def after_critique_def split: critique_decision.split)
qed

lemma fits_candidate_branch:
  "triple live (candidate_branch env rt m) (\<lambda>_. settled_ok env) (raised_ok env)"
proof -
  have review: "triple live (andthen (review_candidate env ct ctx answer)
      (after_critique env rt m answer)) (\<lambda>_. settled_ok env) (raised_ok env)" for ct ctx answer
    by (intro triple_andthen [where R = "\<lambda>_. live"] fits_review fits_after_critique)
  have fails: "triple live (raise_failed env ''llm'' e :: revision_context option run)
      (\<lambda>_. settled_ok env) (raised_ok env)" for e
    by (rule fits_raise) simp
  show ?thesis
    using review [unfolded triple_def] fits_finish [of live env m "raised_ok env", unfolded triple_def]
      fits_stop [of StMaxSteps StopMaxSteps live env "raised_ok env", unfolded triple_def]
      fails [unfolded triple_def]
    by (simp add: triple_def candidate_branch_def Let_def split: option.split)
qed

lemma selected_names_total:
  assumes "cache_ok (wo_router w)"
    and "call_router env rt plan rv w = (Inr r, w')"
  shows "\<exists>names. selected_names r = Inr names"
  using assms route_Inr by (auto simp: call_router_def route_ok_def split: sum.splits prod.splits)

text \<open>The whole step, in a world whose router has a well-formed cache.\<close>

lemma fits_route:
  "triple (\<lambda>w. live w \<and> cache_ok (wo_router w))
     (except_agent env ''router'' (call_router env rt plan rv))
     (\<lambda>r w. live w \<and> (\<exists>names. selected_names r = Inr names)) (raised_ok env)"
proof (rule raised_ok_router)
  show "triple (\<lambda>w. live w \<and> cache_ok (wo_router w)) (call_router env rt plan rv)
     (\<lambda>r w. live w \<and> (\<exists>names. selected_names r = Inr names)) (\<lambda>_. reason_fits)"
    using live_router [of env rt plan rv] selected_names_total
    by (intro tripleI) (blast dest: triple_Inr triple_Inl)+
qed simp

lemma fits_record_route:
  "triple (\<lambda>w. live w \<and> (\<exists>names. selected_names r = Inr names)) (record_route r)
     (\<lambda>_. live) (raised_ok env)"
  by (rule tripleI) (auto simp: live_def record_route_def Let_def)

lemma fits_step_body:
  "triple (\<lambda>w. live w \<and> cache_ok (wo_router w)) (step_body env rt plan rv)
     (\<lambda>_. settled_ok env) (raised_ok env)"
proof -
  have window: "triple (\<lambda>w. live w \<and> cache_ok (wo_router w)) (modify (session_window env))
      (\<lambda>_ w. live w \<and> cache_ok (wo_router w)) (raised_ok env)"
    by (rule triple_modify) simp
  have branches: "triple live
      (if lm_tool_calls m \<noteq> [] then tool_branch env rt rv names m else candidate_branch env rt m)
      (\<lambda>_. settled_ok env) (raised_ok env)" for m names
    by (intro triple_if fits_tool_branch fits_candidate_branch)
  show ?thesis
    unfolding step_body_def
    by (rule triple_andthen [OF window], rule triple_andthen [OF fits_route],
        rule triple_andthen [OF fits_record_route], rule triple_andthen [OF live_model])
      (intro triple_andthen [where R = "\<lambda>_. live"] triple_modify branches, simp)
qed

lemma fits_run_steps:
  "triple (\<lambda>w. live w \<and> cache_ok (wo_router w)) (run_steps env rt plan rv)
     (\<lambda>_ w. settled_ok env w \<and> cache_ok (wo_router w)) (raised_ok env)"
proof -
  have "triple (\<lambda>w. live w \<and> cache_ok (wo_router w)) (run_steps env rt plan rv)
     (\<lambda>_. settled_ok env) (raised_ok env)"
    using fits_step_body [of env rt plan rv, unfolded triple_def]
      fits_stop [of StMaxSteps StopMaxSteps "\<lambda>w. live w \<and> cache_ok (wo_router w)" env "raised_ok env",
        unfolded triple_def]
    by (simp add: triple_def run_steps_def)
  with cache.keeps_run_steps [of env rt plan rv] show ?thesis
    by (intro tripleI) (blast dest: triple_Inr triple_Inl)+
qed

lemma fits_run_loop:
  "triple (\<lambda>w. settled_ok env w \<and> cache_ok (wo_router w)) (run_loop env rt plan rv)
     (\<lambda>_ w. settled_ok env w \<and> is_terminal (rs_status (wo_state w))) (raised_ok env)"
proof -
  have "triple (\<lambda>w. (settled_ok env w \<and> cache_ok (wo_router w)) \<and> \<not> is_terminal (rs_status (wo_state w)))
      (run_steps env rt plan rv) (\<lambda>_ w. settled_ok env w \<and> cache_ok (wo_router w)) (raised_ok env)" for rv
    by (rule triple_weaken [OF fits_run_steps]) (auto simp: live_iff settled_ok_def)
  from run_loop_triple [where J = "\<lambda>_ w. settled_ok env w \<and> cache_ok (wo_router w)", OF this]
  show ?thesis by (rule triple_weaken) auto
qed

section \<open>Bounds\<close>

text \<open>Model calls and reviews happen only while steps are left.\<close>

definition calls_bounded :: "runtime \<Rightarrow> run_state \<Rightarrow> bool" where
  "calls_bounded rt s \<longleftrightarrow>
     (\<forall>st\<in>set (rs_steps s). st_kind st \<noteq> ToolExec \<longrightarrow> st_index st < lp_max_steps (rt_policy rt))"

interpretation bounded: step_invariant env rt "\<lambda>w. calls_bounded rt (wo_state w)" for env rt
  by unfold_locales
    (auto simp: calls_bounded_def record_critique_step_def record_message_def process_result_def
      add_step_def Let_def below_def dest!: record_route_state)

lemma numbered_distinct:
  assumes "steps_numbered s"
  shows "distinct (map st_index (rs_steps s))"
  using assms by (simp add: steps_numbered_def)

lemma calls_bounded_count:
  assumes "steps_numbered s" "calls_bounded rt s"
  shows "len (filter (\<lambda>st. st_kind st \<noteq> ToolExec) (rs_steps s)) \<le> max 0 (lp_max_steps (rt_policy rt))"
proof -
  let ?xs = "map st_index (filter (\<lambda>st. st_kind st \<noteq> ToolExec) (rs_steps s))"
  have "distinct ?xs"
    using numbered_distinct [OF assms(1)] by (simp add: distinct_map_filter)
  then have "length ?xs = card (set ?xs)" by (simp only: distinct_card)
  moreover have "set ?xs \<subseteq> {0..<lp_max_steps (rt_policy rt)}"
  proof
    fix i assume "i \<in> set ?xs"
    then obtain st where st: "st \<in> set (rs_steps s)" "st_kind st \<noteq> ToolExec" "i = st_index st"
      by auto
    have "st_index st \<in> set [0..rs_step_count s - 1]"
      using st assms(1) by (metis imageI set_map steps_numbered_def)
    then have "0 \<le> i" by (simp add: st(3))
    with st assms(2) show "i \<in> {0..<lp_max_steps (rt_policy rt)}"
      by (auto simp: calls_bounded_def)
  qed
  then have "card (set ?xs) \<le> card {0..<lp_max_steps (rt_policy rt)}"
    by (intro card_mono) auto
  ultimately show ?thesis by simp
qed

text \<open>The number of revisions, and of requests the router has been asked for.\<close>

interpretation revisions:
  step_invariant env rt
    "\<lambda>w. rs_reflection_revision_rounds (wo_state w) \<le>
       max 0 (lp_reflection_revision_rounds (rt_policy rt))"
  for env rt
  by unfold_locales
    (auto simp: record_critique_step_def record_message_def process_result_def add_step_def Let_def
      dest!: record_route_state)

section \<open>Which tools ran\<close>

text \<open>
  Scanning the events with the selection of the last route: every tool response is for a selected
  tool.
\<close>

fun responses_routed :: "pystr list \<Rightarrow> event list \<Rightarrow> bool" where
  "responses_routed selected [] = True"
| "responses_routed selected (e # es) =
     (case ev_data e of
        RouteData r \<Rightarrow> responses_routed (rr_selected_tools r) es
      | ToolData t \<Rightarrow> tp_name t \<in> set selected \<and> responses_routed selected es
      | _ \<Rightarrow> responses_routed selected es)"

fun last_selected :: "pystr list \<Rightarrow> event list \<Rightarrow> pystr list" where
  "last_selected selected [] = selected"
| "last_selected selected (e # es) =
     (case ev_data e of
        RouteData r \<Rightarrow> last_selected (rr_selected_tools r) es
      | _ \<Rightarrow> last_selected selected es)"

lemma responses_routed_append:
  "responses_routed sel (xs @ ys) \<longleftrightarrow>
     responses_routed sel xs \<and> responses_routed (last_selected sel xs) ys"
  by (induction sel xs rule: responses_routed.induct) (auto split: event_data.splits)

lemma last_selected_append:
  "last_selected sel (xs @ ys) = last_selected (last_selected sel xs) ys"
  by (induction sel xs rule: last_selected.induct) (auto split: event_data.splits)

definition selected_now :: "route_record list \<Rightarrow> pystr list" where
  "selected_now rs = (if rs = [] then [] else rr_selected_tools (last rs))"

lemma selected_now_snoc [simp]: "selected_now (rs @ [r]) = rr_selected_tools r"
  by (simp add: selected_now_def)

lemma routed_selected_now: "routed names w \<Longrightarrow> selected_now (rs_tool_routes (wo_state w)) = names"
  by (simp add: routed_def selected_now_def)

definition tools_routed :: "event list \<Rightarrow> world \<Rightarrow> bool" where
  "tools_routed pre w \<longleftrightarrow>
     (\<exists>es. wo_events w = pre @ es \<and> responses_routed [] es \<and>
        last_selected [] es = selected_now (rs_tool_routes (wo_state w)))"

lemma tools_routed_snoc:
  assumes "tools_routed pre w" "wo_events w' = wo_events w @ xs"
    and "\<And>sel. sel = selected_now (rs_tool_routes (wo_state w)) \<Longrightarrow>
      responses_routed sel xs \<and> last_selected sel xs = selected_now (rs_tool_routes (wo_state w'))"
  shows "tools_routed pre w'"
  using assms by (auto simp: tools_routed_def responses_routed_append last_selected_append)

lemma tools_routed_quiet:
  "tools_routed pre w \<Longrightarrow> (\<And>r. d \<noteq> RouteData r) \<Longrightarrow> (\<And>t. d \<noteq> ToolData t) \<Longrightarrow>
   tools_routed pre (emit ty d i w)"
  by (erule tools_routed_snoc) (auto split: event_data.splits)

lemma tools_routed_state [simp]:
  "rs_tool_routes s = rs_tool_routes (wo_state w) \<Longrightarrow>
   tools_routed pre (w\<lparr>wo_state := s\<rparr>) = tools_routed pre w"
  by (simp add: tools_routed_def)

lemma tools_routed_frame [simp]:
  "tools_routed pre (remember enc m w) = tools_routed pre w"
  "tools_routed pre (session_window env w) = tools_routed pre w"
  "tools_routed pre (w\<lparr>wo_router := er\<rparr>) = tools_routed pre w"
  by (simp_all add: tools_routed_def)

lemma tools_routed_route:
  "tools_routed pre w \<Longrightarrow> record_route r w = (Inr names, w') \<Longrightarrow> tools_routed pre w'"
  by (drule record_route_state, elim exE conjE, erule tools_routed_snoc, assumption) simp

lemma tools_routed_result:
  assumes "tools_routed pre w" "routed names w" "tc_name (tres_call tr) \<in> set names"
  shows "tools_routed pre (process_result env tr w)"
  by (rule tools_routed_snoc [OF assms(1)])
    (use assms(3) routed_selected_now [OF assms(2)] in
      \<open>auto simp: process_result_def Let_def add_step_def result_report_def\<close>)

lemma tools_routed_message: "tools_routed pre w \<Longrightarrow> tools_routed pre (record_message m w)"
  by (erule tools_routed_snoc) (auto simp: record_message_def Let_def add_step_def)

lemma tools_routed_step [simp]:
  "tools_routed pre (on_state (record_critique_step i c k d e) w) = tools_routed pre w"
  by (simp add: record_critique_step_def)

lemma call_allowed_name: "call_allowed env rt names tc \<Longrightarrow> tc_name tc \<in> set names"
  by (auto simp: call_allowed_def call_ok_raw)

interpretation tools: step_invariant env rt "tools_routed pre" for env rt pre
  by unfold_locales
    (simp_all add: tools_routed_quiet tools_routed_message tools_routed_route,
     auto simp: opened_def intro: tools_routed_result call_allowed_name)

section \<open>The window\<close>

text \<open>Every tool message in the window of the session answers a call of its turn.\<close>

lemma paired_remember:
  assumes "paired (session_messages w)"
    and "is_tool m \<Longrightarrow> m_tool_call_id m \<in> set (open_ids (session_messages w))"
  shows "paired (session_messages (remember enc m w))"
proof (cases "session_memory w")
  case None
  then show ?thesis by (simp add: session_messages_def session_memory_remember paired_def)
next
  case (Some b)
  then have "paired (bm_messages b @ [m])"
    using assms by (simp add: session_messages_def paired_snoc)
  with Some show ?thesis
    by (simp add: session_messages_def session_memory_remember add_message_paired)
qed

lemma paired_result:
  assumes "paired (session_messages w)"
    and "tc_id (tres_call tr) \<in> set (open_ids (session_messages w))"
  shows "paired (session_messages (process_result env tr w))"
  using assms
  by (simp add: process_result_def Let_def result_message_def add_step_def
      paired_remember [where m = "tool_message i n c" for i n c])

interpretation pairing: step_invariant env rt "\<lambda>w. paired (session_messages w)" for env rt
  by unfold_locales
    (auto simp: record_critique_step_def record_message_def add_step_def Let_def opened_def
      violation_message_def terminate_def record_route_def
      intro!: paired_remember paired_result split: sum.splits)

text \<open>
  With a critic: every assistant message without tool calls in the window was there before the
  run, or the critic has accepted a candidate.
\<close>

definition plain_answer :: "message \<Rightarrow> bool" where
  "plain_answer m \<longleftrightarrow> m_role m = lit ''assistant'' \<and> m_tool_calls m = []"

definition drafts_out :: "runtime \<Rightarrow> message set \<Rightarrow> world \<Rightarrow> bool" where
  "drafts_out rt old w \<longleftrightarrow>
     rt_critic rt \<noteq> None \<and> \<not> approved rt w \<longrightarrow>
     (\<forall>m\<in>set (session_messages w). plain_answer m \<longrightarrow> m \<in> old)"

lemma session_messages_added:
  "set (session_messages (remember enc m w)) \<subseteq> insert m (set (session_messages w))"
proof (cases "session_memory w")
  case None
  then show ?thesis by (simp add: session_messages_def session_memory_remember)
next
  case (Some b)
  then show ?thesis
    using set_mono_suffix [OF add_message_suffix [of enc m b]]
    by (simp add: session_messages_def session_memory_remember)
qed

lemma drafts_out_remember:
  "drafts_out rt old w \<Longrightarrow> \<not> plain_answer m \<Longrightarrow> drafts_out rt old (remember enc m w)"
  using session_messages_added [of enc m w]
  by (auto simp: drafts_out_def approved_def)

lemma drafts_out_state [simp]:
  "rs_session_id s = rs_session_id (wo_state w) \<Longrightarrow> rs_critiques s = rs_critiques (wo_state w) \<Longrightarrow>
   drafts_out rt old (w\<lparr>wo_state := s\<rparr>) = drafts_out rt old w"
  by (simp add: drafts_out_def approved_def)

lemma drafts_out_frame [simp]:
  "drafts_out rt old (emit t d i w) = drafts_out rt old w"
  "drafts_out rt old (session_window env w) = drafts_out rt old w"
  "drafts_out rt old (w\<lparr>wo_router := er\<rparr>) = drafts_out rt old w"
  by (simp_all add: drafts_out_def approved_def)

lemma drafts_out_critique:
  "drafts_out rt old w \<Longrightarrow>
   drafts_out rt old (on_state (\<lambda>s. s\<lparr>rs_critiques := rs_critiques s @ [cq]\<rparr>) w)"
  by (auto simp: drafts_out_def approved_def)

lemma drafts_out_answer:
  "approved rt w \<Longrightarrow> drafts_out rt old (remember enc m w)"
  by (simp add: drafts_out_def approved_def)

lemma not_plain [simp]:
  "\<not> plain_answer (violation_message v)" "\<not> plain_answer (result_message r)"
  "plain_answer (model_dump m) \<longleftrightarrow> lm_tool_calls m = []"
  by (simp_all add: plain_answer_def violation_message_def result_message_def)

interpretation drafts: step_invariant env rt "drafts_out rt old" for env rt old
  by unfold_locales
    (auto simp: record_critique_step_def record_message_def process_result_def add_step_def Let_def
      record_route_def
      intro: drafts_out_remember drafts_out_critique drafts_out_answer split: sum.splits)

end
