(* ===== verification/Run_Outcome.thy ===== *)
theory Run_Outcome
  imports Runtime_Facts
begin

text \<open>
  The run as a whole: what the body of the run keeps, the ways a run can end, and its last event.
\<close>

section \<open>The whole run\<close>

lemma init_world_frame [simp]:
  "wo_events (init_world env rt u sid w) = wo_events w"
  "wo_router (init_world env rt u sid w) = wo_router w"
  "wo_state (init_world env rt u sid w) = init_run_state sid StRunning"
  by (auto simp: init_world_def Let_def split: option.split)

lemma live_init: "live (init_world env rt u sid w)"
  by (simp add: live_def init_run_state_def)

text \<open>Invariants of the body of the run: those of a step that the plan's record keeps too.\<close>

lemma create_plan_keeps:
  assumes I: "step_invariant env rt I"
    and plan: "\<And>p w. I w \<Longrightarrow>
      I (emit PlanCreated (PlanData p) 0 (on_state (\<lambda>s. s\<lparr>rs_plan := Some (plan_to_dict p)\<rparr>) w))"
  shows "keeps I (create_plan env rt u)"
proof -
  have "keeps I (\<lambda>w. (r, w))" for r :: "exn + task_plan"
    by (intro tripleI) auto
  from step_invariant.agent_triple [OF I this] show ?thesis
    by (auto simp: create_plan_def plan
        intro!: triple_ret triple_andthen [where R = "\<lambda>_. I"] triple_modify split: option.split)
qed

lemma run_body_keeps:
  assumes I: "step_invariant env rt I"
    and plan: "\<And>p w. I w \<Longrightarrow>
      I (emit PlanCreated (PlanData p) 0 (on_state (\<lambda>s. s\<lparr>rs_plan := Some (plan_to_dict p)\<rparr>) w))"
  shows "keeps I (run_body env rt u)"
  unfolding run_body_def
  by (intro triple_andthen [where R = "\<lambda>_. I"] create_plan_keeps [OF I plan]
      run_loop_keeps step_invariant.keeps_run_steps [OF I])

lemma run_body_ends:
  assumes I: "step_invariant env rt I"
    and plan: "\<And>p w. I w \<Longrightarrow>
      I (emit PlanCreated (PlanData p) 0 (on_state (\<lambda>s. s\<lparr>rs_plan := Some (plan_to_dict p)\<rparr>) w))"
    and start: "I w" and run: "run_body env rt u w = (r, w1)"
  shows "I w1"
  using keepsD [OF run_body_keeps [OF I plan] start, of u] run by simp

lemma fits_create_plan:
  "triple live (create_plan env rt u) (\<lambda>_. live) (raised_ok env)"
proof -
  have "triple live (\<lambda>w. (r, w)) (\<lambda>_. live) (\<lambda>_. reason_fits)" for r :: "exn + task_plan"
    by (rule tripleI) (auto simp: live_reason_fits)
  then have "triple live (except_agent env ''planner'' (\<lambda>w. (r, w))) (\<lambda>_. live) (raised_ok env)"
    for r :: "exn + task_plan"
    by (rule raised_ok_router) simp
  then show ?thesis
    by (auto simp: create_plan_def live_def
        intro!: triple_ret triple_andthen [where R = "\<lambda>_. live"] triple_modify split: option.split)
qed

lemma fits_run_body:
  "triple (\<lambda>w. live w \<and> cache_ok (wo_router w)) (run_body env rt u)
     (\<lambda>_ w. settled_ok env w \<and> is_terminal (rs_status (wo_state w))) (raised_ok env)"
proof -
  have "keeps (\<lambda>w. cache_ok (wo_router w)) (create_plan env rt u)"
    by (rule create_plan_keeps [OF cache.step_invariant_axioms]) simp
  with fits_create_plan [of env rt u] have plan:
    "triple (\<lambda>w. live w \<and> cache_ok (wo_router w)) (create_plan env rt u)
      (\<lambda>_ w. settled_ok env w \<and> cache_ok (wo_router w)) (raised_ok env)"
    by (intro tripleI) (blast dest: triple_Inr triple_Inl live_settled_ok)+
  show ?thesis
    unfolding run_body_def by (rule triple_andthen [OF plan fits_run_loop])
qed

text \<open>The cases of a finished call of \<open>_run_acquired_async\<close>.\<close>

definition start_world :: "env \<Rightarrow> runtime \<Rightarrow> pystr \<Rightarrow> pystr \<Rightarrow> world \<Rightarrow> world" where
  "start_world env rt u sid w = emit RunStart (UserInput u) 0 (init_world env rt u sid w)"

lemma start_world_frame [simp]:
  "wo_router (start_world env rt u sid w) = wo_router w"
  "wo_state (start_world env rt u sid w) = init_run_state sid StRunning"
  "live (start_world env rt u sid w)"
  "wo_events (start_world env rt u sid w) =
     wo_events w @ [\<lparr>ev_type = RunStart, ev_data = UserInput u, ev_step_index = 0\<rparr>]"
  by (simp_all add: start_world_def live_init)

lemma run_acquired_cases:
  assumes "run_acquired env rt u sid w = (res, w')"
  obtains
    (ended) w1 where "run_body env rt u (start_world env rt u sid w) = (Inr (), w1)"
      "res = Inr (wo_state w1)" "w' = emit_terminal_event w1"
  | (failed) e w1 where "run_body env rt u (start_world env rt u sid w) = (Inl e, w1)"
      "is_agent_error (exn_class e)" "res = Inr (wo_state w1)" "w' = emit_terminal_event w1"
  | (canceled) e w1 where "run_body env rt u (start_world env rt u sid w) = (Inl e, w1)"
      "exn_class e = PyCancelledError" "res = Inl e"
      "w' = emit_terminal_event (on_state (terminate (en_dict_repr env) StCanceled StopCanceled
              (Some e) None (Some (lit ''runtime''))) w1)"
  | (escaped) e w1 where "run_body env rt u (start_world env rt u sid w) = (Inl e, w1)"
      "\<not> is_agent_error (exn_class e)" "exn_class e \<noteq> PyCancelledError" "res = Inl e" "w' = w1"
  using assms
  by (auto simp: run_acquired_def start_world_def [symmetric] split: prod.splits sum.splits if_splits)

lemma emit_terminal_frame [simp]:
  "wo_state (emit_terminal_event w) = wo_state w"
  "wo_router (emit_terminal_event w) = wo_router w"
  "wo_mm (emit_terminal_event w) = wo_mm w"
  "session_messages (emit_terminal_event w) = session_messages w"
  by (simp_all add: emit_terminal_event_def)

text \<open>An invariant of the body that the last two updates keep holds at the end of every run.\<close>

lemma run_acquired_keeps:
  assumes I: "step_invariant env rt I"
    and plan: "\<And>p w. I w \<Longrightarrow>
      I (emit PlanCreated (PlanData p) 0 (on_state (\<lambda>s. s\<lparr>rs_plan := Some (plan_to_dict p)\<rparr>) w))"
    and last: "\<And>w. I w \<Longrightarrow> I (emit_terminal_event w)"
    and start: "I (start_world env rt u sid w)"
    and run: "run_acquired env rt u sid w = (res, w')"
  shows "I w'"
proof -
  have body: "I w1" if "run_body env rt u (start_world env rt u sid w) = (r, w1)" for r w1
    by (rule run_body_ends [OF I plan start that])
  from run show ?thesis
  proof (cases rule: run_acquired_cases)
    case (canceled e w1)
    then show ?thesis using body last step_invariant.keep_terminate [OF I] by simp
  qed (use body last in auto)
qed

section \<open>The last event\<close>

definition closing_event :: "world \<Rightarrow> event" where
  "closing_event w =
     \<lparr>ev_type = (if rs_status (wo_state w) = StFinished then RunFinish else RunError),
      ev_data = TerminalData (terminal_report (wo_state w) (session_messages w)),
      ev_step_index = rs_step_count (wo_state w)\<rparr>"

definition terminal_event :: "event \<Rightarrow> bool" where
  "terminal_event e \<longleftrightarrow> ev_type e = RunFinish \<or> ev_type e = RunError"

lemma emit_terminal_events:
  "wo_events (emit_terminal_event w) = wo_events w @ [closing_event w]"
  by (simp add: emit_terminal_event_def closing_event_def)

lemma closing_event_frame [simp]: "closing_event (emit_terminal_event w) = closing_event w"
  by (simp add: closing_event_def)

lemma run_body_events:
  assumes "run_body env rt u (start_world env rt u sid w) = (r, w1)"
  shows "\<exists>es. wo_events w1 = wo_events w @ es \<and> (\<forall>e\<in>set es. \<not> terminal_event e)"
proof -
  have "events_avoid {RunFinish, RunError} (wo_events w) (wo_events w1)"
    by (rule run_body_ends [OF no_terminal.step_invariant_axioms _ _ assms])
      (auto intro!: events_avoid_snoc)
  then show ?thesis
    by (auto simp: events_avoid_def terminal_event_def disjoint_iff)
qed

lemma run_acquired_events:
  assumes "run_acquired env rt u sid w = (res, w')"
    and "\<And>e. res = Inl e \<Longrightarrow> exn_class e = PyCancelledError"
  shows "\<exists>es. wo_events w' = wo_events w @ es @ [closing_event w'] \<and>
    (\<forall>e\<in>set es. \<not> terminal_event e)"
  using assms(1)
proof (cases rule: run_acquired_cases)
  case (ended w1)
  with run_body_events [OF ended(1)] show ?thesis by (auto simp: emit_terminal_events)
next
  case (failed e w1)
  with run_body_events [OF failed(1)] show ?thesis by (auto simp: emit_terminal_events)
next
  case (canceled e w1)
  with run_body_events [OF canceled(1)] show ?thesis by (auto simp: emit_terminal_events)
next
  case (escaped e w1)
  with assms(2) show ?thesis by auto
qed

section \<open>The state at the end\<close>

lemma run_body_state:
  assumes "cache_ok (wo_router w)" "run_body env rt u (start_world env rt u sid w) = (r, w1)"
  shows "case r of Inr _ \<Rightarrow> settled_ok env w1 \<and> is_terminal (rs_status (wo_state w1))
    | Inl e \<Rightarrow> raised_ok env e w1"
  using fits_run_body [of env rt u] assms
  by (auto simp: triple_def split: sum.split dest!: spec [of _ "start_world env rt u sid w"])

lemma run_returned_state:
  assumes "cache_ok (wo_router w)" "run_acquired env rt u sid w = (Inr s, w')"
  shows "wo_state w' = s \<and> is_terminal (rs_status s) \<and> rs_stop_reason s = reason_of (rs_status s) \<and>
    (rs_status s = StFailed \<longrightarrow> (\<exists>e. attributed env e s))"
  using assms(2)
proof (cases rule: run_acquired_cases)
  case (ended w1)
  with run_body_state [OF assms(1) ended(1)] show ?thesis by (simp add: settled_ok_def reason_fits_def)
next
  case (failed e w1)
  with run_body_state [OF assms(1) failed(1)] show ?thesis
    by (auto simp: raised_ok_def reason_fits_def attributed_def)
qed auto

lemma run_raised_class:
  assumes "run_acquired env rt u sid w = (Inl e, w')"
  shows "\<not> is_agent_error (exn_class e) \<and>
    (exn_class e = PyCancelledError \<longrightarrow>
       rs_status (wo_state w') = StCanceled \<and> rs_stop_reason (wo_state w') = Some StopCanceled)"
  using assms by (cases rule: run_acquired_cases) auto

lemma run_failed_attributed:
  assumes "cache_ok (wo_router w)"
    and "run_body env rt u (start_world env rt u sid w) = (Inl e, w1)"
    and "is_agent_error (exn_class e)"
  shows "attributed env e (wo_state w1)"
  using run_body_state [OF assms(1,2)] assms(3) by (simp add: raised_ok_def)

section \<open>What a run leaves behind\<close>

definition stored_messages :: "pystr \<Rightarrow> world \<Rightarrow> message list" where
  "stored_messages sid w =
     (case dict_get (mm_cache (wo_mm w)) sid of None \<Rightarrow> [] | Some b \<Rightarrow> bm_messages b)"

lemma session_messages_stored:
  "session_messages w = stored_messages (rs_session_id (wo_state w)) w"
  by (simp add: session_messages_def session_memory_def stored_messages_def)

lemma session_messages_init [simp]:
  "session_messages (w\<lparr>wo_state := init_run_state sid st\<rparr>) = stored_messages sid w"
  by (simp add: session_messages_stored stored_messages_def init_run_state_def)

text \<open>The start of a run adds only system and user messages.\<close>

lemma start_world_induct:
  assumes "I (session_window env (w\<lparr>wo_state := init_run_state sid StRunning\<rparr>))"
    and "\<And>u m. I u \<Longrightarrow> \<not> is_tool m \<Longrightarrow> \<not> plain_answer m \<Longrightarrow> I (remember (en_enc env) m u)"
    and "\<And>u. I u \<Longrightarrow> I (emit RunStart (UserInput user) 0 u)"
  shows "I (start_world env rt user sid w)"
proof -
  have plain: "\<not> is_tool (text_message r c)" "\<not> plain_answer (text_message r c)"
    if "r \<in> {''system'', ''user''}" for r c
    using that by (auto simp: plain_answer_def)
  show ?thesis
    using assms plain by (auto simp: start_world_def init_world_def Let_def split: option.split)
qed

lemma run_paired:
  assumes "paired (stored_messages sid w)" "run_acquired env rt u sid w = (res, w')"
  shows "paired (session_messages w')"
proof (rule run_acquired_keeps [OF pairing.step_invariant_axioms _ _ _ assms(2)])
  show "paired (session_messages (start_world env rt u sid w))"
    by (rule start_world_induct) (auto simp: assms(1) intro: paired_remember)
qed simp_all

lemma run_session:
  assumes "run_acquired env rt u sid w = (res, w')"
  shows "rs_session_id (wo_state w') = sid"
  by (rule run_acquired_keeps [OF session.step_invariant_axioms _ _ _ assms])
    (simp_all add: init_run_state_def)

lemma run_steps_ok:
  assumes "run_acquired env rt u sid w = (res, w')"
  shows "steps_numbered (wo_state w') \<and> calls_bounded rt (wo_state w') \<and>
    rs_reflection_revision_rounds (wo_state w') \<le>
      max 0 (lp_reflection_revision_rounds (rt_policy rt))"
proof (intro conjI)
  show "steps_numbered (wo_state w')"
    by (rule run_acquired_keeps [OF numbered.step_invariant_axioms _ _ _ assms])
      (simp_all add: steps_numbered_def init_run_state_def)
  show "calls_bounded rt (wo_state w')"
    by (rule run_acquired_keeps [OF bounded.step_invariant_axioms _ _ _ assms])
      (simp_all add: calls_bounded_def init_run_state_def)
  show "rs_reflection_revision_rounds (wo_state w') \<le>
      max 0 (lp_reflection_revision_rounds (rt_policy rt))"
    by (rule run_acquired_keeps [OF revisions.step_invariant_axioms _ _ _ assms])
      (simp_all add: init_run_state_def)
qed

lemma run_tools_routed:
  assumes "run_acquired env rt u sid w = (res, w')"
  shows "tools_routed (wo_events w) w'"
proof (rule run_acquired_keeps [OF tools.step_invariant_axioms _ _ _ assms])
  show "tools_routed (wo_events w) (emit PlanCreated (PlanData p) 0
      (on_state (\<lambda>s. s\<lparr>rs_plan := Some (plan_to_dict p)\<rparr>) v))"
    if "tools_routed (wo_events w) v" for p v
    using that by (intro tools_routed_quiet) simp_all
  show "tools_routed (wo_events w) (emit_terminal_event v)" if "tools_routed (wo_events w) v" for v
    using that unfolding emit_terminal_event_def by (intro tools_routed_quiet) simp_all
  show "tools_routed (wo_events w) (start_world env rt u sid w)"
    unfolding tools_routed_def
    by (intro exI [of _ "[\<lparr>ev_type = RunStart, ev_data = UserInput u, ev_step_index = 0\<rparr>]"])
      (simp add: selected_now_def init_run_state_def)
qed

lemma run_drafts_out:
  assumes "run_acquired env rt u sid w = (res, w')"
  shows "drafts_out rt (set (stored_messages sid w)) w'"
proof (rule run_acquired_keeps [OF drafts.step_invariant_axioms _ _ _ assms])
  show "drafts_out rt (set (stored_messages sid w)) (start_world env rt u sid w)"
    by (rule start_world_induct)
      (auto intro: drafts_out_remember, simp add: drafts_out_def)
qed (simp_all add: emit_terminal_event_def)

lemma run_no_tokens:
  assumes "rt_critic rt \<noteq> None" "run_acquired env rt u sid w = (res, w')"
  shows "events_avoid {LlmToken} (wo_events w) (wo_events w')"
proof -
  have "rt_critic rt \<noteq> None \<longrightarrow> events_avoid {LlmToken} (wo_events w) (wo_events w')"
    by (rule run_acquired_keeps [OF no_tokens.step_invariant_axioms _ _ _ assms(2)])
      (auto simp: emit_terminal_events closing_event_def intro!: events_avoid_snoc)
  with assms(1) show ?thesis by blast
qed

section \<open>Sessions do not mix\<close>

text \<open>What a run of one session leaves alone: the table and the windows of the other sessions.\<close>

definition others_kept :: "pystr \<Rightarrow> memory_manager \<Rightarrow> world \<Rightarrow> bool" where
  "others_kept sid mm w \<longleftrightarrow>
     rs_session_id (wo_state w) = sid \<and> mm_store (wo_mm w) = mm_store mm \<and>
     (\<forall>other. other \<noteq> sid \<longrightarrow>
        dict_get (mm_cache (wo_mm w)) other = dict_get (mm_cache mm) other)"

lemma others_kept_window: "others_kept sid mm w \<Longrightarrow> others_kept sid mm (session_window env w)"
  by (auto simp: others_kept_def session_window_def get_or_create_def Let_def split: option.split)

lemma others_kept_remember: "others_kept sid mm w \<Longrightarrow> others_kept sid mm (remember enc m w)"
  by (auto simp: others_kept_def remember_def split: option.split)

lemma others_kept_frame [simp]:
  "others_kept sid mm (emit t d i w) = others_kept sid mm w"
  "others_kept sid mm (w\<lparr>wo_router := er\<rparr>) = others_kept sid mm w"
  "rs_session_id s = rs_session_id (wo_state w) \<Longrightarrow>
   others_kept sid mm (w\<lparr>wo_state := s\<rparr>) = others_kept sid mm w"
  by (simp_all add: others_kept_def)

lemma others_kept_routed:
  "record_route r w = (Inr names, w') \<Longrightarrow> others_kept sid mm w \<Longrightarrow> others_kept sid mm w'"
  by (auto simp: record_route_def Let_def split: sum.splits)

lemma others_kept_steps:
  "others_kept sid mm (record_message m w) = others_kept sid mm w"
  "others_kept sid mm w \<Longrightarrow> others_kept sid mm (process_result env tr w)"
  by (simp_all add: record_message_def process_result_def add_step_def Let_def others_kept_remember)

lemma others_kept_critique:
  "others_kept sid mm (on_state (record_critique_step i c k d err) w) = others_kept sid mm w"
  by (simp add: record_critique_step_def)

interpretation isolated: step_invariant env rt "others_kept sid mm" for env rt sid mm
  by unfold_locales
    (auto simp: others_kept_remember others_kept_window others_kept_steps others_kept_critique
      intro: others_kept_routed)

lemma others_kept_start:
  "others_kept sid (wo_mm w) (w\<lparr>wo_state := init_run_state sid st\<rparr>)"
  by (simp add: others_kept_def init_run_state_def)

lemma run_others_kept:
  assumes "run_acquired env rt u sid w = (res, w')"
  shows "others_kept sid (wo_mm w) w'"
proof (rule run_acquired_keeps [OF isolated.step_invariant_axioms _ _ _ assms])
  show "others_kept sid (wo_mm w) (start_world env rt u sid w)"
    by (rule start_world_induct)
      (simp_all only: others_kept_frame others_kept_window others_kept_remember others_kept_start)
qed (simp_all add: emit_terminal_event_def)

end
