(* ===== verification/Sample_Run.thy ===== *)
theory Sample_Run
  imports Run_Outcome
begin

text \<open>
  A concrete runtime with one tool, and its run on one input, evaluated: the model first calls
  the tool, then answers. The witnesses of the properties of runs are taken from here.
\<close>

definition sample_call :: tool_call where
  "sample_call = \<lparr>tc_id = lit ''c1'', tc_name = lit ''echo'', tc_arguments = lit ''{}''\<rparr>"

definition sample_env :: env where
  "sample_env =
     \<lparr>en_text = sample_text, en_dict_repr = (\<lambda>_. []), en_enc = length,
      en_iter_errors = (\<lambda>_ _. []),
      en_llm_call = (\<lambda>n _ _. Returned
        (if n = 0 then \<lparr>lm_content = None, lm_tool_calls = [sample_call]\<rparr>
         else \<lparr>lm_content = Some (lit ''done''), lm_tool_calls = []\<rparr>)),
      en_llm_stream = (\<lambda>_ _ _. []),
      en_embed = (\<lambda>_ texts. Returned (RBatch (map (\<lambda>_. RVec [RNum 1]) texts))),
      en_planner_call = (\<lambda>_. Raised (exn_of PyTimeoutError [])),
      en_critic_call =
        (\<lambda>_ _ _. Returned (Response (JStr (lit ''{\"decision\":\"accept\",\"feedback\":null}''))))\<rparr>"

definition echo_tool :: tool where
  "echo_tool =
     \<lparr>t_name = lit ''echo'', t_description = [],
      t_parameters = JObj [(lit ''type'', JStr (lit ''object''))],
      t_func = (\<lambda>_. Returned (JStr (lit ''ok''))), t_func_label = lit ''echo''\<rparr>"

definition sample_registry :: tool_registry where
  "sample_registry = \<lparr>tr_tools = [(lit ''echo'', echo_tool)], tr_disabled = {}\<rparr>"

definition sample_critic :: critic where
  "sample_critic =
     \<lparr>ct_timeout_s = \<lparr>pf_value = Some 30, pf_text = lit ''30.0''\<rparr>, ct_max_feedback_chars = 2000\<rparr>"

definition sample_planner :: planner where
  "sample_planner =
     \<lparr>pl_timeout_s = \<lparr>pf_value = Some 30, pf_text = lit ''30.0''\<rparr>, pl_max_tasks = 8,
      pl_max_goal_chars = 500\<rparr>"

definition sample_runtime :: "planner option \<Rightarrow> critic option \<Rightarrow> runtime" where
  "sample_runtime pl ct =
     runtime_init CallModel default_policy [(lit ''echo'', to_openai_schema echo_tool)]
       sample_registry None pl ct"

definition sample_router :: embedding_router where
  "sample_router =
     \<lparr>er_model_version = lit ''v'', er_threshold = 1 / 2, er_top_k = 3, er_cache_size = 4,
      er_max_query_chars = 100, er_tool_vectors = []\<rparr>"

definition sample_world :: world where
  "sample_world =
     \<lparr>wo_state = init_run_state [] StPending,
      wo_mm = \<lparr>mm_store = [], mm_max_tokens = 1000, mm_cache = []\<rparr>,
      wo_router = sample_router, wo_events = []\<rparr>"

definition sample_run :: "planner option \<Rightarrow> critic option \<Rightarrow> (exn + run_state) \<times> world" where
  "sample_run pl ct =
     run_acquired sample_env (sample_runtime pl ct) (lit ''hi'') (lit ''s'') sample_world"

definition run_summary ::
  "(exn + run_state) \<times> world \<Rightarrow>
   (run_status \<times> int \<times> exc_class option) option \<times> event_type list \<times> string list" where
  "run_summary r =
     ((case fst r of
         Inl e \<Rightarrow> None
       | Inr s \<Rightarrow> Some (rs_status s, rs_step_count s, map_option exn_class (rs_error s))),
      map ev_type (wo_events (snd r)),
      map (\<lambda>m. if is_tool m then ''tool'' else if has_calls m then ''calls''
             else if plain_answer m then ''answer'' else ''user'')
        (session_messages (snd r)))"

lemma sample_cache_ok [simp]: "cache_ok (wo_router sample_world)"
  by (simp add: sample_world_def sample_router_def cache_ok_def)

lemma sample_run_plain:
  "run_summary (sample_run None None) =
     (Some (StFinished, 3, None),
      [RunStart, ToolRouting, LlmRequest, LlmResponse, ToolResponse, ToolRouting, LlmRequest,
       LlmResponse, RunFinish],
      [''user'', ''calls'', ''tool'', ''answer''])"
  by code_simp

lemma sample_run_critic:
  "run_summary (sample_run None (Some sample_critic)) =
     (Some (StFinished, 4, None),
      [RunStart, ToolRouting, LlmRequest, LlmResponse, ToolResponse, ToolRouting, LlmRequest,
       LlmResponse, CritiqueCompleted, RunFinish],
      [''user'', ''calls'', ''tool'', ''answer''])"
  by code_simp

lemma sample_run_planner:
  "run_summary (sample_run (Some sample_planner) None) =
     (Some (StFailed, 0, Some PlannerError), [RunStart, RunError], [''user''])"
  by code_simp

text \<open>The same runtime with a model that raises.\<close>

definition raising_run :: "exc_class \<Rightarrow> (exn + run_state) \<times> world" where
  "raising_run c =
     run_acquired (sample_env\<lparr>en_llm_call := (\<lambda>_ _ _. Raised (exn_of c []))\<rparr>)
       (sample_runtime None None) (lit ''hi'') (lit ''s'') sample_world"

lemma raising_run_value_error:
  "map_sum exn_class (\<lambda>_. ()) (fst (raising_run PyValueError)) = Inl PyValueError"
  by code_simp

lemma raising_run_canceled:
  "map_sum exn_class (\<lambda>_. ()) (fst (raising_run PyCancelledError)) = Inl PyCancelledError"
  by code_simp

text \<open>The results by name.\<close>

lemma sample_plain_returns:
  "\<exists>s w'. sample_run None None = (Inr s, w') \<and> rs_status s = StFinished"
  using sample_run_plain
  by (cases "sample_run None None") (auto simp: run_summary_def split: sum.splits)

lemma sample_critic_returns:
  "\<exists>s w'. sample_run None (Some sample_critic) = (Inr s, w') \<and> rs_status s = StFinished"
  using sample_run_critic
  by (cases "sample_run None (Some sample_critic)") (auto simp: run_summary_def split: sum.splits)

lemma sample_planner_returns:
  "\<exists>s w'. sample_run (Some sample_planner) None = (Inr s, w') \<and> rs_status s = StFailed"
  using sample_run_planner
  by (cases "sample_run (Some sample_planner) None") (auto simp: run_summary_def split: sum.splits)

lemma raising_value_error:
  "\<exists>e w'. raising_run PyValueError = (Inl e, w') \<and> exn_class e = PyValueError"
  using raising_run_value_error
  by (cases "raising_run PyValueError"; cases "fst (raising_run PyValueError)") auto

lemma raising_canceled:
  "\<exists>e w'. raising_run PyCancelledError = (Inl e, w') \<and> exn_class e = PyCancelledError"
  using raising_run_canceled
  by (cases "raising_run PyCancelledError"; cases "fst (raising_run PyCancelledError)") auto

text \<open>The same runtime with a critic that always asks for a revision.\<close>

definition revising_run :: "(exn + run_state) \<times> world" where
  "revising_run =
     run_acquired (sample_env\<lparr>en_critic_call := (\<lambda>_ _ _. Returned (Response
           (JStr (lit ''{\"decision\":\"revise\",\"feedback\":\"more\"}''))))\<rparr>)
       (sample_runtime None (Some sample_critic)) (lit ''hi'') (lit ''s'') sample_world"

lemma revising_run_summary:
  "run_summary revising_run =
     (Some (StReflectionLimit, 6, None),
      [RunStart, ToolRouting, LlmRequest, LlmResponse, ToolResponse, ToolRouting, LlmRequest,
       LlmResponse, CritiqueCompleted, ToolRouting, LlmRequest, LlmResponse, CritiqueCompleted,
       RunError],
      [''user'', ''calls'', ''tool''])"
  by code_simp

lemma revising_run_critiques:
  "map cq_decision (rs_critiques (wo_state (snd revising_run))) = [Revise, Revise]"
  by code_simp

end
