(* ===== verification/Application.thy ===== *)
theory Application
  imports Builtin_Tools Embedding_Client Sample_Run
begin

text \<open>
  \<open>config/settings.py\<close>, \<open>prompts/factory.py\<close>, \<open>tools/__init__.py\<close> and \<open>main.py\<close>: the settings and their
  limits, the profiles, the composition of the runtime, and the loop of the command line. The
  prompt texts, the descriptions of the tools and the terminal are parameters.
\<close>

section \<open>Settings\<close>

text \<open>Timeouts of the worker are kept as the text of the float.\<close>

record settings =
  st_model :: pystr
  st_pattern :: pystr
  st_exec_cwd :: pystr
  st_router_model :: pystr
  st_router_threshold :: real
  st_router_top_k :: int
  st_router_cache_size :: int
  st_router_max_query_chars :: int
  st_startup_timeout :: pystr
  st_inference_timeout :: pystr
  st_lock_timeout :: pystr
  st_shutdown_timeout :: pystr
  st_max_request_bytes :: int
  st_max_response_bytes :: int
  st_max_stderr_chars :: int
  st_planner_timeout :: py_float
  st_planner_max_tasks :: int
  st_planner_max_goal_chars :: int
  st_critic_timeout :: py_float
  st_critic_max_feedback_chars :: int
  st_revision_rounds :: int

definition positive_float :: "py_float \<Rightarrow> bool" where
  "positive_float f \<longleftrightarrow> (case pf_value f of None \<Rightarrow> False | Some t \<Rightarrow> 0 < t)"

text \<open>The constraints of the fields.\<close>

definition fields_ok :: "(pystr \<Rightarrow> bool) \<Rightarrow> settings \<Rightarrow> bool" where
  "fields_ok positive s \<longleftrightarrow>
     1 \<le> len (st_router_model s) \<and> 0 \<le> st_router_threshold s \<and> st_router_threshold s \<le> 1 \<and>
     0 < st_router_top_k s \<and> 0 < st_router_cache_size s \<and> 0 < st_router_max_query_chars s \<and>
     list_all (\<lambda>t. finite_float t \<and> positive t)
       [st_startup_timeout s, st_inference_timeout s, st_lock_timeout s, st_shutdown_timeout s] \<and>
     0 < st_max_request_bytes s \<and> st_max_request_bytes s \<le> 8 * 1024 * 1024 \<and>
     0 < st_max_response_bytes s \<and> st_max_response_bytes s \<le> 8 * 1024 * 1024 \<and>
     0 < st_max_stderr_chars s \<and> st_max_stderr_chars s \<le> 65536 \<and>
     positive_float (st_planner_timeout s) \<and>
     0 < st_planner_max_tasks s \<and> st_planner_max_tasks s \<le> 100 \<and>
     0 < st_planner_max_goal_chars s \<and> st_planner_max_goal_chars s \<le> 16384 \<and>
     positive_float (st_critic_timeout s) \<and>
     0 < st_critic_max_feedback_chars s \<and> st_critic_max_feedback_chars s \<le> 16384 \<and>
     0 \<le> st_revision_rounds s \<and> st_revision_rounds s \<le> 10"

definition validate_reflection_limits :: "settings \<Rightarrow> exn + settings" where
  "validate_reflection_limits s =
     (if st_router_max_query_chars s < st_critic_max_feedback_chars s then
        Inl (exn_of PyValueError ''critic_max_feedback_chars must not exceed tool_router_max_query_chars'')
      else Inr s)"

text \<open>\<open>Settings()\<close>: what a validator raises reaches the caller as pydantic's \<open>ValidationError\<close>.\<close>

definition load_settings :: "(pystr \<Rightarrow> bool) \<Rightarrow> settings \<Rightarrow> exn + settings" where
  "load_settings positive s =
     (let refused = Exn (PyException (lit ''ValidationError'')) [] [] None in
      if \<not> fields_ok positive s then Inl refused
      else case validate_reflection_limits s of
          Inl e \<Rightarrow> Inl refused
        | Inr s' \<Rightarrow> Inr s')"

section \<open>Profiles\<close>

datatype prompt_pattern = ReActPattern | PlanExecutePattern | ReflectionPattern

definition pattern_types :: "(pystr, prompt_pattern) dict" where
  "pattern_types =
     [(lit ''react'', ReActPattern), (lit ''plan_execute'', PlanExecutePattern),
      (lit ''reflection'', ReflectionPattern)]"

definition profile_policy :: "int \<Rightarrow> loop_policy" where
  "profile_policy steps =
     \<lparr>lp_max_steps = steps, lp_max_consecutive_repeats = 3, lp_validation_feedback_rounds = 1,
      lp_tool_error_feedback_rounds = 1, lp_reflection_revision_rounds = 1\<rparr>"

definition default_policies :: "(pystr, loop_policy) dict" where
  "default_policies =
     [(lit ''react'', profile_policy 20), (lit ''plan_execute'', profile_policy 50),
      (lit ''reflection'', profile_policy 30)]"

record agent_profile =
  ap_pattern :: prompt_pattern
  ap_loop_policy :: loop_policy

definition create_agent_profile :: "(pystr \<Rightarrow> pystr) \<Rightarrow> pystr \<Rightarrow> exn + agent_profile" where
  "create_agent_profile py_repr name =
     (case dict_get pattern_types name of
        None \<Rightarrow> Inl (Exn ConfigError (lit ''Unknown prompt pattern: '' @ py_repr name) [] None)
      | Some pt \<Rightarrow>
          (case dict_get default_policies name of
             None \<Rightarrow> Inl (Exn PyKeyError name [] None)
           | Some policy \<Rightarrow> Inr \<lparr>ap_pattern = pt, ap_loop_policy = policy\<rparr>))"

section \<open>The tools of the application\<close>

text \<open>
  The signatures of the tool functions. What a function does, its docstring, the descriptions of
  its parameters and its qualified name are looked up by its name.
\<close>

record tool_texts =
  tt_doc :: "pystr \<Rightarrow> pystr option"
  tt_desc :: "pystr \<Rightarrow> pystr \<Rightarrow> pystr option"
  tt_call :: "pystr \<Rightarrow> tool_func"

definition tool_function :: "tool_texts \<Rightarrow> string \<Rightarrow> (string \<times> py_anno) list \<Rightarrow> py_func" where
  "tool_function tt name params =
     \<lparr>pf_name = lit name, pf_doc = tt_doc tt (lit name),
      pf_params = map (\<lambda>(p, anno). \<lparr>pp_name = lit p, pp_anno = Some anno,
        pp_desc = tt_desc tt (lit name) (lit p), pp_default = None\<rparr>) params,
      pf_call = tt_call tt (lit name), pf_label = lit name\<rparr>"

definition calculator_tools :: "tool_texts \<Rightarrow> py_func list" where
  "calculator_tools tt =
     [tool_function tt ''add'' [(''a'', TInt), (''b'', TInt)],
      tool_function tt ''multiply'' [(''a'', TInt), (''b'', TInt)]]"

definition network_tools :: "tool_texts \<Rightarrow> py_func list" where
  "network_tools tt =
     [tool_function tt ''http_get'' [(''url'', TStr)], tool_function tt ''web_search'' [(''query'', TStr)]]"

definition file_tools :: "tool_texts \<Rightarrow> py_func list" where
  "file_tools tt =
     [tool_function tt ''read_file'' [(''raw'', TStr)],
      tool_function tt ''write_file'' [(''raw'', TStr), (''content'', TStr)],
      tool_function tt ''list_dir'' [(''path'', TStr)]]"

definition shell_tools :: "tool_texts \<Rightarrow> py_func list" where
  "shell_tools tt = [tool_function tt ''shell_exec'' [(''command'', TStr)]]"

fun register_groups :: "py_func list list \<Rightarrow> tool_registry \<Rightarrow> exn + tool_registry" where
  "register_groups [] r = Inr r"
| "register_groups (fs # groups) r =
     (case register_many fs r of
        (Inl e, _) \<Rightarrow> Inl e
      | (Inr _, r') \<Rightarrow> register_groups groups r')"

definition create_registry :: "tool_texts \<Rightarrow> exn + tool_registry" where
  "create_registry tt =
     register_groups [calculator_tools tt, network_tools tt, file_tools tt, shell_tools tt] empty_registry"

section \<open>Building the runtime\<close>

definition worker_env_allowlist :: "pystr list" where
  "worker_env_allowlist = map lit
     [''APPDATA'', ''CUDA_HOME'', ''CUDA_PATH'', ''CUDA_VISIBLE_DEVICES'', ''HF_HOME'', ''HF_HUB_CACHE'',
      ''HF_HUB_OFFLINE'', ''HF_TOKEN'', ''HOME'', ''HTTP_PROXY'', ''HTTPS_PROXY'', ''LANG'', ''LC_ALL'',
      ''LD_LIBRARY_PATH'', ''LOCALAPPDATA'', ''NO_PROXY'', ''PATH'', ''PYTHONPATH'', ''REQUESTS_CA_BUNDLE'',
      ''SENTENCE_TRANSFORMERS_HOME'', ''SSL_CERT_FILE'', ''SYSTEMROOT'', ''TEMP'', ''TMP'', ''TORCH_HOME'',
      ''TRANSFORMERS_CACHE'', ''USERPROFILE'', ''VIRTUAL_ENV'', ''WINDIR'']"

definition embedding_worker_environment :: "(pystr, pystr) dict \<Rightarrow> (pystr, pystr) dict" where
  "embedding_worker_environment environ =
     dict_set (lit ''PYTHONUTF8'') (lit ''1'')
       (dict_set (lit ''PYTHONUNBUFFERED'') (lit ''1'')
         (dict_set (lit ''PYTHONIOENCODING'') (lit ''utf-8'')
           (concat (map (\<lambda>k. case dict_get environ k of
                None \<Rightarrow> [] | Some v \<Rightarrow> if v = [] then [] else [(k, v)])
             worker_env_allowlist))))"

text \<open>What the outside supplies: interpreter, directory, texts and the schema validator's floats.\<close>

record deployment =
  su_executable :: pystr
  su_root_is_dir :: bool
  su_fl :: py_text
  su_positive :: "pystr \<Rightarrow> bool"
  su_tools :: tool_texts
  su_prompt :: "prompt_pattern \<Rightarrow> pystr"

definition worker_args :: "deployment \<Rightarrow> settings \<Rightarrow> client_args" where
  "worker_args su s =
     \<lparr>ca_command = map JStr [su_executable su, lit ''-m'', lit ''rag.embedding_worker'',
        lit ''--model-name'', st_router_model s, lit ''--model-version'', st_router_model s],
      ca_cwd_is_dir = su_root_is_dir su, ca_model_version = st_router_model s,
      ca_startup_timeout = JFloat (st_startup_timeout s),
      ca_inference_timeout = JFloat (st_inference_timeout s),
      ca_lock_timeout = JFloat (st_lock_timeout s),
      ca_shutdown_timeout = JFloat (st_shutdown_timeout s),
      ca_max_request_bytes = JInt (st_max_request_bytes s),
      ca_max_response_bytes = JInt (st_max_response_bytes s),
      ca_max_stderr_chars = JInt (st_max_stderr_chars s)\<rparr>"

record application =
  ap_runtime :: runtime
  ap_router :: embedding_router
  ap_client_cfg :: client_cfg
  ap_client :: client
  ap_memory :: memory_manager

definition optional :: "bool \<Rightarrow> exn + 'a \<Rightarrow> exn + 'a option" where
  "optional wanted r = (if wanted then rmap Some r else Inr None)"

text \<open>\<open>pattern or settings.pattern\<close>.\<close>

definition chosen_pattern :: "settings \<Rightarrow> pystr option \<Rightarrow> pystr" where
  "chosen_pattern s chosen =
     (case chosen of None \<Rightarrow> st_pattern s | Some p \<Rightarrow> if p = [] then st_pattern s else p)"

definition build_runtime ::
  "deployment \<Rightarrow> settings \<Rightarrow> session_store \<Rightarrow> pystr option \<Rightarrow> exn + application" where
  "build_runtime su s store chosen =
     rbind (create_registry (su_tools su)) (\<lambda>registry.
     rbind (client_init (su_fl su) (su_positive su) (worker_args su s)) (\<lambda>(cfg, client).
     rbind (router_init (st_router_model s) (st_router_threshold s) (st_router_top_k s)
             (st_router_cache_size s) (st_router_max_query_chars s)) (\<lambda>router.
     let pattern = chosen_pattern s chosen in
     rbind (create_agent_profile (pt_repr (su_fl su)) pattern) (\<lambda>profile.
     rbind (optional (pattern = lit ''plan_execute'')
             (planner_init (st_planner_timeout s) (st_planner_max_tasks s) (st_planner_max_goal_chars s)))
       (\<lambda>planner.
     rbind (optional (pattern = lit ''reflection'')
             (critic_init (st_critic_timeout s) (st_critic_max_feedback_chars s))) (\<lambda>critic.
     rbind (if pattern = lit ''reflection''
            then policy_post_init
              ((ap_loop_policy profile)\<lparr>lp_reflection_revision_rounds := st_revision_rounds s\<rparr>)
            else Inr (ap_loop_policy profile)) (\<lambda>policy.
     rbind (validator_init (get_schemas registry)) (\<lambda>validator.
       Inr \<lparr>ap_runtime = runtime_init StreamModel policy validator registry
              (Some (su_prompt su (ap_pattern profile))) planner critic,
            ap_router = router, ap_client_cfg = cfg, ap_client = client,
            ap_memory = \<lparr>mm_store = store, mm_max_tokens = 4000, mm_cache = []\<rparr>\<rparr>))))))))"

section \<open>The command line\<close>

text \<open>What is printed; styles are left out.\<close>

datatype printed =
    PrintToken bool pystr
  | PrintCalls "pystr list"
  | PrintReset
  | PrintMessage pystr "pystr option"
  | PrintNoHistory
  | PrintTool pystr pystr
  | PrintNoTools
  | PrintRunEnded pystr pystr
  | PrintNewLine
  | PrintAnswer "pystr option"

text \<open>\<open>on_llm_event\<close>: the flag says whether a token was printed before; the first one has a label.\<close>

fun on_llm_events :: "bool \<Rightarrow> event list \<Rightarrow> bool \<times> printed list" where
  "on_llm_events streamed [] = (streamed, [])"
| "on_llm_events streamed (e # es) =
     (let (streamed', out) =
        (if ev_type e \<noteq> LlmToken then (streamed, [])
         else case ev_data e of
             Token t \<Rightarrow> if t = [] then (streamed, []) else (True, [PrintToken (\<not> streamed) t])
           | TokenCalls calls \<Rightarrow> (streamed, if calls = [] then [] else [PrintCalls (map tc_name calls)])
           | _ \<Rightarrow> (streamed, []))
      in case on_llm_events streamed' es of (s, out') \<Rightarrow> (s, out @ out'))"

record repl =
  rl_session :: "pystr option"
  rl_world :: world
  rl_printed :: "printed list"

definition print :: "printed list \<Rightarrow> repl \<Rightarrow> repl" where
  "print ps r = r\<lparr>rl_printed := rl_printed r @ ps\<rparr>"

text \<open>
  The window of the current session. Without one the code asks the manager for the buffer of
  \<open>None\<close>, to which no run ever adds: it is empty.
\<close>

definition repl_messages :: "env \<Rightarrow> repl \<Rightarrow> message list \<times> repl" where
  "repl_messages env r =
     (case rl_session r of
        None \<Rightarrow> ([], r)
      | Some sid \<Rightarrow>
          (case get_or_create (en_enc env) sid None (wo_mm (rl_world r)) of
             (bm, mm) \<Rightarrow> (bm_messages bm, r\<lparr>rl_world := (rl_world r)\<lparr>wo_mm := mm\<rparr>\<rparr>)))"

definition schema_line :: "json \<Rightarrow> printed" where
  "schema_line s =
     (let str = (\<lambda>v. case v of Some (JStr t) \<Rightarrow> t | _ \<Rightarrow> []) in
      case obj_get s ''function'' of
        Some f \<Rightarrow> PrintTool (str (obj_get f ''name'')) (str (obj_get f ''description''))
      | None \<Rightarrow> PrintTool [] [])"

text \<open>What is printed when a run did not finish.\<close>

definition run_ended :: "run_state \<Rightarrow> printed" where
  "run_ended st =
     PrintRunEnded (status_value (rs_status st))
       (case rs_error_info st of
          None \<Rightarrow> []
        | Some i \<Rightarrow> if ei_message i = [] then [] else lit '': '' @ ei_message i)"

text \<open>After a run that returned \<open>st\<close>. The last message of an empty window is an IndexError.\<close>

definition after_run :: "env \<Rightarrow> bool \<Rightarrow> run_state \<Rightarrow> repl \<Rightarrow> (exn + bool) \<times> repl" where
  "after_run env streamed st r =
     (if rs_status st \<noteq> StFinished then (Inr True, print [run_ended st] r)
      else if streamed then (Inr True, print [PrintNewLine] r)
      else
        (case repl_messages env r of
           (msgs, r') \<Rightarrow>
             if msgs = [] then (Inl (exn_of (PyException (lit ''IndexError'')) ''list index out of range''), r')
             else (Inr True, print [PrintAnswer (m_content (last msgs))] r')))"

text \<open>
  One round of \<open>_repl\<close>: \<open>fresh\<close> is the identifier a run without one gets. The flag says whether to
  go on; what a run raises ends the loop.
\<close>

definition repl_round :: "env \<Rightarrow> runtime \<Rightarrow> pystr \<Rightarrow> pystr \<Rightarrow> repl \<Rightarrow> (exn + bool) \<times> repl" where
  "repl_round env rt fresh q r =
     (if q = lit ''/q'' then (Inr False, r)
      else if q = lit ''/clear'' then (Inr True, print [PrintReset] (r\<lparr>rl_session := None\<rparr>))
      else if q = lit ''/history'' then
        (case repl_messages env r of
           (msgs, r') \<Rightarrow>
             (Inr True, print (if msgs = [] then [PrintNoHistory]
                else map (\<lambda>m. PrintMessage (m_role m) (map_option (take 120) (m_content m))) msgs) r'))
      else if q = lit ''/tools'' then
        (let schemas = get_schemas (rt_registry rt)
         in (Inr True, print (if schemas = [] then [PrintNoTools] else map schema_line schemas) r))
      else
        (case run_async env rt q
             (case rl_session r of None \<Rightarrow> fresh | Some s \<Rightarrow> if s = [] then fresh else s) (rl_world r) of
           (res, w) \<Rightarrow>
             (case on_llm_events False (drop (length (wo_events (rl_world r))) (wo_events w)) of
                (streamed, out) \<Rightarrow>
                  (let r' = print out (r\<lparr>rl_world := w\<rparr>)
                   in case res of
                        Inl e \<Rightarrow> (Inl e, r')
                      | Inr st \<Rightarrow>
                          after_run env streamed st (r'\<lparr>rl_session := Some (rs_session_id st)\<rparr>)))))"

text \<open>The rounds of the queries typed so far.\<close>

fun repl_loop :: "env \<Rightarrow> runtime \<Rightarrow> (nat \<Rightarrow> pystr) \<Rightarrow> nat \<Rightarrow> pystr list \<Rightarrow> repl \<Rightarrow> (exn + unit) \<times> repl" where
  "repl_loop env rt fresh n [] r = (Inr (), r)"
| "repl_loop env rt fresh n (q # qs) r =
     (case repl_round env rt (fresh n) q r of
        (Inl e, r') \<Rightarrow> (Inl e, r')
      | (Inr False, r') \<Rightarrow> (Inr (), r')
      | (Inr True, r') \<Rightarrow> repl_loop env rt fresh (n + 1) qs r')"


section \<open>The registry of the application\<close>

definition tool_names :: "pystr list" where
  "tool_names = map lit
     [''add'', ''multiply'', ''http_get'', ''web_search'', ''read_file'', ''write_file'', ''list_dir'',
      ''shell_exec'']"

lemma create_registry_cases:
  "case create_registry tt of Inl e \<Rightarrow> False
   | Inr r \<Rightarrow> list_all_tools r = tool_names \<and>
       (case validator_init (get_schemas r) of Inl e \<Rightarrow> False | Inr v \<Rightarrow> dict_keys v = tool_names)"
  by code_simp

lemma register_many_disabled: "tr_disabled (snd (register_many fs r)) = tr_disabled r"
proof (induction fs arbitrary: r)
  case (Cons f fs)
  have "tr_disabled (snd (register f r)) = tr_disabled r"
    by (simp add: register_def split: sum.split)
  with Cons show ?case by (auto simp: case_prod_unfold split: sum.split)
qed simp

lemma register_groups_wf:
  "registry_wf r \<Longrightarrow> register_groups groups r = Inr r' \<Longrightarrow>
   registry_wf r' \<and> tr_disabled r' = tr_disabled r"
proof (induction groups arbitrary: r)
  case (Cons fs groups)
  obtain res r1 where reg: "register_many fs r = (res, r1)" by (metis surj_pair)
  with Cons.prems register_many_wf [of r fs] register_many_disabled [of fs r]
  have "registry_wf r1" "tr_disabled r1 = tr_disabled r" by simp_all
  with Cons reg show ?case by (auto split: sum.splits)
qed simp

lemma create_registry_ok:
  obtains r v where "create_registry tt = Inr r" and "list_all_tools r = tool_names"
    and "registry_wf r" and "tr_disabled r = {}"
    and "validator_init (get_schemas r) = Inr v" and "dict_keys v = tool_names"
proof -
  obtain r where r: "create_registry tt = Inr r" "list_all_tools r = tool_names"
    and "case validator_init (get_schemas r) of Inl e \<Rightarrow> False | Inr v \<Rightarrow> dict_keys v = tool_names"
    using create_registry_cases [of tt] by (cases "create_registry tt") auto
  moreover from this(3) obtain v where "validator_init (get_schemas r) = Inr v" "dict_keys v = tool_names"
    by (cases "validator_init (get_schemas r)") auto
  moreover have "registry_wf r \<and> tr_disabled r = tr_disabled empty_registry"
    using r(1) unfolding create_registry_def by (rule register_groups_wf [OF registry_wf_empty])
  ultimately show thesis using that by (simp add: empty_registry_def)
qed

section \<open>Loaded settings build\<close>

lemma load_settings_iff:
  "load_settings positive s = Inr s' \<longleftrightarrow>
     s' = s \<and> fields_ok positive s \<and> st_critic_max_feedback_chars s \<le> st_router_max_query_chars s"
  by (auto simp: load_settings_def validate_reflection_limits_def Let_def)

lemma positive_floatE:
  assumes "positive_float f"
  obtains t where "pf_value f = Some t" and "0 < t"
  using assms by (auto simp: positive_float_def split: option.splits)

lemma planner_init_ok:
  "positive_float t \<Longrightarrow> 0 < n \<Longrightarrow> 0 < m \<Longrightarrow>
   planner_init t n m = Inr \<lparr>pl_timeout_s = t, pl_max_tasks = n, pl_max_goal_chars = m\<rparr>"
  by (auto simp: planner_init_def elim: positive_floatE)

lemma critic_init_ok:
  "positive_float t \<Longrightarrow> 0 < m \<Longrightarrow>
   critic_init t m = Inr \<lparr>ct_timeout_s = t, ct_max_feedback_chars = m\<rparr>"
  by (auto simp: critic_init_def elim: positive_floatE)

lemma worker_args_ok:
  assumes "fields_ok (su_positive su) s" and "su_executable su \<noteq> []" and "su_root_is_dir su"
    and "py_strip (st_router_model s) \<noteq> []"
  shows "check_client_args (su_positive su) (worker_args su s) = None"
proof -
  have "st_router_model s \<noteq> []" using assms(1) by (auto simp: fields_ok_def)
  with assms show ?thesis
    by (simp add: check_client_args_def worker_args_def fields_ok_def lit_def max_protocol_message_bytes_def)
qed

lemma client_of_settings:
  assumes "fields_ok (su_positive su) s" and "su_executable su \<noteq> []" and "su_root_is_dir su"
  shows "(\<exists>c. client_init (su_fl su) (su_positive su) (worker_args su s) = Inr c) \<longleftrightarrow>
    py_strip (st_router_model s) \<noteq> []"
proof (cases "py_strip (st_router_model s) = []")
  case True
  then have "check_client_args (su_positive su) (worker_args su s) \<noteq> None"
    by (simp add: check_client_args_def worker_args_def)
  with True show ?thesis by (auto simp: client_init_def)
next
  case False
  with worker_args_ok [OF assms] show ?thesis by (simp add: client_init_def)
qed

lemma router_of_settings:
  "fields_ok positive s \<Longrightarrow> py_strip (st_router_model s) \<noteq> [] \<Longrightarrow>
   \<exists>r. router_init (st_router_model s) (st_router_threshold s) (st_router_top_k s)
     (st_router_cache_size s) (st_router_max_query_chars s) = Inr r"
  by (simp add: router_init_def fields_ok_def)

lemma profile_cases:
  "case create_agent_profile py_repr p of
     Inl e \<Rightarrow> exn_class e = ConfigError \<and> p \<notin> set (dict_keys pattern_types)
   | Inr ap \<Rightarrow> p \<in> set (dict_keys pattern_types) \<and> policy_ok (ap_loop_policy ap) \<and>
       policy_ok ((ap_loop_policy ap)\<lparr>lp_reflection_revision_rounds := 0\<rparr>)"
  by (auto simp: create_agent_profile_def pattern_types_def default_policies_def profile_policy_def
      policy_ok_def dict_keys_def split: option.split)


lemma policy_revisions:
  "policy_ok (p\<lparr>lp_reflection_revision_rounds := 0\<rparr>) \<Longrightarrow> 0 \<le> n \<Longrightarrow>
   policy_ok (p\<lparr>lp_reflection_revision_rounds := n\<rparr>)"
  by (simp add: policy_ok_def)

definition well_built :: "settings \<Rightarrow> pystr \<Rightarrow> application \<Rightarrow> bool" where
  "well_built s pattern app \<longleftrightarrow>
     (let rt = ap_runtime app in
      (rt_planner rt \<noteq> None \<longleftrightarrow> pattern = lit ''plan_execute'') \<and>
      (rt_critic rt \<noteq> None \<longleftrightarrow> pattern = lit ''reflection'') \<and>
      (\<forall>ct. rt_critic rt = Some ct \<longrightarrow>
         ct_max_feedback_chars ct \<le> er_max_query_chars (ap_router app) \<and>
         lp_reflection_revision_rounds (rt_policy rt) = st_revision_rounds s) \<and>
      policy_ok (rt_policy rt) \<and> rt_wiring rt = StreamModel \<and>
      list_enabled (rt_registry rt) = tool_names \<and> dict_keys (rt_validator rt) = tool_names \<and>
      rt_tool_schemas rt = get_schemas (rt_registry rt) \<and> ap_client app = new_client)"



definition sample_settings :: settings where
  "sample_settings =
     \<lparr>st_model = lit ''m'', st_pattern = lit ''reflection'', st_exec_cwd = [],
      st_router_model = lit ''BAAI/bge-small-zh-v1.5'', st_router_threshold = 35 / 100, st_router_top_k = 3,
      st_router_cache_size = 256, st_router_max_query_chars = 4096,
      st_startup_timeout = lit ''180.0'', st_inference_timeout = lit ''30.0'',
      st_lock_timeout = lit ''5.0'', st_shutdown_timeout = lit ''5.0'',
      st_max_request_bytes = 256 * 1024, st_max_response_bytes = 4 * 1024 * 1024,
      st_max_stderr_chars = 4096, st_planner_timeout = \<lparr>pf_value = Some 30, pf_text = lit ''30.0''\<rparr>,
      st_planner_max_tasks = 12, st_planner_max_goal_chars = 1000,
      st_critic_timeout = \<lparr>pf_value = Some 30, pf_text = lit ''30.0''\<rparr>,
      st_critic_max_feedback_chars = 2000, st_revision_rounds = 1\<rparr>"

definition sample_deployment :: deployment where
  "sample_deployment =
     \<lparr>su_executable = lit ''python'', su_root_is_dir = True, su_fl = sample_text,
      su_positive = (\<lambda>t. t \<noteq> lit ''0.0''),
      su_tools = \<lparr>tt_doc = (\<lambda>_. None), tt_desc = (\<lambda>_ _. None), tt_call = (\<lambda>_ _. Returned JNull)\<rparr>,
      su_prompt = (\<lambda>_. lit ''system'')\<rparr>"

lemma sample_settings_load: "load_settings (su_positive sample_deployment) sample_settings = Inr sample_settings"
  by (simp add: load_settings_iff fields_ok_def sample_settings_def sample_deployment_def
      positive_float_def finite_float_def lit_def)


section \<open>The command line\<close>

lemma print_simps [simp]:
  "rl_printed (print ps r) = rl_printed r @ ps" "rl_world (print ps r) = rl_world r"
  "rl_session (print ps r) = rl_session r"
  by (simp_all add: print_def)

lemma repl_messages_printed [simp]: "rl_printed (snd (repl_messages env r)) = rl_printed r"
  by (simp add: repl_messages_def split: option.split prod.split)

lemma on_llm_events_silent:
  "LlmToken \<notin> ev_type ` set es \<Longrightarrow> on_llm_events streamed es = (streamed, [])"
  by (induction es arbitrary: streamed) auto

text \<open>What is streamed while a run goes on.\<close>

fun streamed_line :: "printed \<Rightarrow> bool" where
  "streamed_line (PrintToken l t) \<longleftrightarrow> True"
| "streamed_line (PrintCalls ns) \<longleftrightarrow> True"
| "streamed_line _ \<longleftrightarrow> False"

lemma schema_line_not_streamed [simp]: "\<not> streamed_line (schema_line s)"
  by (simp add: schema_line_def Let_def split: option.split)

definition quiet :: "repl \<Rightarrow> repl \<Rightarrow> bool" where
  "quiet r r' \<longleftrightarrow> (\<exists>ps. rl_printed r' = rl_printed r @ ps \<and> \<not> list_ex streamed_line ps)"

lemma quiet_eq: "rl_printed r' = rl_printed r \<Longrightarrow> quiet r r'"
  by (simp add: quiet_def)

lemma quiet_prints:
  "rl_printed r' = rl_printed r @ ps \<Longrightarrow> \<not> list_ex streamed_line ps \<Longrightarrow> quiet r r'"
  by (auto simp: quiet_def)

lemma quiet_trans: "quiet r r1 \<Longrightarrow> quiet r1 r' \<Longrightarrow> quiet r r'"
  by (auto simp: quiet_def)

lemma repl_messages_kept: "repl_messages env r = (msgs, r') \<Longrightarrow> rl_printed r' = rl_printed r"
  using repl_messages_printed [of env r] by simp

lemma after_run_quiet: "after_run env streamed st r = (res, r') \<Longrightarrow> quiet r r'"
  by (auto simp: after_run_def run_ended_def quiet_eq repl_messages_kept
      intro: quiet_prints split: if_splits prod.splits)

lemma repl_round_quiet:
  assumes "rt_critic rt \<noteq> None" and "repl_round env rt fresh q r = (res, r')"
  shows "quiet r r'"
proof -
  have run: "run_async env rt u sid w = (rs, w') \<Longrightarrow>
      on_llm_events False (drop (length (wo_events w)) (wo_events w')) = (False, [])" for u sid w rs w'
    using run_no_tokens [OF assms(1), of env u sid w rs w']
    by (auto simp: run_async_def fail_def events_avoid_def intro!: on_llm_events_silent split: if_splits)
  have aft: "after_run env st x (y\<lparr>rl_session := i\<rparr>) = (res, r') \<Longrightarrow> rl_printed y = rl_printed r \<Longrightarrow>
      quiet r r'" for st x y i
    using after_run_quiet [of env st x "y\<lparr>rl_session := i\<rparr>" res r'] by (simp add: quiet_def)
  have show_lines: "\<not> list_ex streamed_line (map schema_line ss)"
    "\<not> list_ex streamed_line (map (\<lambda>m. PrintMessage (m_role m) (map_option (take 120) (m_content m))) ms)" for ss ms
    by (simp_all add: list_ex_iff)
  have more_lines: "\<not> list_ex streamed_line ps \<Longrightarrow> quiet r (x\<lparr>rl_printed := rl_printed r @ ps\<rparr>)" for ps x
    by (simp add: quiet_def)
  show ?thesis
    using assms(2) show_lines
    by (auto simp: repl_round_def Let_def run quiet_eq repl_messages_kept print_def
      intro: quiet_prints aft more_lines split: if_splits prod.splits sum.splits)
qed


lemma repl_loop_quiet:
  assumes "rt_critic rt \<noteq> None"
  shows "repl_loop env rt fresh n qs r = (res, r') \<Longrightarrow> quiet r r'"
proof (induction qs arbitrary: n r)
  case (Cons q qs)
  obtain res1 r1 where one: "repl_round env rt (fresh n) q r = (res1, r1)" by (metis surj_pair)
  from repl_round_quiet [OF assms one] Cons show ?case
    by (auto simp: one intro: quiet_trans split: sum.splits bool.splits)
qed (simp add: quiet_eq)

lemma repl_round_raises:
  assumes "rt_wiring rt \<noteq> NoModel" and "repl_round env rt fresh q r = (Inl e, r')"
  shows "\<not> is_agent_error (exn_class e)"
proof -
  have "after_run env b st x = (Inl e, y) \<Longrightarrow> \<not> is_agent_error (exn_class e)" for b st x y
    by (auto simp: after_run_def split: if_splits prod.splits)
  moreover have "run_async env rt u sid w = (Inl e, w') \<Longrightarrow> \<not> is_agent_error (exn_class e)" for u sid w w'
    using assms(1) run_raised_class by (auto simp: run_async_def)
  ultimately show ?thesis
    using assms(2) by (auto simp: repl_round_def Let_def split: if_splits prod.splits sum.splits)
qed

lemma repl_loop_raises:
  assumes "rt_wiring rt \<noteq> NoModel"
  shows "repl_loop env rt fresh n qs r = (Inl e, r') \<Longrightarrow> \<not> is_agent_error (exn_class e)"
proof (induction qs arbitrary: n r)
  case (Cons q qs)
  obtain res1 r1 where one: "repl_round env rt (fresh n) q r = (res1, r1)" by (metis surj_pair)
  with repl_round_raises [OF assms] Cons show ?case
    by (cases res1) (auto split: bool.splits)
qed simp

lemma build_runtime_wired:
  assumes "build_runtime su s store chosen = Inr app"
  shows "rt_wiring (ap_runtime app) = StreamModel"
    "rt_critic (ap_runtime app) \<noteq> None \<longleftrightarrow> chosen_pattern s chosen = lit ''reflection''"
  using assms by (auto simp: build_runtime_def runtime_init_def optional_def Let_def split: if_splits)

text \<open>
  C10. In reflection mode the terminal never sees a draft: whatever is typed, and however the model,
  the tools and the critic behave, nothing is streamed; an answer is printed after its run, from the
  session's window.
\<close>

theorem reflection_prints_no_draft:
  assumes "build_runtime su s store chosen = Inr app"
    and "chosen_pattern s chosen = lit ''reflection''"
    and "repl_loop env (ap_runtime app) fresh n qs r = (res, r')"
  shows "\<exists>ps. rl_printed r' = rl_printed r @ ps \<and> \<not> list_ex streamed_line ps"
  using repl_loop_quiet [OF _ assms(3)] build_runtime_wired(2) [OF assms(1)] assms(2)
  by (simp add: quiet_def)

text \<open>
  The command line survives every failure the program declares: with a runtime that has a model
  (as every runtime that was built), an exception that ends the loop is never an AgentError. Runs
  that fail with one are reported and the next query is read.
\<close>

theorem repl_outlives_agent_errors:
  assumes "rt_wiring rt \<noteq> NoModel" and "repl_loop env rt fresh n qs r = (Inl e, r')"
  shows "\<not> is_agent_error (exn_class e)"
  using repl_loop_raises [OF assms] .

section \<open>A session on the command line\<close>

text \<open>The loop starts with the application's own memory and router.\<close>

definition start_repl :: "application \<Rightarrow> repl" where
  "start_repl app =
     \<lparr>rl_session = None,
      rl_world = \<lparr>wo_state = init_run_state [] StPending, wo_mm = ap_memory app,
        wo_router = ap_router app, wo_events = []\<rparr>,
      rl_printed = []\<rparr>"

theorem reflection_prints_no_draft_witness:
  "\<exists>app r'. build_runtime sample_deployment sample_settings [] None = Inr app \<and>
     repl_loop sample_env (ap_runtime app) (\<lambda>_. lit ''s'') 0 [lit ''/history'', lit ''hi''] (start_repl app) =
       (fst (repl_loop sample_env (ap_runtime app) (\<lambda>_. lit ''s'') 0 [lit ''/history'', lit ''hi'']
          (start_repl app)), r') \<and>
     \<not> list_ex streamed_line (rl_printed r')"
proof -
  have "case build_runtime sample_deployment sample_settings [] None of Inl e \<Rightarrow> False | Inr app \<Rightarrow> True"
    by code_simp
  then obtain app where app: "build_runtime sample_deployment sample_settings [] None = Inr app"
    by (auto split: sum.splits)
  have p: "chosen_pattern sample_settings None = lit ''reflection''"
    by (simp add: chosen_pattern_def sample_settings_def)
  obtain res r' where run: "repl_loop sample_env (ap_runtime app) (\<lambda>_. lit ''s'') 0
      [lit ''/history'', lit ''hi''] (start_repl app) = (res, r')"
    by (metis surj_pair)
  have "rl_printed (start_repl app) = []" by (simp add: start_repl_def)
  then show ?thesis
    using reflection_prints_no_draft [OF app p run] app run by auto
qed

definition sample_repl :: repl where
  "sample_repl = \<lparr>rl_session = None, rl_world = sample_world, rl_printed = []\<rparr>"

text \<open>With a critic the answer comes at the end; without one a model call that raises ends the loop.\<close>

lemma sample_session:
  "rl_printed (snd (repl_loop sample_env (sample_runtime None (Some sample_critic)) (\<lambda>_. lit ''s'') 0
     [lit ''/history'', lit ''hi'', lit ''/clear''] sample_repl)) =
   [PrintNoHistory, PrintAnswer (Some (lit ''done'')), PrintReset]"
  by code_simp

lemma raising_session:
  "map_sum exn_class id (fst (repl_loop
     (sample_env\<lparr>en_llm_call := (\<lambda>_ _ _. Raised (exn_of PyValueError []))\<rparr>)
     (sample_runtime None None) (\<lambda>_. lit ''s'') 0 [lit ''hi''] sample_repl)) = Inl PyValueError"
  by code_simp

theorem repl_outlives_agent_errors_witness:
  "\<exists>e. fst (repl_loop (sample_env\<lparr>en_llm_call := (\<lambda>_ _ _. Raised (exn_of PyValueError []))\<rparr>)
     (sample_runtime None None) (\<lambda>_. lit ''s'') 0 [lit ''hi''] sample_repl) = Inl e \<and>
     \<not> is_agent_error (exn_class e)"
proof -
  obtain res r' where run: "repl_loop (sample_env\<lparr>en_llm_call := (\<lambda>_ _ _. Raised (exn_of PyValueError []))\<rparr>)
     (sample_runtime None None) (\<lambda>_. lit ''s'') 0 [lit ''hi''] sample_repl = (res, r')"
    by (metis surj_pair)
  from raising_session obtain e where res: "res = Inl e"
    unfolding run fst_conv by (cases res) auto
  have "rt_wiring (sample_runtime None None) \<noteq> NoModel"
    by (simp add: sample_runtime_def runtime_init_def)
  from repl_outlives_agent_errors [OF this run [unfolded res]] show ?thesis
    unfolding run res fst_conv by blast
qed

end
