(* ===== verification/Spec2Isabelle.thy ===== *)
theory Spec2Isabelle
  imports Session_Coordinator Batch_Schedule Embedding_Service Builtin_Tools Llm_Client Rag_Index Application Sample_Run
begin

text \<open>
  AI_agent is an asynchronous agent runtime: a user's input is planned (optionally), a language
  model is asked in a loop, its tool calls are validated and executed, its draft answers are
  criticised (optionally) and the conversation is kept in a per-session sliding window. Around it
  stand a coordinator that serialises runs of one session, a worker process that computes
  embeddings for the tool router, the tools themselves, a client of the language model, a command
  line, and a pipeline that answers questions about documents.

  Theories, from the bottom. Every definition carries the name of the function, method or class
  it models (a prefix such as \<open>mm_\<close>, \<open>bm_\<close>, \<open>rs_\<close> or \<open>tc_\<close> names the class of a field), the text
  before it what it leaves out.

  \<^item> \<open>Agent_Prelude\<close>: Python strings as lists of code points, insertion-ordered dictionaries as
    association lists, calls that may raise as sums with the exception on the left; the shared
    lemmas about them (\<open>py_str\<close>, \<open>py_dict\<close>).
  \<^item> \<open>Py_Json\<close>: \<open>json.loads\<close> and \<open>json.dumps\<close> of the standard library with the hooks the program
    passes. The scanner runs on fuel, twice the length of the text and one, and
    \<open>scan_fuel_enough\<close> shows it is never used up. \<open>Json_Round_Trip\<close>: reading back what was
    printed. \<open>Py_Utf8\<close>: strict UTF-8 in both directions.
  \<^item> \<open>Agent_Errors\<close>: \<open>errors/exceptions.py\<close>, the exception hierarchy with messages, contexts and
    causes, and the built-in exceptions the program distinguishes.
  \<^item> \<open>Loop_Guard\<close> (\<open>runtime/policy.py\<close>, \<open>runtime/loop_guard.py\<close>), \<open>Planner\<close>
    (\<open>runtime/planner.py\<close>), \<open>Reflection\<close> (\<open>runtime/reflection.py\<close>): limits and loop detection, the
    plan format with its cycle check, the critique format.
  \<^item> \<open>Buffer_Memory\<close> (\<open>memory/token_counter.py\<close>, \<open>memory/short_term.py\<close>) and \<open>Memory_Manager\<close>
    (\<open>memory/manager.py\<close>, \<open>memory/session_store.py\<close>): the window and its eviction by turns, the
    cache of windows over the table of saved sessions.
  \<^item> \<open>Tool_Registry\<close>, \<open>Tool_Validator\<close>, \<open>Tool_Executor\<close>, \<open>Tool_Router\<close> (\<open>tools/\<close>): registration
    and schema generation, validation of model-generated calls, execution of a batch, selection
    of tools by embeddings. \<open>Batch_Schedule\<close>: the interleavings of a parallel batch.
  \<^item> \<open>Run_State\<close> (\<open>runtime/state.py\<close>, \<open>step.py\<close>, \<open>event.py\<close>, \<open>stop_reason.py\<close>) and \<open>Runtime\<close>
    (\<open>runtime/runtime.py\<close>): the world a run changes, and every method of the scheduler as a
    function of that world. \<open>Runtime_Rules\<close>, \<open>Runtime_Loop\<close>, \<open>Runtime_Facts\<close>, \<open>Run_Outcome\<close>: the
    rules by which properties of a run are proved, the invariants of a step stated once in a
    locale and interpreted for each of them, the run around the loop.
  \<^item> \<open>Session_Coordinator\<close> (\<open>runtime/session_coordinator.py\<close>): interleaved tasks as a step relation
    over the lock table and a heap of entries.
  \<^item> \<open>Worker_Protocol\<close> (\<open>rag/embedding_worker_protocol.py\<close>): the messages between the embedding
    client and its worker process. \<open>Embedding_Client\<close> and \<open>Client_Steps\<close>
    (\<open>rag/process_embeddings.py\<close>): what the client does between two awaits, and the interleaving of
    batches, closing, cancellations and the end of the process as a step relation.
    \<open>Embedding_Worker\<close> (\<open>rag/embedding_worker.py\<close>): the worker's loop over its input lines.
    \<open>Embedding_Service\<close>: both sides together, over the bytes they exchange.
  \<^item> \<open>Llm_Client\<close> (\<open>llm/client.py\<close>): retries, and the assembly of a streamed answer up to what
    \<open>Runtime\<close> makes of it.
  \<^item> \<open>Shell_Tools\<close>, \<open>Builtin_Tools\<close> (\<open>tools/builtin/\<close>, \<open>tools/calculator.py\<close>): the command filter over
    a model of \<open>shlex.split\<close>, the file tools over a file system with links, the address sandbox.
  \<^item> \<open>Rag_Chunks\<close>, \<open>Rag_Hybrid\<close>, \<open>Rag_Store\<close>, \<open>Rag_Pipeline\<close> (\<open>rag/chunking.py\<close>, \<open>loader.py\<close>,
    \<open>hybrid.py\<close>, \<open>vector_store.py\<close>, \<open>rerank.py\<close>, \<open>pipeline.py\<close>): documents in pieces, the keyword index
    and the rank fusion, the vector store, indexing and answering. \<open>Rag_Index\<close>: what both indexes
    promise, as one locale interpreted on each, and the properties of the pipeline that rest on it.
  \<^item> \<open>Application\<close> (\<open>config/settings.py\<close>, \<open>prompts/factory.py\<close>, \<open>tools/__init__.py\<close>, \<open>main.py\<close>): limits of
    the settings, profiles, the construction of the runtime, the loop of the command line.
  \<^item> \<open>Sample_Run\<close>: concrete runs, evaluated, for the witnesses.

  This theory holds the properties of whole runs, which span the components; the other properties
  stand at the end of the theory of their component.

  What is assumed of other code. The language models, the embedder, the tokenizer, \<open>jsonschema\<close>,
  the tool functions inside a run, the file system, name lookup, HTTP, pypdf, numpy and faiss, the
  SDK of the model and pydantic's own texts are parameters, arguments of the definitions that
  use them; hypotheses about them are named in the theorems. A call made at one step may answer
  differently from the same call at another. Cancellation of the task can arrive wherever the
  program awaits a collaborator and is then that collaborator's outcome.

  Bounds and fuel. The loop of a run is bounded by the \<open>max_steps\<close> of its policy plus two tests
  of its condition (\<open>run_loop_ends\<close>); the cycle check of a plan by the number of its tasks. Floats
  are texts where they are only carried and real numbers in the router, the keyword index and the
  fusion, without rounding (the conversion to float32 of the vector store is a parameter). The
  chunk loop ends because its step is positive where it is called; the retry loop counts its tries.
  Python's integers are unbounded and are \<open>int\<close>.

  Not modelled: log lines, durations and time stamps; the interpreter's recursion and memory
  limits; threads beyond the interleavings named above; the texts of the prompts, the styles of the
  terminal and how settings are read from the environment; \<open>rag/embeddings.py\<close> and \<open>rag/vision.py\<close>,
  which only call third-party models; logging, the demonstration and the benchmark.
\<close>

section \<open>Runs\<close>

text \<open>
  C1. A run that returns has reached a terminal status with the stop reason of that status, has
  emitted its terminal event last, and no other terminal event before; a failed run records the
  error, its description and the component it came from.
\<close>

theorem run_ends_once:
  assumes "cache_ok (wo_router w)"
    and "run_acquired env rt user_input sid w = (Inr s, w')"
  shows "wo_state w' = s \<and> is_terminal (rs_status s) \<and> rs_stop_reason s = reason_of (rs_status s) \<and>
    (rs_status s = StFailed \<longrightarrow> (\<exists>e. attributed env e s)) \<and>
    (\<exists>es. wo_events w' = wo_events w @ es @ [closing_event w'] \<and> (\<forall>e\<in>set es. \<not> terminal_event e))"
  using run_returned_state [OF assms] run_acquired_events [OF assms(2)] by simp

theorem run_ends_once_witness:
  "\<exists>s w'. sample_run None None = (Inr s, w') \<and> rs_status s = StFinished \<and>
     rs_stop_reason s = Some FinishNormal"
proof -
  obtain s w' where r: "sample_run None None = (Inr s, w')" "rs_status s = StFinished"
    using sample_plain_returns by blast
  with run_ends_once [OF sample_cache_ok r(1) [unfolded sample_run_def]] show ?thesis by auto
qed

text \<open>
  C2. What leaves a run as an exception is never an \<open>AgentError\<close>. A cancellation leaves the state
  canceled and the terminal event emitted; any other exception leaves without a terminal event.
\<close>

theorem run_raises:
  assumes "run_acquired env rt user_input sid w = (Inl e, w')"
  shows "\<not> is_agent_error (exn_class e) \<and>
    (if exn_class e = PyCancelledError
     then rs_status (wo_state w') = StCanceled \<and> rs_stop_reason (wo_state w') = Some StopCanceled \<and>
       last (wo_events w') = closing_event w' \<and> ev_type (closing_event w') = RunError
     else \<exists>es. wo_events w' = wo_events w @ es \<and> (\<forall>x\<in>set es. \<not> terminal_event x))"
proof (cases "exn_class e = PyCancelledError")
  case True
  obtain es where "wo_events w' = wo_events w @ es @ [closing_event w']"
    using run_acquired_events [OF assms] True by auto
  then have "last (wo_events w') = closing_event w'" by simp
  with run_raised_class [OF assms] True show ?thesis by (simp add: closing_event_def)
next
  case False
  from assms have "\<exists>es. wo_events w' = wo_events w @ es \<and> (\<forall>x\<in>set es. \<not> terminal_event x)"
    by (cases rule: run_acquired_cases) (use False run_body_events in auto)
  with run_raised_class [OF assms] False show ?thesis by simp
qed

theorem run_raises_witness:
  "\<exists>e w' es. raising_run PyValueError = (Inl e, w') \<and> exn_class e = PyValueError \<and>
     wo_events w' = es \<and> (\<forall>x\<in>set es. \<not> terminal_event x)"
proof -
  obtain e w' where r: "raising_run PyValueError = (Inl e, w')" "exn_class e = PyValueError"
    using raising_value_error by blast
  with run_raises [OF r(1) [unfolded raising_run_def]] show ?thesis by (auto simp: sample_world_def)
qed

text \<open>
  C3. Only tools of the current route run: scanning the events of a run, every tool response is
  for a tool that the last routing event before it selected.
\<close>

theorem run_tools_selected:
  assumes "run_acquired env rt user_input sid w = (res, w')"
  shows "\<exists>es. wo_events w' = wo_events w @ es \<and> responses_routed [] es"
  using run_tools_routed [OF assms] by (auto simp: tools_routed_def)

theorem run_tools_selected_witness:
  "responses_routed [] (wo_events (snd (sample_run None None)))"
  using run_tools_selected [of sample_env "sample_runtime None None" "lit ''hi''" "lit ''s''"
      sample_world "fst (sample_run None None)" "snd (sample_run None None)"]
  by (simp add: sample_run_def sample_world_def)



text \<open>C5. With a critic no token of a draft reaches the event handlers.\<close>

theorem run_streams_no_draft:
  assumes "rt_critic rt = Some ct"
    and "run_acquired env rt user_input sid w = (res, w')"
  shows "\<exists>es. wo_events w' = wo_events w @ es \<and> LlmToken \<notin> ev_type ` set es"
  using run_no_tokens [of rt env user_input sid w res w'] assms by (auto simp: events_avoid_def)

theorem run_streams_no_draft_witness:
  "LlmToken \<notin> ev_type ` set (wo_events (snd (sample_run None (Some sample_critic))))"
  using run_streams_no_draft [of "sample_runtime None (Some sample_critic)" sample_critic sample_env
      "lit ''hi''" "lit ''s''" sample_world "fst (sample_run None (Some sample_critic))"
      "snd (sample_run None (Some sample_critic))"]
  by (auto simp: sample_run_def sample_world_def sample_runtime_def runtime_init_def)

text \<open>
  C6. A run is bounded: its steps are numbered without gaps, model calls and reviews together are
  at most \<open>max_steps\<close>, and revisions at most the policy's revision rounds.
\<close>

theorem run_bounded:
  assumes "run_acquired env rt user_input sid w = (res, w')"
  shows "map st_index (rs_steps (wo_state w')) = [0..rs_step_count (wo_state w') - 1] \<and>
    len (filter (\<lambda>st. st_kind st \<noteq> ToolExec) (rs_steps (wo_state w')))
      \<le> max 0 (lp_max_steps (rt_policy rt)) \<and>
    rs_reflection_revision_rounds (wo_state w') \<le>
      max 0 (lp_reflection_revision_rounds (rt_policy rt))"
  using run_steps_ok [OF assms]
    calls_bounded_count [of "wo_state w'" rt]
  by (auto simp: steps_numbered_def)

theorem run_bounded_witness:
  "rs_reflection_revision_rounds (wo_state (snd revising_run)) \<le> 1"
  using run_bounded [of _ "sample_runtime None (Some sample_critic)" "lit ''hi''" "lit ''s''"
      sample_world "fst revising_run" "snd revising_run"]
  by (simp add: revising_run_def sample_runtime_def runtime_init_def default_policy_def)

text \<open>
  C7. The loop of a run ends: whatever the collaborators answer, testing the loop's condition
  \<open>max_steps + 2\<close> times is enough to reach its result, from any state a run can be in.
\<close>

theorem run_loop_ends:
  assumes "0 \<le> rs_step_count (wo_state w)"
  shows "run_loop_fuel (nat (lp_max_steps (rt_policy rt)) + 2) env rt plan revision w =
    Some (run_loop env rt plan revision w)"
  using assms by (intro run_loop_fuel_enough) (simp add: rounds_left_def nat_mono le_imp_less_Suc)

theorem run_loop_ends_witness:
  "\<exists>r. run_loop_fuel 102 sample_env (sample_runtime None None) None None
      (sample_world\<lparr>wo_state := init_run_state [] StRunning\<rparr>) = Some r"
  using run_loop_ends [of "sample_world\<lparr>wo_state := init_run_state [] StRunning\<rparr>"
      "sample_runtime None None" sample_env None None]
  by (simp add: sample_runtime_def runtime_init_def default_policy_def init_run_state_def)

text \<open>
  C8. A run keeps the window well paired: when every tool message of the session answered a call of
  the assistant message before it, it still does after the run, also after evictions.
\<close>

theorem run_keeps_pairing:
  assumes "paired (stored_messages sid w)" "run_acquired env rt user_input sid w = (res, w')"
  shows "paired (session_messages w')"
  using assms by (rule run_paired)

theorem run_keeps_pairing_witness:
  "paired (session_messages (snd (sample_run None None)))"
  using run_keeps_pairing [of "lit ''s''" sample_world sample_env "sample_runtime None None"
      "lit ''hi''" "fst (sample_run None None)" "snd (sample_run None None)"]
  by (simp add: sample_run_def stored_messages_def sample_world_def paired_def)

text \<open>
  C9. Sessions do not mix: a run changes no window of another session and nothing in the table of
  saved sessions.
\<close>

theorem run_leaves_other_sessions:
  assumes "run_acquired env rt user_input sid w = (res, w')" "other \<noteq> sid"
  shows "stored_messages other w' = stored_messages other w \<and>
    mm_store (wo_mm w') = mm_store (wo_mm w)"
  using run_others_kept [OF assms(1)] assms(2) by (simp add: others_kept_def stored_messages_def)

theorem run_leaves_other_sessions_witness:
  "stored_messages (lit ''t'') (snd (sample_run None None)) = []"
  using run_leaves_other_sessions [of sample_env "sample_runtime None None" "lit ''hi''" "lit ''s''"
      sample_world "fst (sample_run None None)" "snd (sample_run None None)" "lit ''t''"]
  by (simp add: sample_run_def stored_messages_def sample_world_def lit_def)

end
